theory Spec2Isabelle
  imports Complex_Main
begin

section \<open>Meeting store\<close>

text \<open>
  Modelled from the spec: the schema module (\<^verbatim>\<open>@/db/schema\<close>) is imported by the
  handlers but is not among the source files. The spec's data model gives a meeting an
  identifier, a status out of five values, \<^verbatim>\<open>agentId\<close>, \<^verbatim>\<open>transcriptUrl\<close>,
  \<^verbatim>\<open>recordingUrl\<close>, \<^verbatim>\<open>summary\<close>, \<^verbatim>\<open>startedAt\<close> and \<^verbatim>\<open>endedAt\<close>; an agent an
  identifier and \<^verbatim>\<open>instructions\<close>; a speaker is unified to an id and a name.
  Columns the handlers write before any value is known are optional.
\<close>

datatype meeting_status = upcoming | active | processing | completed | cancelled

text \<open>\<^verbatim>\<open>new Date()\<close>: the clock is read by the caller and passed in, in milliseconds.\<close>

type_synonym date = nat

record meeting =
  meeting_id :: string
  status :: meeting_status
  agentId :: string
  transcriptUrl :: "string option"
  recordingUrl :: "string option"
  summary :: "string option"
  startedAt :: "date option"
  endedAt :: "date option"

record agent =
  agent_id :: string
  agent_name :: string
  instructions :: string

record user =
  user_id :: string
  user_name :: string

text \<open>The message of \<^verbatim>\<open>inngest.send\<close>: \<^verbatim>\<open>{name, data: {meetingId, transcriptUrl}}\<close>.\<close>

record inngest_event =
  name :: string
  data_meetingId :: string
  data_transcriptUrl :: "string option"

text \<open>
  Everything the handlers and the pipeline can change: the three tables, the messages
  handed to the job runner (oldest first) and the calls on which \<^verbatim>\<open>call.end()\<close> was
  invoked, as (call type, call id). Console output is not modelled.
\<close>

record state =
  meetings :: "meeting list"
  agents :: "agent list"
  users :: "user list"
  sent :: "inngest_event list"
  ended_calls :: "(string \<times> string) list"

subsection \<open>The query builder\<close>

text \<open>
  A table is the list of its rows. \<^verbatim>\<open>select().from(t).where(p)\<close> keeps the rows that
  satisfy \<open>p\<close>; \<^verbatim>\<open>update(t).set(f).where(p)\<close> rewrites exactly those rows in place and
  \<^verbatim>\<open>.returning()\<close> yields them as rewritten; the array pattern \<^verbatim>\<open>const [x] = rows\<close>
  binds the first row or \<^verbatim>\<open>undefined\<close>.
\<close>

definition select_where :: "('r \<Rightarrow> bool) \<Rightarrow> 'r list \<Rightarrow> 'r list" where
  "select_where p rows = filter p rows"

definition update_where :: "('r \<Rightarrow> bool) \<Rightarrow> ('r \<Rightarrow> 'r) \<Rightarrow> 'r list \<Rightarrow> 'r list" where
  "update_where p f rows = map (\<lambda>r. if p r then f r else r) rows"

definition returning :: "('r \<Rightarrow> bool) \<Rightarrow> ('r \<Rightarrow> 'r) \<Rightarrow> 'r list \<Rightarrow> 'r list" where
  "returning p f rows = map f (filter p rows)"

definition first_row :: "'r list \<Rightarrow> 'r option" where
  "first_row rows = (case rows of [] \<Rightarrow> None | r # _ \<Rightarrow> Some r)"

text \<open>
  \<^verbatim>\<open>eq(meetings.id, v)\<close> where \<open>v\<close> may be \<^verbatim>\<open>undefined\<close>: the driver binds
  \<^verbatim>\<open>undefined\<close> as NULL, and a comparison with NULL selects no row.
\<close>

definition eq_id :: "string \<Rightarrow> string option \<Rightarrow> bool" where
  "eq_id col v = (case v of None \<Rightarrow> False | Some x \<Rightarrow> col = x)"

subsection \<open>JavaScript strings\<close>

text \<open>\<^verbatim>\<open>!v\<close> for a value that is a string, \<^verbatim>\<open>null\<close> or \<^verbatim>\<open>undefined\<close>.\<close>

definition falsy :: "string option \<Rightarrow> bool" where
  "falsy v = (case v of None \<Rightarrow> True | Some x \<Rightarrow> x = [])"

text \<open>\<^verbatim>\<open>a || b\<close> for an optional string and a string.\<close>

definition or_else :: "string option \<Rightarrow> string \<Rightarrow> string" where
  "or_else v d = (case v of None \<Rightarrow> d | Some x \<Rightarrow> if x = [] then d else x)"

text \<open>\<^verbatim>\<open>str.split(c)\<close> for a one-character separator: never empty, \<^verbatim>\<open>"".split(":")\<close> is \<^verbatim>\<open>[""]\<close>.\<close>

fun split :: "char \<Rightarrow> string \<Rightarrow> string list" where
  "split c [] = [[]]"
| "split c (x # xs) =
     (if x = c then [] # split c xs
      else (case split c xs of [] \<Rightarrow> [[x]] | y # ys \<Rightarrow> (x # y) # ys))"

text \<open>\<^verbatim>\<open>arr[i]\<close>: \<^verbatim>\<open>undefined\<close> out of range.\<close>

fun index :: "'a list \<Rightarrow> nat \<Rightarrow> 'a option" where
  "index [] i = None"
| "index (x # xs) 0 = Some x"
| "index (x # xs) (Suc i) = index xs i"

section \<open>The webhook endpoint (\<^verbatim>\<open>src/app/api/webhook/route.ts\<close>)\<close>

record request =
  x_signature :: "string option"
  x_api_key :: "string option"
  body :: string

datatype json_body = Error string | StatusOk

datatype response = Response (code: nat) (json: json_body)

subsection \<open>The parsed payload\<close>

text \<open>
  What \<^verbatim>\<open>JSON.parse\<close> returns: any JSON value. A number is a finite double, held as the
  rational it denotes, or an infinity (a literal beyond the doubles); an object is the
  list of its properties as the parser leaves them, and where that list names a key
  twice the first entry is the property's value. The casts of the handler to the event
  types of the video SDK change nothing at run time, so the branches read whatever the
  body held. A JavaScript value that may be \<^verbatim>\<open>undefined\<close> is an optional JSON value.
\<close>

datatype js_number = Finite rat | PlusInfinity | MinusInfinity

datatype json =
    JNull
  | JBool bool
  | JNumber js_number
  | JString string
  | JArray "json list"
  | JObject "(string \<times> json) list"

type_synonym js = "json option"

text \<open>
  \<^verbatim>\<open>v.k\<close> for the keys the handler reads (\<^verbatim>\<open>type\<close>, \<^verbatim>\<open>call\<close>, \<^verbatim>\<open>custom\<close>,
  \<^verbatim>\<open>meetingId\<close>, \<^verbatim>\<open>call_cid\<close>, \<^verbatim>\<open>call_transcription\<close>, \<^verbatim>\<open>call_recording\<close>, \<^verbatim>\<open>url\<close>):
  reading a property of \<^verbatim>\<open>undefined\<close> or \<^verbatim>\<open>null\<close> throws a TypeError (\<open>None\<close>); an object
  yields its entry or \<^verbatim>\<open>undefined\<close>; a string, number, boolean or array has none of
  these properties.
\<close>

fun property :: "js \<Rightarrow> string \<Rightarrow> js option" where
  "property None k = None"
| "property (Some JNull) k = None"
| "property (Some (JObject entries)) k = Some (map_of entries k)"
| "property (Some (JBool b)) k = Some None"
| "property (Some (JNumber n)) k = Some None"
| "property (Some (JString x)) k = Some None"
| "property (Some (JArray xs)) k = Some None"

text \<open>\<^verbatim>\<open>v?.k\<close>: \<^verbatim>\<open>undefined\<close> where \<^verbatim>\<open>v.k\<close> would throw.\<close>

definition optional_property :: "js \<Rightarrow> string \<Rightarrow> js" where
  "optional_property v k = (case property v k of None \<Rightarrow> None | Some r \<Rightarrow> r)"

text \<open>\<^verbatim>\<open>!v\<close> for any value: \<^verbatim>\<open>undefined\<close>, \<^verbatim>\<open>null\<close>, \<^verbatim>\<open>false\<close>, zero and the empty string.\<close>

fun falsy_js :: "js \<Rightarrow> bool" where
  "falsy_js None = True"
| "falsy_js (Some JNull) = True"
| "falsy_js (Some (JBool b)) = (\<not> b)"
| "falsy_js (Some (JNumber n)) = (n = Finite 0)"
| "falsy_js (Some (JString x)) = (x = [])"
| "falsy_js (Some (JArray xs)) = False"
| "falsy_js (Some (JObject entries)) = False"

text \<open>\<^verbatim>\<open>v.split(":")\<close>: only a string has the method; on anything else the call throws.\<close>

fun split_method :: "js \<Rightarrow> string list option" where
  "split_method (Some (JString x)) = Some (split CHR '':'' x)"
| "split_method v = None"

text \<open>\<^verbatim>\<open>(payload as Record<string, unknown>)?.type\<close>.\<close>

definition payload_type :: "json \<Rightarrow> js" where
  "payload_type payload = optional_property (Some payload) ''type''"

text \<open>\<^verbatim>\<open>event.call.custom?.meetingId\<close>; \<open>None\<close> when reading it throws.\<close>

definition call_custom_meetingId :: "json \<Rightarrow> js option" where
  "call_custom_meetingId event =
     (case property (Some event) ''call'' of
        None \<Rightarrow> None
      | Some call \<Rightarrow>
          (case property call ''custom'' of
             None \<Rightarrow> None
           | Some custom \<Rightarrow> Some (optional_property custom ''meetingId'')))"

text \<open>\<^verbatim>\<open>event.call_cid.split(":")[1]\<close>; \<open>None\<close> when evaluating it throws.\<close>

definition call_cid_meetingId :: "json \<Rightarrow> string option option" where
  "call_cid_meetingId event =
     (case property (Some event) ''call_cid'' of
        None \<Rightarrow> None
      | Some call_cid \<Rightarrow>
          (case split_method call_cid of
             None \<Rightarrow> None
           | Some parts \<Rightarrow> Some (index parts 1)))"

text \<open>
  \<^verbatim>\<open>event.call_transcription.url\<close> and \<^verbatim>\<open>event.call_recording.url\<close>, by the key of the
  enclosing object; \<open>None\<close> when reading it throws.
\<close>

definition nested_url :: "string \<Rightarrow> json \<Rightarrow> js option" where
  "nested_url k event =
     (case property (Some event) k of
        None \<Rightarrow> None
      | Some enclosing \<Rightarrow> property enclosing ''url'')"

subsection \<open>Query parameters\<close>

text \<open>
  What the database driver makes of a value handed to a query: it refuses the value
  (the query throws), binds NULL, or binds a text. A string is bound as itself and
  \<^verbatim>\<open>null\<close> as NULL; what becomes of a number, a boolean, an array or an object is the
  driver's business, which is not among the sources: \<open>driver\<close> is a parameter.
\<close>

datatype sql_param = Unbindable | SqlNull | SqlText string

definition sql_param_of :: "(json \<Rightarrow> sql_param) \<Rightarrow> json \<Rightarrow> sql_param" where
  "sql_param_of driver j =
     (case j of
        JNull \<Rightarrow> SqlNull
      | JString x \<Rightarrow> SqlText x
      | JBool b \<Rightarrow> driver j
      | JNumber n \<Rightarrow> driver j
      | JArray xs \<Rightarrow> driver j
      | JObject entries \<Rightarrow> driver j)"

text \<open>
  A value compared in \<^verbatim>\<open>where(eq(col, v))\<close>: \<^verbatim>\<open>undefined\<close> is bound as NULL (see
  \<open>eq_id\<close>).
\<close>

definition where_param :: "(json \<Rightarrow> sql_param) \<Rightarrow> js \<Rightarrow> sql_param" where
  "where_param driver v = (case v of None \<Rightarrow> SqlNull | Some j \<Rightarrow> sql_param_of driver j)"

subsection \<open>The branches\<close>

text \<open>
  Each branch of \<^verbatim>\<open>POST\<close> returns early with a response, falls through to the final
  \<^verbatim>\<open>return NextResponse.json({ status: "ok" })\<close>, or throws; nothing in \<^verbatim>\<open>POST\<close> catches
  what a branch throws.
\<close>

datatype branch = Returns response | Continues | Throws

text \<open>
  Lines 51 to 107, with the meeting id as bound to the query (\<open>None\<close> is NULL): the
  guarded select, the update and the agent lookup.
\<close>

definition start_meeting :: "date \<Rightarrow> string option \<Rightarrow> state \<Rightarrow> branch \<times> state" where
  "start_meeting now meetingId s =
     (case first_row (select_where
             (\<lambda>m. eq_id (meeting_id m) meetingId \<and> status m \<noteq> completed \<and> status m \<noteq> active
                 \<and> status m \<noteq> cancelled \<and> status m \<noteq> processing)
             (meetings s)) of
        None \<Rightarrow> (Returns (Response 404 (Error ''Meeting not found'')), s)
      | Some existingMeeting \<Rightarrow>
          let s1 = s\<lparr>meetings :=
                     update_where (\<lambda>m. meeting_id m = meeting_id existingMeeting)
                       (\<lambda>m. m\<lparr>status := active, startedAt := Some now\<rparr>)
                       (meetings s)\<rparr>
          in (case first_row (select_where
                     (\<lambda>a. agent_id a = agentId existingMeeting) (agents s1)) of
                None \<Rightarrow> (Returns (Response 404 (Error ''Agent not found'')), s1)
              | Some existingAgent \<Rightarrow> (Continues, s1)))"

definition session_started ::
  "(json \<Rightarrow> sql_param) \<Rightarrow> date \<Rightarrow> json \<Rightarrow> state \<Rightarrow> branch \<times> state" where
  "session_started driver now event s =
     (case call_custom_meetingId event of
        None \<Rightarrow> (Throws, s)
      | Some meetingId \<Rightarrow>
          if falsy_js meetingId
          then (Returns (Response 400 (Error ''Missing meetingId'')), s)
          else
            (case where_param driver meetingId of
               Unbindable \<Rightarrow> (Throws, s)
             | SqlNull \<Rightarrow> start_meeting now None s
             | SqlText x \<Rightarrow> start_meeting now (Some x) s))"

definition session_participant_left :: "json \<Rightarrow> state \<Rightarrow> branch \<times> state" where
  "session_participant_left event s =
     (case call_cid_meetingId event of
        None \<Rightarrow> (Throws, s)
      | Some meetingId \<Rightarrow>
          (case meetingId of
             None \<Rightarrow> (Returns (Response 400 (Error ''Missing meetingId '')), s)
           | Some mid \<Rightarrow>
               if mid = [] then (Returns (Response 400 (Error ''Missing meetingId '')), s)
               else (Continues, s\<lparr>ended_calls := ended_calls s @ [(''default'', mid)]\<rparr>)))"

text \<open>Lines 127 to 133, with the meeting id as bound to the query.\<close>

definition end_meeting :: "date \<Rightarrow> string option \<Rightarrow> state \<Rightarrow> branch \<times> state" where
  "end_meeting now meetingId s =
     (Continues,
      s\<lparr>meetings :=
          update_where (\<lambda>m. eq_id (meeting_id m) meetingId \<and> status m = active)
            (\<lambda>m. m\<lparr>status := processing, endedAt := Some now\<rparr>)
            (meetings s)\<rparr>)"

definition session_ended ::
  "(json \<Rightarrow> sql_param) \<Rightarrow> date \<Rightarrow> json \<Rightarrow> state \<Rightarrow> branch \<times> state" where
  "session_ended driver now event s =
     (case call_custom_meetingId event of
        None \<Rightarrow> (Throws, s)
      | Some meetingId \<Rightarrow>
          if falsy_js meetingId
          then (Returns (Response 400 (Error ''Missing meetingId'')), s)
          else
            (case where_param driver meetingId of
               Unbindable \<Rightarrow> (Throws, s)
             | SqlNull \<Rightarrow> end_meeting now None s
             | SqlText x \<Rightarrow> end_meeting now (Some x) s))"

text \<open>
  Lines 138 to 157, with the value the column is set to (\<open>None\<close> is NULL): the update
  with \<^verbatim>\<open>returning()\<close>, the check of the first returned row and \<^verbatim>\<open>inngest.send\<close>.
\<close>

definition store_transcript :: "string option \<Rightarrow> string option \<Rightarrow> state \<Rightarrow> branch \<times> state" where
  "store_transcript meetingId url s =
     (let s1 = s\<lparr>meetings :=
                 update_where (\<lambda>m. eq_id (meeting_id m) meetingId)
                   (\<lambda>m. m\<lparr>transcriptUrl := url\<rparr>) (meetings s)\<rparr>
      in case first_row (returning (\<lambda>m. eq_id (meeting_id m) meetingId)
                 (\<lambda>m. m\<lparr>transcriptUrl := url\<rparr>) (meetings s)) of
           None \<Rightarrow> (Returns (Response 400 (Error ''Meeting not found '')), s1)
         | Some updateMeeting \<Rightarrow>
             (Continues, s1\<lparr>sent := sent s1 @
                [\<lparr>name = ''meetings/processing'',
                  data_meetingId = meeting_id updateMeeting,
                  data_transcriptUrl = transcriptUrl updateMeeting\<rparr>]\<rparr>))"

text \<open>
  \<^verbatim>\<open>.set({ column: v })\<close> drops an \<^verbatim>\<open>undefined\<close> value, and the query builder refuses an
  update that sets nothing: with \<^verbatim>\<open>undefined\<close> for the only column the branch throws
  before any query.
\<close>

definition transcription_ready ::
  "(json \<Rightarrow> sql_param) \<Rightarrow> json \<Rightarrow> state \<Rightarrow> branch \<times> state" where
  "transcription_ready driver event s =
     (case call_cid_meetingId event of
        None \<Rightarrow> (Throws, s)
      | Some meetingId \<Rightarrow>
          (case nested_url ''call_transcription'' event of
             None \<Rightarrow> (Throws, s)
           | Some None \<Rightarrow> (Throws, s)
           | Some (Some url) \<Rightarrow>
               (case sql_param_of driver url of
                  Unbindable \<Rightarrow> (Throws, s)
                | SqlNull \<Rightarrow> store_transcript meetingId None s
                | SqlText x \<Rightarrow> store_transcript meetingId (Some x) s)))"

text \<open>Lines 162 to 167, with the value the column is set to.\<close>

definition store_recording :: "string option \<Rightarrow> string option \<Rightarrow> state \<Rightarrow> branch \<times> state" where
  "store_recording meetingId url s =
     (Continues,
      s\<lparr>meetings :=
          update_where (\<lambda>m. eq_id (meeting_id m) meetingId)
            (\<lambda>m. m\<lparr>recordingUrl := url\<rparr>) (meetings s)\<rparr>)"

definition recording_ready ::
  "(json \<Rightarrow> sql_param) \<Rightarrow> json \<Rightarrow> state \<Rightarrow> branch \<times> state" where
  "recording_ready driver event s =
     (case call_cid_meetingId event of
        None \<Rightarrow> (Throws, s)
      | Some meetingId \<Rightarrow>
          (case nested_url ''call_recording'' event of
             None \<Rightarrow> (Throws, s)
           | Some None \<Rightarrow> (Throws, s)
           | Some (Some url) \<Rightarrow>
               (case sql_param_of driver url of
                  Unbindable \<Rightarrow> (Throws, s)
                | SqlNull \<Rightarrow> store_recording meetingId None s
                | SqlText x \<Rightarrow> store_recording meetingId (Some x) s)))"

text \<open>The chain of \<^verbatim>\<open>eventType === ...\<close> tests.\<close>

definition dispatch ::
  "(json \<Rightarrow> sql_param) \<Rightarrow> date \<Rightarrow> json \<Rightarrow> state \<Rightarrow> branch \<times> state" where
  "dispatch driver now payload s =
     (let eventType = payload_type payload in
      if eventType = Some (JString ''call.session_started'')
      then session_started driver now payload s
      else if eventType = Some (JString ''call.session_participant_left'')
      then session_participant_left payload s
      else if eventType = Some (JString ''call.session_ended'')
      then session_ended driver now payload s
      else if eventType = Some (JString ''call.transcription_ready'')
      then transcription_ready driver payload s
      else if eventType = Some (JString ''call.recording_ready'')
      then recording_ready driver payload s
      else (Continues, s))"

text \<open>
  \<^verbatim>\<open>POST\<close> answers with a response or, when a branch throws, with none of its own
  (\<open>Uncaught\<close>); \<open>answer\<close> is the end of the function as the branch reaches it. The
  SDK's \<^verbatim>\<open>verifyWebhook\<close>, \<^verbatim>\<open>JSON.parse\<close> and the driver are parameters:
  \<open>parse body = None\<close> is the \<^verbatim>\<open>catch\<close> of a malformed body. Apart from what the driver
  refuses, the database, the call service and the job runner are taken to answer. The
  match on \<open>x_signature req\<close> only binds the header's value: its \<open>None\<close> case is the return
  above it.
\<close>

datatype outcome = Responds response | Uncaught

fun answer :: "branch \<Rightarrow> outcome" where
  "answer (Returns r) = Responds r"
| "answer Continues = Responds (Response 200 StatusOk)"
| "answer Throws = Uncaught"

definition POST ::
  "(string \<Rightarrow> string \<Rightarrow> bool) \<Rightarrow> (string \<Rightarrow> json option) \<Rightarrow> (json \<Rightarrow> sql_param) \<Rightarrow> date
     \<Rightarrow> request \<Rightarrow> state \<Rightarrow> outcome \<times> state" where
  "POST verifyWebhook parse driver now req s =
     (if falsy (x_signature req) \<or> falsy (x_api_key req)
      then (Responds (Response 400 (Error ''Missing signature or API key'')), s)
      else
        (case x_signature req of
           None \<Rightarrow> (Responds (Response 400 (Error ''Missing signature or API key'')), s)
         | Some signature \<Rightarrow>
             if \<not> verifyWebhook (body req) signature
             then (Responds (Response 401 (Error ''Invalid signature'')), s)
             else
               (case parse (body req) of
                  None \<Rightarrow> (Responds (Response 400 (Error ''Invalid JSON '')), s)
                | Some payload \<Rightarrow>
                    (case dispatch driver now payload s of
                       (b, s') \<Rightarrow> (answer b, s')))))"

section \<open>The transcript pipeline (\<^verbatim>\<open>src/inngest/functions.ts\<close>)\<close>

text \<open>
  Modelled from the spec: the type \<^verbatim>\<open>StreamTranscriptItem\<close> (\<^verbatim>\<open>@/modules/meetings/types\<close>)
  is not among the source files. The spec gives a transcript item a \<^verbatim>\<open>speaker_id\<close> and
  utterance text and timing fields; the latter are kept as one field of any type.
\<close>

record 'u transcript_item =
  speaker_id :: string
  utterance :: 'u

text \<open>\<^verbatim>\<open>{ ...item, user: { name } }\<close>.\<close>

record 'u annotated_item =
  item :: "'u transcript_item"
  user_name_of_item :: string

text \<open>The array \<^verbatim>\<open>[...userSpeakers, ...agentSpeakers]\<close> holds rows of both tables.\<close>

datatype speaker = UserSpeaker user | AgentSpeaker agent

fun speaker_ident :: "speaker \<Rightarrow> string" where
  "speaker_ident (UserSpeaker u) = user_id u"
| "speaker_ident (AgentSpeaker a) = agent_id a"

fun speaker_name :: "speaker \<Rightarrow> string" where
  "speaker_name (UserSpeaker u) = user_name u"
| "speaker_name (AgentSpeaker a) = agent_name a"

text \<open>\<^verbatim>\<open>[...new Set(xs)]\<close>: the distinct elements, each at its first occurrence.\<close>

definition new_Set :: "'a list \<Rightarrow> 'a list" where
  "new_Set xs = rev (remdups (rev xs))"

text \<open>\<^verbatim>\<open>inArray(col, ids)\<close>: membership; an empty list selects no row.\<close>

definition inArray :: "'a \<Rightarrow> 'a list \<Rightarrow> bool" where
  "inArray col ids = (col \<in> set ids)"

text \<open>The callback of the final \<^verbatim>\<open>transcript.map\<close> and the map itself.\<close>

definition annotate :: "speaker list \<Rightarrow> 'u transcript_item \<Rightarrow> 'u annotated_item" where
  "annotate speakers it =
     (case find (\<lambda>sp. speaker_ident sp = speaker_id it) speakers of
        None \<Rightarrow> \<lparr>item = it, user_name_of_item = ''Unknown''\<rparr>
      | Some sp \<Rightarrow> \<lparr>item = it, user_name_of_item = speaker_name sp\<rparr>)"

definition annotate_all ::
  "user list \<Rightarrow> agent list \<Rightarrow> 'u transcript_item list \<Rightarrow> 'u annotated_item list" where
  "annotate_all userSpeakers agentSpeakers transcript =
     (let speakers = map UserSpeaker userSpeakers @ map AgentSpeaker agentSpeakers
      in map (annotate speakers) transcript)"

text \<open>Step \<^verbatim>\<open>add-speakers\<close>.\<close>

definition add_speakers :: "state \<Rightarrow> 'u transcript_item list \<Rightarrow> 'u annotated_item list" where
  "add_speakers s transcript =
     (let speakerIds = new_Set (map speaker_id transcript);
          userSpeakers = select_where (\<lambda>u. inArray (user_id u) speakerIds) (users s);
          agentSpeakers = select_where (\<lambda>a. inArray (agent_id a) speakerIds) (agents s)
      in annotate_all userSpeakers agentSpeakers transcript)"

subsection \<open>The generation call\<close>

text \<open>
  A thrown JavaScript value: an \<^verbatim>\<open>Error\<close> object with its name and message, or any
  other value with its string conversion. \<open>error_string\<close> is \<^verbatim>\<open>String(error)\<close> and
  \<open>error_details\<close> is \<^verbatim>\<open>error instanceof Error ? error.message : String(error)\<close>.
\<close>

datatype thrown = ErrorObject string string | Thrown string

fun error_string :: "thrown \<Rightarrow> string" where
  "error_string (ErrorObject n m) =
     (if n = [] then m else if m = [] then n else n @ '': '' @ m)"
| "error_string (Thrown v) = v"

fun error_details :: "thrown \<Rightarrow> string" where
  "error_details (ErrorObject n m) = m"
| "error_details (Thrown v) = v"

text \<open>
  The argument of \<^verbatim>\<open>genAI.models.generateContent\<close>; the temperature is held in tenths.
  The call itself is a parameter of the model: it throws (\<open>Inl\<close>) or returns a result
  whose \<^verbatim>\<open>text\<close> may be missing (\<open>Inr None\<close>).
\<close>

record generate_content_parameters =
  model :: string
  contents :: string
  temperature_tenths :: nat
  maxOutputTokens :: nat

type_synonym generate_content = "generate_content_parameters \<Rightarrow> thrown + string option"

definition systemPrompt :: string where
  "systemPrompt =
     ''You are an expert summarizer. You write readable, concise, simple content. You are given a transcript of a meeting and you need to summarize it.\<newline>''
   @ ''\<newline>''
   @ ''Use the following markdown structure for every output:\<newline>''
   @ ''\<newline>''
   @ ''### Overview\<newline>''
   @ ''Provide a detailed, engaging summary of the session's content. Focus on major features, user workflows, and any key takeaways. Write in a narrative style, using full sentences. Highlight unique or powerful aspects of the product, platform, or discussion.\<newline>''
   @ ''\<newline>''
   @ ''### Notes\<newline>''
   @ ''Break down key content into thematic sections with timestamp ranges. Each section should summarize key points, actions, or demos in bullet format.\<newline>''
   @ ''\<newline>''
   @ ''Example:\<newline>''
   @ ''#### Section Name\<newline>''
   @ ''- Main point or demo shown here\<newline>''
   @ ''- Another key insight or interaction\<newline>''
   @ ''- Follow-up tool or explanation provided\<newline>''
   @ ''\<newline>''
   @ ''#### Next Section\<newline>''
   @ ''- Feature X automatically does Y\<newline>''
   @ ''- Mention of integration with Z''"

text \<open>
  \<^verbatim>\<open>summarizeWithGemini\<close>. \<open>summary_request\<close> is the object it passes to
  \<^verbatim>\<open>generateContent\<close>, with the prompt built from the transcript; \<open>Inl msg\<close> is
  \<^verbatim>\<open>throw new Error(msg)\<close>, \<open>Inr\<close> the returned string
  \<^verbatim>\<open>result.text || "Summary generation failed"\<close>.
\<close>

definition summary_request :: "string \<Rightarrow> generate_content_parameters" where
  "summary_request transcript =
     (let prompt = systemPrompt @ ''\<newline>\<newline>Transcript to summarize:\<newline>'' @ transcript
      in \<lparr>model = ''gemini-2.0-flash-exp'', contents = prompt,
          temperature_tenths = 7, maxOutputTokens = 2048\<rparr>)"

definition summarizeWithGemini :: "generate_content \<Rightarrow> string \<Rightarrow> string + string" where
  "summarizeWithGemini generateContent transcript =
     (case generateContent (summary_request transcript) of
        Inl e \<Rightarrow> Inl ''Failed to generate summary with Gemini''
      | Inr result_text \<Rightarrow> Inr (or_else result_text ''Summary generation failed''))"

subsection \<open>The job\<close>

datatype step_error =
    FetchTranscriptFailed
  | ParseTranscriptFailed
  | GenerateSummaryFailed string

text \<open>Step \<^verbatim>\<open>save-summary\<close>.\<close>

definition save_summary :: "string \<Rightarrow> string \<Rightarrow> state \<Rightarrow> state" where
  "save_summary meetingId summary_text s =
     s\<lparr>meetings :=
         update_where (\<lambda>m. meeting_id m = meetingId)
           (\<lambda>m. m\<lparr>summary := Some summary_text, status := completed\<rparr>) (meetings s)\<rparr>"

text \<open>
  \<^verbatim>\<open>meetingsProcessing\<close>: the five steps in order. \<^verbatim>\<open>fetch\<close> of the transcript,
  \<^verbatim>\<open>JSONL.parse\<close> and \<^verbatim>\<open>JSON.stringify\<close> are parameters; a step that throws ends the
  run with its error and the state as the steps before it left it (they only read).
\<close>

definition meetingsProcessing ::
  "(string option \<Rightarrow> string option) \<Rightarrow> (string \<Rightarrow> 'u transcript_item list option)
     \<Rightarrow> ('u annotated_item list \<Rightarrow> string) \<Rightarrow> generate_content
     \<Rightarrow> inngest_event \<Rightarrow> state \<Rightarrow> step_error option \<times> state" where
  "meetingsProcessing fetch_text JSONL_parse JSON_stringify generateContent event s =
     (case fetch_text (data_transcriptUrl event) of
        None \<Rightarrow> (Some FetchTranscriptFailed, s)
      | Some response_text \<Rightarrow>
          (case JSONL_parse response_text of
             None \<Rightarrow> (Some ParseTranscriptFailed, s)
           | Some transcript \<Rightarrow>
               let transcirptWithSpeakers = add_speakers s transcript;
                   transcriptText = JSON_stringify transcirptWithSpeakers
               in (case summarizeWithGemini generateContent transcriptText of
                     Inl msg \<Rightarrow> (Some (GenerateSummaryFailed msg), s)
                   | Inr summary_text \<Rightarrow>
                       (None, save_summary (data_meetingId event) summary_text s))))"

section \<open>The voice endpoint (\<^verbatim>\<open>src/app/api/ai/process-speech/route.ts\<close>)\<close>

text \<open>\<^verbatim>\<open>str.includes(sub)\<close>.\<close>

fun starts_with :: "string \<Rightarrow> string \<Rightarrow> bool" where
  "starts_with xs [] = True"
| "starts_with [] (y # ys) = False"
| "starts_with (x # xs) (y # ys) = (x = y \<and> starts_with xs ys)"

fun includes_str :: "string \<Rightarrow> string \<Rightarrow> bool" where
  "includes_str [] sub = (sub = [])"
| "includes_str (x # xs) sub = (starts_with (x # xs) sub \<or> includes_str xs sub)"

datatype speech_body = ErrorBody string "string option" | ReplyBody string bool

datatype speech_response = SpeechResponse nat speech_body

text \<open>The \<^verbatim>\<open>catch\<close> block of the endpoint.\<close>

definition speech_catch :: "thrown \<Rightarrow> speech_response" where
  "speech_catch e =
     (let errorStr = error_string e in
      if includes_str errorStr ''quota'' \<or> includes_str errorStr ''RESOURCE_EXHAUSTED''
      then SpeechResponse 429
             (ErrorBody ''API quota exceeded. Please check your Gemini API key at https://aistudio.google.com/app/apikey or wait a moment and try again.''
                (Some ''Quota limit reached''))
      else SpeechResponse 500 (ErrorBody ''Failed to process with AI'' (Some (error_details e))))"

definition systemContext :: string where
  "systemContext =
     ''You are a helpful AI assistant in a video call. \<newline>''
   @ ''Keep responses very brief and conversational (1-2 sentences max). \<newline>''
   @ ''Be friendly and helpful. Respond naturally as if speaking to someone.''"

text \<open>
  \<^verbatim>\<open>POST\<close> of the voice endpoint. \<open>GEMINI_API_KEY\<close> is the environment variable and
  \<open>req_json\<close> the outcome of \<^verbatim>\<open>const { text } = await req.json()\<close>: it throws, or binds
  \<^verbatim>\<open>text\<close> to a string or to \<^verbatim>\<open>undefined\<close>. \<open>speech_request\<close> is the object passed to
  \<^verbatim>\<open>generateContent\<close>.
\<close>

definition speech_request :: "string \<Rightarrow> generate_content_parameters" where
  \<open>speech_request txt =
     (let prompt = systemContext @ ''\<newline>\<newline>User said: "'' @ txt
                     @ ''"\<newline>\<newline>Your response:''
      in \<lparr>model = ''gemini-2.0-flash-exp'', contents = prompt,
          temperature_tenths = 9, maxOutputTokens = 150\<rparr>)\<close>

definition speech_POST ::
  "string option \<Rightarrow> generate_content \<Rightarrow> thrown + string option \<Rightarrow> speech_response" where
  "speech_POST GEMINI_API_KEY generateContent req_json =
     (if falsy GEMINI_API_KEY
      then SpeechResponse 500
             (ErrorBody ''AI service not configured. Please set GEMINI_API_KEY in environment variables.'' None)
      else
        (case req_json of
           Inl e \<Rightarrow> speech_catch e
         | Inr None \<Rightarrow> SpeechResponse 400 (ErrorBody ''No text provided'' None)
         | Inr (Some txt) \<Rightarrow>
             if txt = [] then SpeechResponse 400 (ErrorBody ''No text provided'' None)
             else
               (case generateContent (speech_request txt) of
                  Inl e \<Rightarrow> speech_catch e
                | Inr result_text \<Rightarrow>
                    SpeechResponse 200
                      (ReplyBody (or_else result_text ''Sorry, I couldn't process that.'')
                         True))))"

section \<open>The voice overlay (\<^verbatim>\<open>src/modules/call/ui/components/call-active.tsx\<close>)\<close>

text \<open>
  The number in a template string. Times are whole milliseconds (\<^verbatim>\<open>Date.now()\<close>), far
  below the size at which JavaScript leaves plain decimal notation.
\<close>

fun show_nat :: "nat \<Rightarrow> string" where
  "show_nat n =
     (if n < 10 then [''0123456789'' ! n]
      else show_nat (n div 10) @ [''0123456789'' ! (n mod 10)])"

declare show_nat.simps [simp del]

definition show_int :: "int \<Rightarrow> string" where
  "show_int i = (if i < 0 then ''-'' @ show_nat (nat (- i)) else show_nat (nat i))"

text \<open>
  \<^verbatim>\<open>Math.ceil(a / b)\<close> for whole \<open>a\<close> and positive whole \<open>b\<close>; the floating-point
  quotient of two such numbers below \<open>2^53\<close> lies on the same side of every whole number as
  the exact one.
\<close>

definition Math_ceil_div :: "int \<Rightarrow> int \<Rightarrow> int" where
  "Math_ceil_div a b = - ((- a) div b)"

definition MIN_REQUEST_INTERVAL :: int where
  "MIN_REQUEST_INTERVAL = 3000"

text \<open>
  What \<^verbatim>\<open>processWithFreeAI\<close> reads and writes: the ref \<^verbatim>\<open>lastRequestTime\<close>, the
  displayed \<^verbatim>\<open>aiResponse\<close>, the texts posted to the endpoint and the replies handed to
  speech synthesis, oldest first.
\<close>

record overlay =
  lastRequestTime :: int
  aiResponse :: string
  requests :: "string list"
  spoken :: "string list"

text \<open>
  The outcome of the \<^verbatim>\<open>fetch\<close> and of reading its body: something threw, the response
  was not \<^verbatim>\<open>ok\<close> (status, \<^verbatim>\<open>errorData.error\<close>, \<^verbatim>\<open>errorData.details\<close>), or it was
  (\<^verbatim>\<open>data.response\<close>).
\<close>

datatype fetch_result =
    FetchThrew
  | NotOk nat "string option" "string option"
  | Ok string

definition processWithFreeAI ::
  "(string \<Rightarrow> fetch_result) \<Rightarrow> bool \<Rightarrow> int \<Rightarrow> string \<Rightarrow> overlay \<Rightarrow> overlay" where
  "processWithFreeAI fetch_speech speechSynthesis now txt st =
     (let timeSinceLastRequest = now - lastRequestTime st in
      if timeSinceLastRequest < MIN_REQUEST_INTERVAL
      then
        (let waitTime = Math_ceil_div (MIN_REQUEST_INTERVAL - timeSinceLastRequest) 1000
         in st\<lparr>aiResponse := ''Please wait '' @ show_int waitTime @ '' seconds...''\<rparr>)
      else
        (let st1 = st\<lparr>lastRequestTime := now, requests := requests st @ [txt]\<rparr>
         in case fetch_speech txt of
              FetchThrew \<Rightarrow> st1\<lparr>aiResponse := ''Error: Failed to connect to AI service''\<rparr>
            | NotOk http_status err details \<Rightarrow>
                if http_status = 429 \<or> (case err of None \<Rightarrow> False | Some e \<Rightarrow> includes_str e ''quota'')
                then st1\<lparr>aiResponse :=
                       ''Quota limit reached. Please wait a moment before trying again.''\<rparr>
                else st1\<lparr>aiResponse :=
                       ''Error: '' @ or_else details (or_else err ''Failed to get AI response'')\<rparr>
            | Ok reply \<Rightarrow>
                (let st2 = st1\<lparr>aiResponse := reply\<rparr>
                 in if speechSynthesis then st2\<lparr>spoken := spoken st2 @ [reply]\<rparr> else st2)))"

section \<open>Vocabulary of the properties\<close>

text \<open>
  A request passes both early returns of the gate of \<^verbatim>\<open>POST\<close>: both headers are present
  and non-empty and the signature verifies over the raw body.
\<close>

definition authentic :: "(string \<Rightarrow> string \<Rightarrow> bool) \<Rightarrow> request \<Rightarrow> bool" where
  "authentic verifyWebhook req =
     (case x_signature req of
        None \<Rightarrow> False
      | Some sg \<Rightarrow> sg \<noteq> [] \<and> \<not> falsy (x_api_key req) \<and> verifyWebhook (body req) sg)"

text \<open>The row passes the guard of the \<^verbatim>\<open>call.session_started\<close> branch for the id \<open>mid\<close>.\<close>

definition startable :: "string \<Rightarrow> meeting \<Rightarrow> bool" where
  "startable mid m =
     (meeting_id m = mid \<and> status m \<notin> {completed, active, cancelled, processing})"

text \<open>A response with a 4xx status and an error body.\<close>

definition client_error :: "response \<Rightarrow> bool" where
  "client_error r = (400 \<le> code r \<and> code r < 500 \<and> json r \<noteq> StatusOk)"

text \<open>
  The path \<open>upcoming \<rightarrow> active \<rightarrow> processing \<rightarrow> completed\<close>; \<open>cancelled\<close> is not on it.
  \<open>forward a b\<close>: the status stays, or both are on the path and \<open>b\<close> comes later.
\<close>

fun path_position :: "meeting_status \<Rightarrow> nat option" where
  "path_position upcoming = Some 0"
| "path_position active = Some 1"
| "path_position processing = Some 2"
| "path_position completed = Some 3"
| "path_position cancelled = None"

definition forward :: "meeting_status \<Rightarrow> meeting_status \<Rightarrow> bool" where
  "forward a b =
     (a = b \<or> (case (path_position a, path_position b) of
                  (Some i, Some j) \<Rightarrow> i < j
                | _ \<Rightarrow> False))"

text \<open>
  \<open>ds\<close> is the decimal numeral of \<open>n\<close>: a non-empty string of the digits \<^verbatim>\<open>0\<close> to \<^verbatim>\<open>9\<close>
  with no leading zero (the numeral of zero is \<^verbatim>\<open>0\<close> itself), whose value in base ten,
  read from the left with each digit worth its character code less that of \<^verbatim>\<open>0\<close>
  (48), is \<open>n\<close>.
\<close>

definition decimal_value :: "string \<Rightarrow> nat" where
  "decimal_value ds = foldl (\<lambda>a c. 10 * a + (of_char c - 48)) 0 ds"

definition decimal_numeral :: "nat \<Rightarrow> string \<Rightarrow> bool" where
  "decimal_numeral n ds =
     (ds \<noteq> [] \<and> list_all (\<lambda>c. c \<in> set ''0123456789'') ds
      \<and> (hd ds = CHR ''0'' \<longrightarrow> ds = ''0'') \<and> decimal_value ds = n)"

section \<open>Sample data\<close>

definition accept_all :: "string \<Rightarrow> string \<Rightarrow> bool" where
  "accept_all b sg = True"

definition reject_all :: "string \<Rightarrow> string \<Rightarrow> bool" where
  "reject_all b sg = False"

definition parse_as :: "json \<Rightarrow> string \<Rightarrow> json option" where
  "parse_as p b = Some p"

definition strict_driver :: "json \<Rightarrow> sql_param" where
  "strict_driver j = Unbindable"

definition started_payload :: "string \<Rightarrow> json" where
  "started_payload mid =
     JObject [(''type'', JString ''call.session_started''),
              (''call'', JObject [(''custom'', JObject [(''meetingId'', JString mid)])])]"

definition ended_payload :: "string \<Rightarrow> json" where
  "ended_payload mid =
     JObject [(''type'', JString ''call.session_ended''),
              (''call'', JObject [(''custom'', JObject [(''meetingId'', JString mid)])])]"

definition transcription_payload :: "string \<Rightarrow> string \<Rightarrow> json" where
  "transcription_payload cid url =
     JObject [(''type'', JString ''call.transcription_ready''), (''call_cid'', JString cid),
              (''call_transcription'', JObject [(''url'', JString url)])]"

definition signed_request :: request where
  "signed_request = \<lparr>x_signature = Some ''sig'', x_api_key = Some ''key'', body = ''{}''\<rparr>"

definition unsigned_request :: request where
  "unsigned_request = \<lparr>x_signature = None, x_api_key = Some ''key'', body = ''{}''\<rparr>"

definition meeting_m1 :: "meeting_status \<Rightarrow> meeting" where
  "meeting_m1 st =
     \<lparr>meeting_id = ''m1'', status = st, agentId = ''a1'', transcriptUrl = None,
      recordingUrl = None, summary = None, startedAt = None, endedAt = None\<rparr>"

definition agent_a1 :: agent where
  "agent_a1 = \<lparr>agent_id = ''a1'', agent_name = ''Ada'', instructions = ''Be brief''\<rparr>"

definition user_u1 :: user where
  "user_u1 = \<lparr>user_id = ''u1'', user_name = ''Sam''\<rparr>"

definition store :: "meeting_status \<Rightarrow> state" where
  "store st =
     \<lparr>meetings = [meeting_m1 st], agents = [agent_a1], users = [user_u1], sent = [],
      ended_calls = []\<rparr>"

definition store_without_agent :: state where
  "store_without_agent =
     \<lparr>meetings = [meeting_m1 upcoming], agents = [], users = [user_u1], sent = [],
      ended_calls = []\<rparr>"

definition transcript_event :: json where
  "transcript_event = transcription_payload ''default:m1'' ''https://x/t.jsonl''"

definition start_event :: json where
  "start_event = started_payload ''m1''"

definition job_m1 :: inngest_event where
  "job_m1 =
     \<lparr>name = ''meetings/processing'', data_meetingId = ''m1'',
      data_transcriptUrl = Some ''https://x/t.jsonl''\<rparr>"

definition sample_transcript :: "string transcript_item list" where
  "sample_transcript =
     [\<lparr>speaker_id = ''u1'', utterance = ''Hello''\<rparr>,
      \<lparr>speaker_id = ''a1'', utterance = ''Hi, Sam''\<rparr>,
      \<lparr>speaker_id = ''zz'', utterance = ''Bye''\<rparr>]"

definition fetch_sample :: "string option \<Rightarrow> string option" where
  "fetch_sample url = Some ''three lines''"

definition parse_sample :: "string \<Rightarrow> string transcript_item list option" where
  "parse_sample raw = Some sample_transcript"

definition stringify_sample :: "string annotated_item list \<Rightarrow> string" where
  "stringify_sample xs = concat (map user_name_of_item xs)"

definition generate_text :: generate_content where
  "generate_text q = Inr (Some ''### Overview'')"

definition generate_empty :: generate_content where
  "generate_empty q = Inr None"

definition generate_throws :: generate_content where
  "generate_throws q = Inl (ErrorObject ''Error'' ''503 overloaded'')"

definition overlay_after_request :: overlay where
  "overlay_after_request =
     \<lparr>lastRequestTime = 5000, aiResponse = ''Hello'', requests = [''how are you today''],
      spoken = [''Hello'']\<rparr>"

definition fetch_speech_sample :: "string \<Rightarrow> fetch_result" where
  "fetch_speech_sample txt = Ok ''Fine, thanks''"

definition unknown_transcript_event :: json where
  "unknown_transcript_event = transcription_payload ''default:m2'' ''https://x/t.jsonl''"

definition unknown_start_event :: json where
  "unknown_start_event = started_payload ''m2''"

definition unknown_end_event :: json where
  "unknown_end_event = ended_payload ''m2''"

definition bare_start_event :: json where
  "bare_start_event = JObject [(''type'', JString ''call.session_started'')]"

section \<open>Auxiliary facts\<close>

subsection \<open>Queries\<close>

lemma first_row_eq_None: "first_row rows = None \<longleftrightarrow> rows = []"
  by (simp add: first_row_def split: list.splits)

lemma first_row_Some_mem: "first_row rows = Some r \<Longrightarrow> r \<in> set rows"
  by (cases rows) (simp_all add: first_row_def)

lemma first_row_select_find: "first_row (select_where p rows) = find p rows"
  by (induction rows) (simp_all add: first_row_def select_where_def)

lemma find_first: "find P xs = Some x \<Longrightarrow> x \<in> set xs \<and> P x"
  by (induction xs) (auto split: if_splits)

lemma find_none: "find P xs = None \<longleftrightarrow> (\<forall>x\<in>set xs. \<not> P x)"
  by (induction xs) auto

lemma update_where_none: "\<forall>r\<in>set rows. \<not> p r \<Longrightarrow> update_where p f rows = rows"
  by (induction rows) (simp_all add: update_where_def)

lemma update_where_mem:
  "r \<in> set (update_where p f rows) \<longleftrightarrow> (\<exists>r0\<in>set rows. r = (if p r0 then f r0 else r0))"
  unfolding update_where_def set_map image_iff ..

lemma update_where_related:
  "(\<And>r. r \<in> set rows \<Longrightarrow> R r (if p r then f r else r))
     \<Longrightarrow> list_all2 R rows (update_where p f rows)"
  by (simp add: update_where_def list_all2_map2 list_all2_same)

lemma returning_empty: "returning p f rows = [] \<longleftrightarrow> (\<forall>r\<in>set rows. \<not> p r)"
  by (simp add: returning_def filter_empty_conv)

lemma first_row_returning_Some:
  assumes "first_row (returning p f rows) = Some u"
  shows "\<exists>r\<in>set rows. p r \<and> u = f r"
proof -
  from first_row_Some_mem [OF assms] have "u \<in> f ` set (filter p rows)"
    by (simp add: returning_def)
  then show ?thesis by auto
qed

lemma first_row_select_None:
  "first_row (select_where p rows) = None \<longleftrightarrow> (\<forall>r\<in>set rows. \<not> p r)"
  by (simp add: first_row_eq_None select_where_def filter_empty_conv)

lemma first_row_select_Some:
  "first_row (select_where p rows) = Some r \<Longrightarrow> r \<in> set rows \<and> p r"
  by (drule first_row_Some_mem) (simp add: select_where_def)

subsection \<open>The gate\<close>

lemma POST_authentic:
  assumes "authentic verifyWebhook req" "parse (body req) = Some p"
  shows "POST verifyWebhook parse driver now req s =
     (answer (fst (dispatch driver now p s)), snd (dispatch driver now p s))"
proof -
  from assms(1) obtain sg where "x_signature req = Some sg" "sg \<noteq> []"
    "\<not> falsy (x_api_key req)" "verifyWebhook (body req) sg"
    by (cases "x_signature req") (simp_all add: authentic_def)
  with assms(2) show ?thesis by (simp add: POST_def falsy_def split: prod.splits)
qed

lemma POST_rejected:
  assumes "\<not> authentic verifyWebhook req \<or> parse (body req) = None"
  shows "snd (POST verifyWebhook parse driver now req s) = s"
proof (cases "x_signature req")
  case None
  then show ?thesis by (simp add: POST_def falsy_def)
next
  case (Some sg)
  with assms show ?thesis
    by (cases "parse (body req)") (auto simp: POST_def falsy_def authentic_def)
qed

lemma POST_changed:
  assumes "snd (POST verifyWebhook parse driver now req s) \<noteq> s"
  shows "authentic verifyWebhook req \<and> (\<exists>p. parse (body req) = Some p)"
proof (rule ccontr)
  assume "\<not> (authentic verifyWebhook req \<and> (\<exists>p. parse (body req) = Some p))"
  then have "\<not> authentic verifyWebhook req \<or> parse (body req) = None" by auto
  from POST_rejected [where parse = parse and req = req, OF this] assms show False by simp
qed

lemma POST_snd:
  assumes "authentic verifyWebhook req" "parse (body req) = Some p"
  shows "snd (POST verifyWebhook parse driver now req s) = snd (dispatch driver now p s)"
  unfolding POST_authentic [where parse = parse and req = req, OF assms] by simp

lemma POST_fst:
  assumes "authentic verifyWebhook req" "parse (body req) = Some p"
  shows "fst (POST verifyWebhook parse driver now req s) = answer (fst (dispatch driver now p s))"
  unfolding POST_authentic [where parse = parse and req = req, OF assms] by simp

lemma authentic_signed: "authentic accept_all signed_request"
  by (simp add: authentic_def signed_request_def accept_all_def falsy_def)

subsection \<open>The kinds of event\<close>

lemma dispatch_session_started:
  "payload_type p = Some (JString ''call.session_started'')
     \<Longrightarrow> dispatch driver now p s = session_started driver now p s"
  by (simp add: dispatch_def)

lemma dispatch_session_participant_left:
  "payload_type p = Some (JString ''call.session_participant_left'')
     \<Longrightarrow> dispatch driver now p s = session_participant_left p s"
  by (simp add: dispatch_def)

lemma dispatch_session_ended:
  "payload_type p = Some (JString ''call.session_ended'')
     \<Longrightarrow> dispatch driver now p s = session_ended driver now p s"
  by (simp add: dispatch_def)

lemma dispatch_transcription_ready:
  "payload_type p = Some (JString ''call.transcription_ready'')
     \<Longrightarrow> dispatch driver now p s = transcription_ready driver p s"
  by (simp add: dispatch_def)

lemma dispatch_recording_ready:
  "payload_type p = Some (JString ''call.recording_ready'')
     \<Longrightarrow> dispatch driver now p s = recording_ready driver p s"
  by (simp add: dispatch_def)

lemma dispatch_unhandled:
  assumes "payload_type p \<noteq> Some (JString ''call.session_started'')"
    "payload_type p \<noteq> Some (JString ''call.session_participant_left'')"
    "payload_type p \<noteq> Some (JString ''call.session_ended'')"
    "payload_type p \<noteq> Some (JString ''call.transcription_ready'')"
    "payload_type p \<noteq> Some (JString ''call.recording_ready'')"
  shows "dispatch driver now p s = (Continues, s)"
  using assms by (simp add: dispatch_def)

lemma dispatch_cases:
  "dispatch driver now p s = session_started driver now p s
   \<or> dispatch driver now p s = session_participant_left p s
   \<or> dispatch driver now p s = session_ended driver now p s
   \<or> dispatch driver now p s = transcription_ready driver p s
   \<or> dispatch driver now p s = recording_ready driver p s
   \<or> dispatch driver now p s = (Continues, s)"
  by (simp add: dispatch_def Let_def)

subsection \<open>Starting and ending a meeting\<close>

lemma guard_startable:
  "(\<lambda>m. eq_id (meeting_id m) (Some mid) \<and> status m \<noteq> completed \<and> status m \<noteq> active
        \<and> status m \<noteq> cancelled \<and> status m \<noteq> processing) = startable mid"
  by (rule ext) (simp add: startable_def eq_id_def)

lemma start_meeting_null:
  "start_meeting now None s = (Returns (Response 404 (Error ''Meeting not found'')), s)"
proof -
  have "first_row (select_where
          (\<lambda>m. eq_id (meeting_id m) None \<and> status m \<noteq> completed \<and> status m \<noteq> active
              \<and> status m \<noteq> cancelled \<and> status m \<noteq> processing) (meetings s)) = None"
    unfolding first_row_select_None by (simp add: eq_id_def)
  then show ?thesis by (simp add: start_meeting_def)
qed

lemma start_meeting_not_found:
  assumes "find (startable mid) (meetings s) = None"
  shows "start_meeting now (Some mid) s = (Returns (Response 404 (Error ''Meeting not found'')), s)"
  using assms unfolding start_meeting_def guard_startable first_row_select_find by simp

lemma start_meeting_found:
  assumes "find (startable mid) (meetings s) = Some m"
  shows "start_meeting now (Some mid) s =
     (if agentId m \<in> agent_id ` set (agents s) then Continues
      else Returns (Response 404 (Error ''Agent not found'')),
      s\<lparr>meetings := update_where (\<lambda>r. meeting_id r = mid)
           (\<lambda>r. r\<lparr>status := active, startedAt := Some now\<rparr>) (meetings s)\<rparr>)"
proof -
  from find_first [OF assms] have id: "meeting_id m = mid" by (simp add: startable_def)
  let ?a = "find (\<lambda>a. agent_id a = agentId m) (agents s)"
  have none: "?a = None \<longleftrightarrow> agentId m \<notin> agent_id ` set (agents s)"
    unfolding find_none image_iff by metis
  show ?thesis
  proof (cases ?a)
    case None
    with none assms id show ?thesis
      unfolding start_meeting_def guard_startable first_row_select_find by simp
  next
    case (Some a)
    with none have "agentId m \<in> agent_id ` set (agents s)" by simp
    with Some assms id show ?thesis
      unfolding start_meeting_def guard_startable first_row_select_find by simp
  qed
qed

lemma start_meeting_snd:
  "snd (start_meeting now (Some mid) s) =
     (if \<exists>m\<in>set (meetings s). startable mid m
      then s\<lparr>meetings := update_where (\<lambda>r. meeting_id r = mid)
             (\<lambda>r. r\<lparr>status := active, startedAt := Some now\<rparr>) (meetings s)\<rparr>
      else s)"
proof (cases "find (startable mid) (meetings s)")
  case None
  then have "\<not> (\<exists>m\<in>set (meetings s). startable mid m)" unfolding find_none by simp
  with start_meeting_not_found [OF None, of now] show ?thesis by simp
next
  case (Some m)
  from find_first [OF Some] have "\<exists>m\<in>set (meetings s). startable mid m" by blast
  with start_meeting_found [OF Some, of now] show ?thesis by simp
qed

lemma started_not_startable:
  assumes "m' \<in> set (update_where (\<lambda>m. meeting_id m = mid)
             (\<lambda>m. m\<lparr>status := active, startedAt := Some now\<rparr>) rows)"
  shows "\<not> startable mid m'"
proof -
  from assms obtain r0 where
    r0: "m' = (if meeting_id r0 = mid then r0\<lparr>status := active, startedAt := Some now\<rparr> else r0)"
    unfolding update_where_mem by blast
  then show ?thesis by (cases "meeting_id r0 = mid") (simp_all add: startable_def)
qed

subsection \<open>The transcript URL\<close>

lemma store_transcript_cases:
  "(\<exists>mid. i = Some mid \<and> mid \<in> meeting_id ` set (meetings s))
   \<or> (\<forall>m\<in>set (meetings s). \<not> eq_id (meeting_id m) i)"
  by (cases i) (auto simp: eq_id_def)

lemma store_transcript_found:
  assumes "mid \<in> meeting_id ` set (meetings s)"
  shows "store_transcript (Some mid) u s =
     (Continues,
      s\<lparr>meetings := update_where (\<lambda>m. meeting_id m = mid)
                   (\<lambda>m. m\<lparr>transcriptUrl := u\<rparr>) (meetings s),
        sent := sent s @ [\<lparr>name = ''meetings/processing'', data_meetingId = mid,
                           data_transcriptUrl = u\<rparr>]\<rparr>)"
proof -
  let ?p = "\<lambda>m. meeting_id m = mid" and ?f = "\<lambda>m. m\<lparr>transcriptUrl := u\<rparr>"
  from assms have "returning ?p ?f (meetings s) \<noteq> []"
    unfolding returning_empty by blast
  then obtain r where r: "first_row (returning ?p ?f (meetings s)) = Some r"
    by (cases "returning ?p ?f (meetings s)") (simp_all add: first_row_def)
  from first_row_returning_Some [OF r] have "meeting_id r = mid" "transcriptUrl r = u"
    by auto
  with r show ?thesis
    by (simp add: store_transcript_def eq_id_def)
qed

lemma store_transcript_missing:
  assumes "\<forall>m\<in>set (meetings s). \<not> eq_id (meeting_id m) i"
  shows "store_transcript i u s = (Returns (Response 400 (Error ''Meeting not found '')), s)"
proof -
  let ?p = "\<lambda>m. eq_id (meeting_id m) i"
  let ?f = "\<lambda>m. m\<lparr>transcriptUrl := u\<rparr>"
  from assms have "returning ?p ?f (meetings s) = []" by (simp add: returning_empty)
  moreover from assms have "update_where ?p ?f (meetings s) = meetings s"
    by (rule update_where_none)
  ultimately show ?thesis
    by (simp add: store_transcript_def first_row_def)
qed

lemma store_transcript_sent:
  assumes "sent (snd (store_transcript i u s)) \<noteq> sent s"
  shows "\<exists>mid. i = Some mid \<and> mid \<in> meeting_id ` set (meetings s)"
proof (rule ccontr)
  assume "\<not> (\<exists>mid. i = Some mid \<and> mid \<in> meeting_id ` set (meetings s))"
  with store_transcript_cases [of i s]
  have "\<forall>m\<in>set (meetings s). \<not> eq_id (meeting_id m) i" by blast
  from store_transcript_missing [OF this, of u] assms show False by simp
qed

subsection \<open>Messages to the job runner\<close>

lemma start_meeting_sent: "sent (snd (start_meeting now i s)) = sent s"
  by (simp add: start_meeting_def Let_def split: option.splits)

lemma session_started_sent: "sent (snd (session_started driver now p s)) = sent s"
  by (simp add: session_started_def start_meeting_sent split: option.splits sql_param.splits)

lemma session_participant_left_sent: "sent (snd (session_participant_left p s)) = sent s"
  by (simp add: session_participant_left_def split: option.splits)

lemma session_ended_sent: "sent (snd (session_ended driver now p s)) = sent s"
  by (simp add: session_ended_def end_meeting_def split: option.splits sql_param.splits)

lemma recording_ready_sent: "sent (snd (recording_ready driver p s)) = sent s"
  by (simp add: recording_ready_def store_recording_def split: option.splits sql_param.splits)

lemma transcription_ready_sent:
  assumes "sent (snd (transcription_ready driver p s)) \<noteq> sent s"
  shows "\<exists>mid. call_cid_meetingId p = Some (Some mid) \<and> mid \<in> meeting_id ` set (meetings s)"
proof -
  from assms obtain i u where i: "call_cid_meetingId p = Some i"
    and "sent (snd (store_transcript i u s)) \<noteq> sent s"
    by (auto simp: transcription_ready_def split: option.splits sql_param.splits)
  from store_transcript_sent [OF this(2)] i show ?thesis by blast
qed

lemma dispatch_sent:
  assumes "sent (snd (dispatch driver now p s)) \<noteq> sent s"
  shows "payload_type p = Some (JString ''call.transcription_ready'')
       \<and> sent (snd (transcription_ready driver p s)) \<noteq> sent s"
  using assms
  by (simp add: dispatch_def Let_def session_started_sent session_participant_left_sent
      session_ended_sent recording_ready_sent split: if_splits)

subsection \<open>Sample deliveries\<close>

lemma parse_as_body: "parse_as p (body req) = Some p"
  by (simp add: parse_as_def)

lemma transcript_event_reads:
  "payload_type (transcription_payload cid url) = Some (JString ''call.transcription_ready'')"
  "call_cid_meetingId (transcription_payload cid url) = Some (index (split CHR '':'' cid) 1)"
  "nested_url ''call_transcription'' (transcription_payload cid url) = Some (Some (JString url))"
  by (simp_all add: transcription_payload_def payload_type_def optional_property_def
      call_cid_meetingId_def nested_url_def)

lemma started_payload_reads:
  "payload_type (started_payload mid) = Some (JString ''call.session_started'')"
  "call_custom_meetingId (started_payload mid) = Some (Some (JString mid))"
  by (simp_all add: started_payload_def payload_type_def optional_property_def
      call_custom_meetingId_def)

lemma ended_payload_reads:
  "payload_type (ended_payload mid) = Some (JString ''call.session_ended'')"
  "call_custom_meetingId (ended_payload mid) = Some (Some (JString mid))"
  by (simp_all add: ended_payload_def payload_type_def optional_property_def
      call_custom_meetingId_def)

lemma bare_start_event_reads:
  "payload_type bare_start_event = Some (JString ''call.session_started'')"
  "call_custom_meetingId bare_start_event = None"
  by (simp_all add: bare_start_event_def payload_type_def optional_property_def
      call_custom_meetingId_def)

lemma where_param_string: "where_param driver (Some (JString x)) = SqlText x"
  by (simp add: where_param_def sql_param_of_def)

subsection \<open>The leaves of the branches\<close>

lemma session_started_text:
  assumes "call_custom_meetingId p = Some v" "\<not> falsy_js v" "where_param driver v = SqlText mid"
  shows "session_started driver now p s = start_meeting now (Some mid) s"
  using assms by (simp add: session_started_def)

lemma session_started_leaves:
  "call_custom_meetingId p = None \<Longrightarrow> session_started driver now p s = (Throws, s)"
  "call_custom_meetingId p = Some v \<Longrightarrow> falsy_js v \<Longrightarrow>
     session_started driver now p s = (Returns (Response 400 (Error ''Missing meetingId'')), s)"
  "call_custom_meetingId p = Some v \<Longrightarrow> \<not> falsy_js v \<Longrightarrow> where_param driver v = Unbindable \<Longrightarrow>
     session_started driver now p s = (Throws, s)"
  "call_custom_meetingId p = Some v \<Longrightarrow> \<not> falsy_js v \<Longrightarrow> where_param driver v = SqlNull \<Longrightarrow>
     session_started driver now p s = (Returns (Response 404 (Error ''Meeting not found'')), s)"
  by (simp_all add: session_started_def start_meeting_null)

lemma session_ended_leaves:
  "call_custom_meetingId p = None \<Longrightarrow> session_ended driver now p s = (Throws, s)"
  "call_custom_meetingId p = Some v \<Longrightarrow> falsy_js v \<Longrightarrow>
     session_ended driver now p s = (Returns (Response 400 (Error ''Missing meetingId'')), s)"
  "call_custom_meetingId p = Some v \<Longrightarrow> \<not> falsy_js v \<Longrightarrow> where_param driver v = Unbindable \<Longrightarrow>
     session_ended driver now p s = (Throws, s)"
  "call_custom_meetingId p = Some v \<Longrightarrow> \<not> falsy_js v \<Longrightarrow> where_param driver v \<noteq> Unbindable \<Longrightarrow>
     fst (session_ended driver now p s) = Continues"
  by (simp_all add: session_ended_def end_meeting_def split: sql_param.splits)

lemma session_participant_left_leaves:
  "call_cid_meetingId p = None \<Longrightarrow> session_participant_left p s = (Throws, s)"
  "call_cid_meetingId p = Some w \<Longrightarrow> falsy w \<Longrightarrow>
     session_participant_left p s = (Returns (Response 400 (Error ''Missing meetingId '')), s)"
  "call_cid_meetingId p = Some w \<Longrightarrow> \<not> falsy w \<Longrightarrow>
     fst (session_participant_left p s) = Continues"
  by (simp_all add: session_participant_left_def falsy_def split: option.splits)

lemma store_transcript_matched:
  assumes "\<exists>m\<in>set (meetings s). eq_id (meeting_id m) i"
  shows "fst (store_transcript i u s) = Continues"
proof -
  from assms obtain mid where "i = Some mid" "mid \<in> meeting_id ` set (meetings s)"
    by (cases i) (auto simp: eq_id_def)
  with store_transcript_found [of mid s u] show ?thesis by simp
qed

lemma transcription_ready_throws:
  assumes "call_cid_meetingId p = None \<or> nested_url ''call_transcription'' p = None
     \<or> nested_url ''call_transcription'' p = Some None
     \<or> nested_url ''call_transcription'' p = Some (Some j) \<and> sql_param_of driver j = Unbindable"
  shows "transcription_ready driver p s = (Throws, s)"
  using assms by (auto simp: transcription_ready_def split: option.splits)

lemma transcription_ready_bound:
  assumes "call_cid_meetingId p = Some w" "nested_url ''call_transcription'' p = Some (Some j)"
    "sql_param_of driver j \<noteq> Unbindable"
  shows "\<exists>u. transcription_ready driver p s = store_transcript w u s"
  using assms by (cases "sql_param_of driver j") (auto simp: transcription_ready_def)

lemma transcription_ready_leaves:
  assumes "call_cid_meetingId p = Some w" "nested_url ''call_transcription'' p = Some (Some j)"
    "sql_param_of driver j \<noteq> Unbindable"
  shows "\<forall>m\<in>set (meetings s). \<not> eq_id (meeting_id m) w \<Longrightarrow>
           transcription_ready driver p s =
             (Returns (Response 400 (Error ''Meeting not found '')), s)"
    and "\<exists>m\<in>set (meetings s). eq_id (meeting_id m) w \<Longrightarrow>
           fst (transcription_ready driver p s) = Continues"
proof -
  from transcription_ready_bound [OF assms, of s]
  obtain u where u: "transcription_ready driver p s = store_transcript w u s" ..
  show "\<forall>m\<in>set (meetings s). \<not> eq_id (meeting_id m) w \<Longrightarrow>
           transcription_ready driver p s =
             (Returns (Response 400 (Error ''Meeting not found '')), s)"
    unfolding u by (rule store_transcript_missing)
  show "\<exists>m\<in>set (meetings s). eq_id (meeting_id m) w \<Longrightarrow>
           fst (transcription_ready driver p s) = Continues"
    unfolding u by (rule store_transcript_matched)
qed

lemma recording_ready_throws:
  assumes "call_cid_meetingId p = None \<or> nested_url ''call_recording'' p = None
     \<or> nested_url ''call_recording'' p = Some None
     \<or> nested_url ''call_recording'' p = Some (Some j) \<and> sql_param_of driver j = Unbindable"
  shows "recording_ready driver p s = (Throws, s)"
  using assms by (auto simp: recording_ready_def split: option.splits)

lemma recording_ready_bound:
  assumes "call_cid_meetingId p = Some w" "nested_url ''call_recording'' p = Some (Some j)"
    "sql_param_of driver j \<noteq> Unbindable"
  shows "fst (recording_ready driver p s) = Continues"
  using assms
  by (cases "sql_param_of driver j") (simp_all add: recording_ready_def store_recording_def)

subsection \<open>What a branch can answer\<close>

lemma client_error_samples:
  "client_error (Response 400 (Error e))" "client_error (Response 404 (Error e))"
  "\<not> client_error (Response 200 StatusOk)"
  by (simp_all add: client_error_def)

lemma session_started_outcome:
  "fst (session_started driver now p s) = Continues
   \<or> session_started driver now p s = (Throws, s)
   \<or> (fst (session_started driver now p s) \<in>
         {Returns (Response 400 (Error ''Missing meetingId'')),
          Returns (Response 404 (Error ''Meeting not found''))}
       \<and> snd (session_started driver now p s) = s)
   \<or> (\<exists>v mid m. call_custom_meetingId p = Some v \<and> \<not> falsy_js v
        \<and> where_param driver v = SqlText mid
        \<and> find (startable mid) (meetings s) = Some m
        \<and> agentId m \<notin> agent_id ` set (agents s)
        \<and> session_started driver now p s =
            (Returns (Response 404 (Error ''Agent not found'')),
             s\<lparr>meetings := update_where (\<lambda>m. meeting_id m = mid)
                  (\<lambda>m. m\<lparr>status := active, startedAt := Some now\<rparr>) (meetings s)\<rparr>))"
proof (cases "call_custom_meetingId p")
  case None
  from session_started_leaves(1) [OF this] show ?thesis by simp
next
  case (Some v)
  show ?thesis
  proof (cases "falsy_js v")
    case True
    from session_started_leaves(2) [OF Some this, of driver now s] show ?thesis by simp
  next
    case False
    show ?thesis
    proof (cases "where_param driver v")
      case Unbindable
      from session_started_leaves(3) [OF Some False this] show ?thesis by simp
    next
      case SqlNull
      from session_started_leaves(4) [OF Some False this, of now s] show ?thesis by simp
    next
      case (SqlText mid)
      note d = session_started_text [OF Some False SqlText]
      show ?thesis
      proof (cases "find (startable mid) (meetings s)")
        case None
        from start_meeting_not_found [OF this, of now] show ?thesis unfolding d by simp
      next
        case found: (Some m)
        show ?thesis
        proof (cases "agentId m \<in> agent_id ` set (agents s)")
          case True
          with start_meeting_found [OF found, of now] show ?thesis unfolding d by simp
        next
          case no_agent: False
          with start_meeting_found [OF found, of now]
          have "session_started driver now p s =
            (Returns (Response 404 (Error ''Agent not found'')),
             s\<lparr>meetings := update_where (\<lambda>m. meeting_id m = mid)
                  (\<lambda>m. m\<lparr>status := active, startedAt := Some now\<rparr>) (meetings s)\<rparr>)"
            unfolding d by simp
          with Some False SqlText found no_agent show ?thesis by blast
        qed
      qed
    qed
  qed
qed

lemma session_participant_left_outcome:
  "fst (session_participant_left p s) = Continues
   \<or> session_participant_left p s = (Throws, s)
   \<or> session_participant_left p s = (Returns (Response 400 (Error ''Missing meetingId '')), s)"
  by (simp add: session_participant_left_def split: option.splits)

lemma session_ended_outcome:
  "fst (session_ended driver now p s) = Continues
   \<or> session_ended driver now p s = (Throws, s)
   \<or> session_ended driver now p s = (Returns (Response 400 (Error ''Missing meetingId'')), s)"
  by (simp add: session_ended_def end_meeting_def split: option.splits sql_param.splits)

lemma store_transcript_outcome:
  "fst (store_transcript i u s) = Continues
   \<or> store_transcript i u s = (Returns (Response 400 (Error ''Meeting not found '')), s)"
proof (cases "\<exists>m\<in>set (meetings s). eq_id (meeting_id m) i")
  case True
  from store_transcript_matched [OF this] show ?thesis by simp
next
  case False
  then have "\<forall>m\<in>set (meetings s). \<not> eq_id (meeting_id m) i" by blast
  from store_transcript_missing [OF this] show ?thesis by simp
qed

lemma transcription_ready_outcome:
  "fst (transcription_ready driver p s) = Continues
   \<or> transcription_ready driver p s = (Throws, s)
   \<or> transcription_ready driver p s = (Returns (Response 400 (Error ''Meeting not found '')), s)"
proof -
  have "transcription_ready driver p s = (Throws, s)
      \<or> (\<exists>i u. transcription_ready driver p s = store_transcript i u s)"
    by (auto simp: transcription_ready_def split: option.splits sql_param.splits)
  with store_transcript_outcome show ?thesis by metis
qed

lemma recording_ready_outcome:
  "fst (recording_ready driver p s) = Continues \<or> recording_ready driver p s = (Throws, s)"
  by (simp add: recording_ready_def store_recording_def split: option.splits sql_param.splits)

lemma dispatch_outcome:
  "fst (dispatch driver now p s) = Continues
   \<or> dispatch driver now p s = (Throws, s)
   \<or> (fst (dispatch driver now p s) \<in>
         {Returns (Response 400 (Error ''Missing meetingId'')),
          Returns (Response 400 (Error ''Missing meetingId '')),
          Returns (Response 404 (Error ''Meeting not found'')),
          Returns (Response 400 (Error ''Meeting not found ''))}
       \<and> snd (dispatch driver now p s) = s)
   \<or> (\<exists>v mid m. payload_type p = Some (JString ''call.session_started'')
        \<and> call_custom_meetingId p = Some v \<and> \<not> falsy_js v
        \<and> where_param driver v = SqlText mid
        \<and> find (startable mid) (meetings s) = Some m
        \<and> agentId m \<notin> agent_id ` set (agents s)
        \<and> dispatch driver now p s =
            (Returns (Response 404 (Error ''Agent not found'')),
             s\<lparr>meetings := update_where (\<lambda>m. meeting_id m = mid)
                  (\<lambda>m. m\<lparr>status := active, startedAt := Some now\<rparr>) (meetings s)\<rparr>))"
proof (cases "payload_type p = Some (JString ''call.session_started'')")
  case True
  note d = dispatch_session_started [OF True]
  from session_started_outcome [of driver now p s] True show ?thesis
    unfolding d by blast
next
  case False
  then have "dispatch driver now p s = session_participant_left p s
   \<or> dispatch driver now p s = session_ended driver now p s
   \<or> dispatch driver now p s = transcription_ready driver p s
   \<or> dispatch driver now p s = recording_ready driver p s
   \<or> dispatch driver now p s = (Continues, s)"
    by (simp add: dispatch_def Let_def)
  then show ?thesis
  proof (elim disjE)
    assume d: "dispatch driver now p s = session_participant_left p s"
    from session_participant_left_outcome [of p s] show ?thesis unfolding d by auto
  next
    assume d: "dispatch driver now p s = session_ended driver now p s"
    from session_ended_outcome [of driver now p s] show ?thesis unfolding d by auto
  next
    assume d: "dispatch driver now p s = transcription_ready driver p s"
    from transcription_ready_outcome [of driver p s] show ?thesis unfolding d by auto
  next
    assume d: "dispatch driver now p s = recording_ready driver p s"
    from recording_ready_outcome [of driver p s] show ?thesis unfolding d by auto
  next
    assume d: "dispatch driver now p s = (Continues, s)"
    show ?thesis unfolding d by simp
  qed
qed

subsection \<open>Where a branch returns early\<close>

lemma session_started_returns:
  assumes "fst (session_started driver now p s) = Returns r"
  shows "(\<exists>v. call_custom_meetingId p = Some v \<and> falsy_js v)
       \<or> (\<exists>v. call_custom_meetingId p = Some v \<and> \<not> falsy_js v
             \<and> (where_param driver v = SqlNull
                  \<or> (\<exists>mid. where_param driver v = SqlText mid
                        \<and> (\<forall>m\<in>set (meetings s). \<not> startable mid m))))
       \<or> (\<exists>v mid m. call_custom_meetingId p = Some v \<and> \<not> falsy_js v
             \<and> where_param driver v = SqlText mid
             \<and> find (startable mid) (meetings s) = Some m
             \<and> agentId m \<notin> agent_id ` set (agents s))"
proof (cases "call_custom_meetingId p")
  case None
  from session_started_leaves(1) [OF this, of driver now s] assms show ?thesis by simp
next
  case (Some v)
  show ?thesis
  proof (cases "falsy_js v")
    case True
    with Some show ?thesis by blast
  next
    case False
    show ?thesis
    proof (cases "where_param driver v")
      case Unbindable
      from session_started_leaves(3) [OF Some False this, of now s] assms show ?thesis by simp
    next
      case SqlNull
      with Some False show ?thesis by blast
    next
      case (SqlText mid)
      note d = session_started_text [OF Some False SqlText]
      show ?thesis
      proof (cases "find (startable mid) (meetings s)")
        case None
        then have "\<forall>m\<in>set (meetings s). \<not> startable mid m" unfolding find_none .
        with Some False SqlText show ?thesis by blast
      next
        case found: (Some m)
        show ?thesis
        proof (cases "agentId m \<in> agent_id ` set (agents s)")
          case True
          with start_meeting_found [OF found, of now] assms show ?thesis unfolding d by simp
        next
          case no_agent: False
          with Some False SqlText found show ?thesis by blast
        qed
      qed
    qed
  qed
qed

lemma session_ended_returns:
  assumes "fst (session_ended driver now p s) = Returns r"
  shows "\<exists>v. call_custom_meetingId p = Some v \<and> falsy_js v"
  using assms
  by (auto simp: session_ended_def end_meeting_def split: option.splits sql_param.splits if_splits)

lemma session_participant_left_returns:
  assumes "fst (session_participant_left p s) = Returns r"
  shows "\<exists>w. call_cid_meetingId p = Some w \<and> falsy w"
  using assms
  by (auto simp: session_participant_left_def falsy_def split: option.splits if_splits)

lemma transcription_ready_returns:
  assumes "fst (transcription_ready driver p s) = Returns r"
  shows "\<exists>w j. call_cid_meetingId p = Some w
           \<and> nested_url ''call_transcription'' p = Some (Some j)
           \<and> sql_param_of driver j \<noteq> Unbindable
           \<and> (\<forall>m\<in>set (meetings s). \<not> eq_id (meeting_id m) w)"
proof (cases "call_cid_meetingId p")
  case None
  with transcription_ready_throws [where p = p and driver = driver and s = s] assms show ?thesis by simp
next
  case (Some w)
  show ?thesis
  proof (cases "nested_url ''call_transcription'' p")
    case None
    with transcription_ready_throws [where p = p and driver = driver and s = s] assms show ?thesis by simp
  next
    case url: (Some u)
    show ?thesis
    proof (cases u)
      case None
      with url transcription_ready_throws [where p = p and driver = driver and s = s] assms show ?thesis by simp
    next
      case j: (Some j)
      show ?thesis
      proof (cases "sql_param_of driver j = Unbindable")
        case True
        with url j transcription_ready_throws [where p = p and driver = driver and s = s and j = j] assms show ?thesis by simp
      next
        case False
        note r = Some url [unfolded j] False
        show ?thesis
        proof (cases "\<exists>m\<in>set (meetings s). eq_id (meeting_id m) w")
          case True
          from transcription_ready_leaves(2) [OF r True] assms show ?thesis by simp
        next
          case False
          with r show ?thesis by blast
        qed
      qed
    qed
  qed
qed

lemma recording_ready_returns:
  "fst (recording_ready driver p s) \<noteq> Returns r"
  using recording_ready_outcome [of driver p s] by auto

lemma dispatch_returns:
  assumes "fst (dispatch driver now p s) = Returns r"
  shows "((payload_type p = Some (JString ''call.session_started'')
            \<or> payload_type p = Some (JString ''call.session_ended''))
          \<and> (\<exists>v. call_custom_meetingId p = Some v \<and> falsy_js v))
       \<or> (payload_type p = Some (JString ''call.session_participant_left'')
          \<and> (\<exists>w. call_cid_meetingId p = Some w \<and> falsy w))
       \<or> (payload_type p = Some (JString ''call.session_started'')
          \<and> (\<exists>v. call_custom_meetingId p = Some v \<and> \<not> falsy_js v
                \<and> (where_param driver v = SqlNull
                     \<or> (\<exists>mid. where_param driver v = SqlText mid
                           \<and> (\<forall>m\<in>set (meetings s). \<not> startable mid m)))))
       \<or> (payload_type p = Some (JString ''call.session_started'')
          \<and> (\<exists>v mid m. call_custom_meetingId p = Some v \<and> \<not> falsy_js v
                \<and> where_param driver v = SqlText mid
                \<and> find (startable mid) (meetings s) = Some m
                \<and> agentId m \<notin> agent_id ` set (agents s)))
       \<or> (payload_type p = Some (JString ''call.transcription_ready'')
          \<and> (\<exists>w j. call_cid_meetingId p = Some w
                \<and> nested_url ''call_transcription'' p = Some (Some j)
                \<and> sql_param_of driver j \<noteq> Unbindable
                \<and> (\<forall>m\<in>set (meetings s). \<not> eq_id (meeting_id m) w)))"
proof -
  consider (started) "payload_type p = Some (JString ''call.session_started'')"
    | (left) "payload_type p = Some (JString ''call.session_participant_left'')"
    | (ended) "payload_type p = Some (JString ''call.session_ended'')"
    | (transcription) "payload_type p = Some (JString ''call.transcription_ready'')"
    | (recording) "payload_type p = Some (JString ''call.recording_ready'')"
    | (other) "payload_type p \<noteq> Some (JString ''call.session_started'')"
        "payload_type p \<noteq> Some (JString ''call.session_participant_left'')"
        "payload_type p \<noteq> Some (JString ''call.session_ended'')"
        "payload_type p \<noteq> Some (JString ''call.transcription_ready'')"
        "payload_type p \<noteq> Some (JString ''call.recording_ready'')"
    by blast
  then show ?thesis
  proof cases
    case started
    from assms have "fst (session_started driver now p s) = Returns r"
      unfolding dispatch_session_started [OF started] .
    from session_started_returns [OF this] started show ?thesis by blast
  next
    case left
    from assms have "fst (session_participant_left p s) = Returns r"
      unfolding dispatch_session_participant_left [OF left] .
    from session_participant_left_returns [OF this] left show ?thesis by blast
  next
    case ended
    from assms have "fst (session_ended driver now p s) = Returns r"
      unfolding dispatch_session_ended [OF ended] .
    from session_ended_returns [OF this] ended show ?thesis by blast
  next
    case transcription
    from assms have "fst (transcription_ready driver p s) = Returns r"
      unfolding dispatch_transcription_ready [OF transcription] .
    from transcription_ready_returns [OF this] transcription show ?thesis by blast
  next
    case recording
    from assms have "fst (recording_ready driver p s) = Returns r"
      unfolding dispatch_recording_ready [OF recording] .
    with recording_ready_returns show ?thesis by blast
  next
    case other
    from dispatch_unhandled [OF other, of driver now s] assms show ?thesis by simp
  qed
qed

subsection \<open>Sample runs\<close>

lemma start_event_run:
  "POST accept_all (parse_as start_event) strict_driver t signed_request (store upcoming) =
     (Responds (Response 200 StatusOk),
      (store upcoming)\<lparr>meetings := [(meeting_m1 upcoming)\<lparr>status := active, startedAt := Some t\<rparr>]\<rparr>)"
proof -
  have "find (startable ''m1'') (meetings (store upcoming)) = Some (meeting_m1 upcoming)"
    by (simp add: store_def startable_def meeting_m1_def)
  from start_meeting_found [OF this, of t]
  have "start_meeting t (Some ''m1'') (store upcoming) =
     (Continues,
      (store upcoming)\<lparr>meetings := [(meeting_m1 upcoming)\<lparr>status := active, startedAt := Some t\<rparr>]\<rparr>)"
    by (simp add: store_def meeting_m1_def agent_a1_def update_where_def)
  then have "dispatch strict_driver t start_event (store upcoming) =
     (Continues,
      (store upcoming)\<lparr>meetings := [(meeting_m1 upcoming)\<lparr>status := active, startedAt := Some t\<rparr>]\<rparr>)"
    unfolding start_event_def dispatch_session_started [OF started_payload_reads(1)]
    by (simp add: session_started_text [OF started_payload_reads(2) _ where_param_string])
  then show ?thesis
    unfolding POST_authentic [where parse = "parse_as start_event" and req = signed_request,
        OF authentic_signed parse_as_body]
    by simp
qed

lemma start_without_agent:
  "POST accept_all (parse_as start_event) strict_driver 7 signed_request store_without_agent =
     (Responds (Response 404 (Error ''Agent not found'')),
      store_without_agent
        \<lparr>meetings := [(meeting_m1 upcoming)\<lparr>status := active, startedAt := Some 7\<rparr>]\<rparr>)"
proof -
  have "find (startable ''m1'') (meetings store_without_agent) = Some (meeting_m1 upcoming)"
    by (simp add: store_without_agent_def startable_def meeting_m1_def)
  from start_meeting_found [OF this, of 7]
  have "start_meeting 7 (Some ''m1'') store_without_agent =
     (Returns (Response 404 (Error ''Agent not found'')),
      store_without_agent
        \<lparr>meetings := [(meeting_m1 upcoming)\<lparr>status := active, startedAt := Some 7\<rparr>]\<rparr>)"
    by (simp add: store_without_agent_def meeting_m1_def update_where_def)
  then have "dispatch strict_driver 7 start_event store_without_agent =
     (Returns (Response 404 (Error ''Agent not found'')),
      store_without_agent
        \<lparr>meetings := [(meeting_m1 upcoming)\<lparr>status := active, startedAt := Some 7\<rparr>]\<rparr>)"
    unfolding start_event_def dispatch_session_started [OF started_payload_reads(1)]
    by (simp add: session_started_text [OF started_payload_reads(2) _ where_param_string])
  then show ?thesis
    unfolding POST_authentic [where parse = "parse_as start_event" and req = signed_request,
        OF authentic_signed parse_as_body]
    by simp
qed

lemma unknown_end_run:
  "POST accept_all (parse_as unknown_end_event) strict_driver 7 signed_request (store active)
       = (Responds (Response 200 StatusOk), store active)"
proof -
  have "end_meeting 7 (Some ''m2'') (store active) = (Continues, store active)"
    by (simp add: end_meeting_def update_where_def store_def meeting_m1_def eq_id_def)
  then have "dispatch strict_driver 7 unknown_end_event (store active)
      = (Continues, store active)"
    unfolding unknown_end_event_def dispatch_session_ended [OF ended_payload_reads(1)]
    by (simp add: session_ended_def ended_payload_reads(2) where_param_string)
  then show ?thesis
    unfolding POST_authentic [where parse = "parse_as unknown_end_event"
        and req = signed_request, OF authentic_signed parse_as_body]
    by simp
qed

subsection \<open>Direction of a status change\<close>

lemma forward_refl: "forward a a"
  by (simp add: forward_def)

lemma forward_steps: "forward upcoming active" "forward active processing"
  by (simp_all add: forward_def)

lemma outside_guard_upcoming:
  "a \<notin> {completed, active, cancelled, processing} \<longleftrightarrow> a = upcoming"
  by (cases a) simp_all

lemma unique_id:
  assumes "distinct (map meeting_id rows)" "m \<in> set rows" "r \<in> set rows"
    "meeting_id r = meeting_id m"
  shows "r = m"
  using assms by (meson distinct_map inj_on_def)

lemma unchanged_forward:
  "list_all2 (\<lambda>m m'. forward (status m) (status m')) (meetings s) (meetings s)"
  by (simp add: list_all2_same forward_refl)

lemma start_meeting_forward:
  assumes "distinct (map meeting_id (meetings s))"
  shows "list_all2 (\<lambda>m m'. forward (status m) (status m')) (meetings s)
           (meetings (snd (start_meeting now i s)))"
proof (cases i)
  case None
  show ?thesis unfolding None start_meeting_null by (simp add: unchanged_forward)
next
  case (Some mid)
  show ?thesis
  proof (cases "\<exists>m\<in>set (meetings s). startable mid m")
    case True
    then obtain m where m: "m \<in> set (meetings s)" "meeting_id m = mid" "status m = upcoming"
      unfolding startable_def outside_guard_upcoming by blast
    have "list_all2 (\<lambda>m m'. forward (status m) (status m')) (meetings s)
            (update_where (\<lambda>m. meeting_id m = mid)
               (\<lambda>m. m\<lparr>status := active, startedAt := Some now\<rparr>) (meetings s))"
    proof (rule update_where_related)
      fix r assume r: "r \<in> set (meetings s)"
      show "forward (status r)
         (status (if meeting_id r = mid then r\<lparr>status := active, startedAt := Some now\<rparr> else r))"
      proof (cases "meeting_id r = mid")
        case True
        with unique_id [OF assms m(1) r] m(2) have "r = m" by simp
        with True m(3) show ?thesis by (simp add: forward_steps)
      next
        case False
        then show ?thesis by (simp add: forward_refl)
      qed
    qed
    with True show ?thesis unfolding Some start_meeting_snd by simp
  next
    case False
    then show ?thesis unfolding Some start_meeting_snd by (simp add: unchanged_forward)
  qed
qed

lemma session_started_forward:
  assumes "distinct (map meeting_id (meetings s))"
  shows "list_all2 (\<lambda>m m'. forward (status m) (status m')) (meetings s)
           (meetings (snd (session_started driver now p s)))"
proof -
  have "snd (session_started driver now p s) = s
      \<or> (\<exists>i. session_started driver now p s = start_meeting now i s)"
    by (auto simp: session_started_def split: option.splits sql_param.splits)
  then show ?thesis
  proof (elim disjE exE)
    assume "snd (session_started driver now p s) = s"
    then show ?thesis by (simp add: unchanged_forward)
  next
    fix i assume "session_started driver now p s = start_meeting now i s"
    then show ?thesis by (simp add: start_meeting_forward [OF assms])
  qed
qed

lemma end_meeting_forward:
  "list_all2 (\<lambda>m m'. forward (status m) (status m')) (meetings s)
     (meetings (snd (end_meeting now i s)))"
proof -
  have "list_all2 (\<lambda>m m'. forward (status m) (status m')) (meetings s)
          (update_where (\<lambda>m. eq_id (meeting_id m) i \<and> status m = active)
             (\<lambda>m. m\<lparr>status := processing, endedAt := Some now\<rparr>) (meetings s))"
    by (rule update_where_related) (simp add: forward_steps forward_refl)
  then show ?thesis by (simp add: end_meeting_def)
qed

lemma session_ended_forward:
  "list_all2 (\<lambda>m m'. forward (status m) (status m')) (meetings s)
     (meetings (snd (session_ended driver now p s)))"
proof -
  have "snd (session_ended driver now p s) = s
      \<or> (\<exists>i. session_ended driver now p s = end_meeting now i s)"
    by (auto simp: session_ended_def split: option.splits sql_param.splits)
  then show ?thesis
  proof (elim disjE exE)
    assume "snd (session_ended driver now p s) = s"
    then show ?thesis by (simp add: unchanged_forward)
  next
    fix i assume "session_ended driver now p s = end_meeting now i s"
    then show ?thesis by (simp add: end_meeting_forward)
  qed
qed

lemma store_transcript_meetings:
  "meetings (snd (store_transcript i u s)) =
     update_where (\<lambda>m. eq_id (meeting_id m) i) (\<lambda>m. m\<lparr>transcriptUrl := u\<rparr>) (meetings s)"
  by (simp add: store_transcript_def Let_def split: option.splits)

lemma store_transcript_forward:
  "list_all2 (\<lambda>m m'. forward (status m) (status m')) (meetings s)
     (meetings (snd (store_transcript i u s)))"
  unfolding store_transcript_meetings
  by (rule update_where_related) (simp add: forward_refl)

lemma transcription_ready_forward:
  "list_all2 (\<lambda>m m'. forward (status m) (status m')) (meetings s)
     (meetings (snd (transcription_ready driver p s)))"
proof -
  have "snd (transcription_ready driver p s) = s
      \<or> (\<exists>i u. transcription_ready driver p s = store_transcript i u s)"
    by (auto simp: transcription_ready_def split: option.splits sql_param.splits)
  then show ?thesis
  proof (elim disjE exE)
    assume "snd (transcription_ready driver p s) = s"
    then show ?thesis by (simp add: unchanged_forward)
  next
    fix i u assume "transcription_ready driver p s = store_transcript i u s"
    then show ?thesis by (simp add: store_transcript_forward)
  qed
qed

lemma store_recording_forward:
  "list_all2 (\<lambda>m m'. forward (status m) (status m')) (meetings s)
     (meetings (snd (store_recording i u s)))"
  unfolding store_recording_def snd_conv
  by (simp, rule update_where_related) (simp add: forward_refl)

lemma recording_ready_forward:
  "list_all2 (\<lambda>m m'. forward (status m) (status m')) (meetings s)
     (meetings (snd (recording_ready driver p s)))"
proof -
  have "snd (recording_ready driver p s) = s
      \<or> (\<exists>i u. recording_ready driver p s = store_recording i u s)"
    by (auto simp: recording_ready_def split: option.splits sql_param.splits)
  then show ?thesis
  proof (elim disjE exE)
    assume "snd (recording_ready driver p s) = s"
    then show ?thesis by (simp add: unchanged_forward)
  next
    fix i u assume "recording_ready driver p s = store_recording i u s"
    then show ?thesis by (simp add: store_recording_forward)
  qed
qed

lemma session_participant_left_forward:
  "list_all2 (\<lambda>m m'. forward (status m) (status m')) (meetings s)
     (meetings (snd (session_participant_left p s)))"
  by (simp add: session_participant_left_def list_all2_same forward_refl
      split: option.splits)

lemma dispatch_forward:
  assumes "distinct (map meeting_id (meetings s))"
  shows "list_all2 (\<lambda>m m'. forward (status m) (status m')) (meetings s)
           (meetings (snd (dispatch driver now p s)))"
  using dispatch_cases [of driver now p s]
proof (elim disjE)
  assume d: "dispatch driver now p s = session_started driver now p s"
  show ?thesis unfolding d by (rule session_started_forward [OF assms])
next
  assume d: "dispatch driver now p s = session_participant_left p s"
  show ?thesis unfolding d by (rule session_participant_left_forward)
next
  assume d: "dispatch driver now p s = session_ended driver now p s"
  show ?thesis unfolding d by (rule session_ended_forward)
next
  assume d: "dispatch driver now p s = transcription_ready driver p s"
  show ?thesis unfolding d by (rule transcription_ready_forward)
next
  assume d: "dispatch driver now p s = recording_ready driver p s"
  show ?thesis unfolding d by (rule recording_ready_forward)
next
  assume d: "dispatch driver now p s = (Continues, s)"
  show ?thesis unfolding d by (simp add: unchanged_forward)
qed

lemma POST_forward:
  assumes "distinct (map meeting_id (meetings s))"
  shows "list_all2 (\<lambda>m m'. forward (status m) (status m')) (meetings s)
        (meetings (snd (POST verifyWebhook parse driver now req s)))"
proof (cases "authentic verifyWebhook req \<and> (\<exists>p. parse (body req) = Some p)")
  case True
  then obtain p where auth: "authentic verifyWebhook req" and p: "parse (body req) = Some p"
    by blast
  show ?thesis
    unfolding POST_snd [where parse = parse and req = req, OF auth p]
    by (rule dispatch_forward [OF assms])
next
  case False
  then have "\<not> authentic verifyWebhook req \<or> parse (body req) = None" by auto
  from POST_rejected [where parse = parse and req = req, OF this]
  show ?thesis by (simp add: unchanged_forward)
qed

subsection \<open>The persist step\<close>

lemma save_summary_completes:
  "list_all2 (\<lambda>m m'. if meeting_id m = mid
                then status m' = completed
                     \<and> (forward (status m) (status m') \<or> status m = cancelled)
                else m' = m)
     (meetings s) (meetings (save_summary mid said s))"
proof -
  have "list_all2 (\<lambda>m m'. if meeting_id m = mid
                then status m' = completed
                     \<and> (forward (status m) (status m') \<or> status m = cancelled)
                else m' = m)
     (meetings s)
     (update_where (\<lambda>m. meeting_id m = mid)
        (\<lambda>m. m\<lparr>summary := Some said, status := completed\<rparr>) (meetings s))"
  proof (rule update_where_related)
    fix r
    show "if meeting_id r = mid
       then status (if meeting_id r = mid then r\<lparr>summary := Some said, status := completed\<rparr>
                    else r) = completed
         \<and> (forward (status r)
              (status (if meeting_id r = mid
                       then r\<lparr>summary := Some said, status := completed\<rparr> else r))
            \<or> status r = cancelled)
       else (if meeting_id r = mid then r\<lparr>summary := Some said, status := completed\<rparr> else r)
            = r"
      by (cases "status r") (simp_all add: forward_def)
  qed
  then show ?thesis by (simp add: save_summary_def)
qed

lemma meetingsProcessing_run:
  "(fst (meetingsProcessing f p j g ev s) = None \<longrightarrow>
      (\<exists>said. snd (meetingsProcessing f p j g ev s) = save_summary (data_meetingId ev) said s))
   \<and> (fst (meetingsProcessing f p j g ev s) \<noteq> None \<longrightarrow>
      snd (meetingsProcessing f p j g ev s) = s)"
  by (simp add: meetingsProcessing_def Let_def split: option.splits sum.splits) blast

subsection \<open>The pipeline\<close>

lemma summarize_cases:
  "summarizeWithGemini g t =
     (case g (summary_request t) of
        Inl e \<Rightarrow> Inl ''Failed to generate summary with Gemini''
      | Inr r \<Rightarrow> Inr (or_else r ''Summary generation failed''))"
  by (simp add: summarizeWithGemini_def)

lemma meetingsProcessing_snd:
  "snd (meetingsProcessing f p j g ev s) = s
   \<or> (\<exists>txt. snd (meetingsProcessing f p j g ev s) = save_summary (data_meetingId ev) txt s)"
  by (simp add: meetingsProcessing_def Let_def split: option.splits sum.splits) blast

lemma sample_run:
  "meetingsProcessing fetch_sample parse_sample stringify_sample generate_text job_m1 s =
     (None, save_summary ''m1'' ''### Overview'' s)"
  by (simp add: meetingsProcessing_def fetch_sample_def parse_sample_def summarize_cases
      generate_text_def job_m1_def or_else_def)

lemma save_summary_store:
  "save_summary ''m1'' txt (store st) =
     (store st)\<lparr>meetings := [(meeting_m1 st)\<lparr>summary := Some txt, status := completed\<rparr>]\<rparr>"
  by (simp add: save_summary_def update_where_def store_def meeting_m1_def)

lemma or_else_nonempty: "d \<noteq> [] \<Longrightarrow> or_else r d \<noteq> []"
  by (cases r) (simp_all add: or_else_def)

lemma or_else_cases:
  "(r = Some (or_else r d) \<and> or_else r d \<noteq> []) \<or> ((r = None \<or> r = Some []) \<and> or_else r d = d)"
  by (cases r) (simp_all add: or_else_def)

lemma save_summary_rows:
  assumes "m' \<in> set (meetings (save_summary mid txt s))" "meeting_id m' = mid"
  shows "summary m' = Some txt \<and> status m' = completed"
proof -
  from assms(1) have "m' \<in> set (update_where (\<lambda>m. meeting_id m = mid)
      (\<lambda>m. m\<lparr>summary := Some txt, status := completed\<rparr>) (meetings s))"
    by (simp add: save_summary_def)
  then obtain r0 where
    "m' = (if meeting_id r0 = mid then r0\<lparr>summary := Some txt, status := completed\<rparr> else r0)"
    unfolding update_where_mem by blast
  with assms(2) show ?thesis by (cases "meeting_id r0 = mid") simp_all
qed

lemma empty_run:
  "meetingsProcessing fetch_sample parse_sample stringify_sample generate_empty job_m1 s =
     (None, save_summary ''m1'' ''Summary generation failed'' s)"
  by (simp add: meetingsProcessing_def fetch_sample_def parse_sample_def summarize_cases
      generate_empty_def job_m1_def or_else_def)

subsection \<open>Speakers\<close>

lemma find_speakers:
  "find (\<lambda>sp. speaker_ident sp = sid) (map UserSpeaker us @ map AgentSpeaker as) =
     (case find (\<lambda>u. user_id u = sid) us of
        Some u \<Rightarrow> Some (UserSpeaker u)
      | None \<Rightarrow> map_option AgentSpeaker (find (\<lambda>a. agent_id a = sid) as))"
proof (induction us)
  case Nil
  show ?case by (induction as) simp_all
next
  case (Cons u us)
  then show ?case by simp
qed

lemma annotate_name:
  "item (annotate (map UserSpeaker us @ map AgentSpeaker as) it) = it
   \<and> (speaker_id it \<in> user_id ` set us \<longrightarrow>
        (\<exists>u\<in>set us. user_id u = speaker_id it
           \<and> user_name_of_item (annotate (map UserSpeaker us @ map AgentSpeaker as) it)
               = user_name u))
   \<and> (speaker_id it \<notin> user_id ` set us \<and> speaker_id it \<in> agent_id ` set as \<longrightarrow>
        (\<exists>a\<in>set as. agent_id a = speaker_id it
           \<and> user_name_of_item (annotate (map UserSpeaker us @ map AgentSpeaker as) it)
               = agent_name a))
   \<and> (speaker_id it \<notin> user_id ` set us \<and> speaker_id it \<notin> agent_id ` set as \<longrightarrow>
        user_name_of_item (annotate (map UserSpeaker us @ map AgentSpeaker as) it) = ''Unknown'')"
proof (cases "find (\<lambda>u. user_id u = speaker_id it) us")
  case (Some u)
  from find_first [OF this] have u: "u \<in> set us" "user_id u = speaker_id it" by simp_all
  from Some have "annotate (map UserSpeaker us @ map AgentSpeaker as) it
      = \<lparr>item = it, user_name_of_item = user_name u\<rparr>"
    by (simp add: annotate_def find_speakers)
  moreover from u have "speaker_id it \<in> user_id ` set us" by (metis imageI)
  ultimately show ?thesis using u by auto
next
  case None
  then have nu: "speaker_id it \<notin> user_id ` set us"
    unfolding find_none by auto
  show ?thesis
  proof (cases "find (\<lambda>a. agent_id a = speaker_id it) as")
    case (Some a)
    from find_first [OF this] have a: "a \<in> set as" "agent_id a = speaker_id it" by simp_all
    from None Some have "annotate (map UserSpeaker us @ map AgentSpeaker as) it
        = \<lparr>item = it, user_name_of_item = agent_name a\<rparr>"
      by (simp add: annotate_def find_speakers)
    moreover from a have "speaker_id it \<in> agent_id ` set as" by (metis imageI)
    ultimately show ?thesis using a nu by auto
  next
    case na: None
    then have "speaker_id it \<notin> agent_id ` set as"
      unfolding find_none by auto
    moreover from None na have "annotate (map UserSpeaker us @ map AgentSpeaker as) it
        = \<lparr>item = it, user_name_of_item = ''Unknown''\<rparr>"
      by (simp add: annotate_def find_speakers)
    ultimately show ?thesis using nu by simp
  qed
qed

lemma set_new_Set: "set (new_Set xs) = set xs"
  by (simp add: new_Set_def)

subsection \<open>The wait notice\<close>

lemma ceil_div_bounds:
  "1000 * (Math_ceil_div a 1000 - 1) < a \<and> a \<le> 1000 * Math_ceil_div a 1000"
proof -
  define q where "q = (- a) div 1000"
  define r where "r = (- a) mod 1000"
  have "q * 1000 + r = - a" unfolding q_def r_def by (rule div_mult_mod_eq)
  then have a: "a = - (1000 * q) - r" by simp
  have r: "0 \<le> r" "r < 1000" unfolding r_def by simp_all
  have "1000 * (- q - 1) < a" unfolding a using r by (simp add: algebra_simps)
  moreover have "a \<le> 1000 * - q" unfolding a using r by (simp add: algebra_simps)
  ultimately show ?thesis unfolding Math_ceil_div_def q_def by (rule conjI)
qed

lemma show_int_two: "show_int 2 = ''2''"
  by (simp add: show_int_def show_nat.simps)

lemma digit_code:
  assumes "k < 10"
  shows "(of_char (''0123456789'' ! k) :: nat) = 48 + k"
proof -
  have "(10::nat) = Suc (Suc (Suc (Suc (Suc (Suc (Suc (Suc (Suc (Suc 0)))))))))" by simp
  from assms [unfolded this less_Suc_eq]
  have "k = 0 \<or> k = 1 \<or> k = 2 \<or> k = 3 \<or> k = 4 \<or> k = 5 \<or> k = 6 \<or> k = 7 \<or> k = 8
      \<or> k = 9"
    by auto
  then show ?thesis by (elim disjE) simp_all
qed

lemma digit_mem:
  assumes "k < 10"
  shows "''0123456789'' ! k \<in> set ''0123456789''"
proof -
  from assms have "k < length ''0123456789''" by simp
  then show ?thesis by (rule nth_mem)
qed

lemma digit_zero:
  assumes "k < 10" "''0123456789'' ! k = CHR ''0''"
  shows "k = 0"
proof -
  from digit_code [OF assms(1)] assms(2) have "(of_char CHR ''0'' :: nat) = 48 + k" by simp
  then show ?thesis by simp
qed

lemma decimal_value_snoc:
  "decimal_value (ds @ [c]) = 10 * decimal_value ds + (of_char c - 48)"
  by (simp add: decimal_value_def)

lemma show_nat_nonempty: "show_nat n \<noteq> []"
  by (subst show_nat.simps) simp

lemma show_nat_digits: "list_all (\<lambda>c. c \<in> set ''0123456789'') (show_nat n)"
proof (induction n rule: show_nat.induct)
  case (1 n)
  show ?case
  proof (cases "n < 10")
    case True
    from digit_mem [OF True] show ?thesis by (subst show_nat.simps) (simp add: True)
  next
    case False
    have "n mod 10 < 10" by simp
    from digit_mem [OF this] 1 [OF False] False show ?thesis
      by (subst show_nat.simps) simp
  qed
qed

lemma show_nat_value: "decimal_value (show_nat n) = n"
proof (induction n rule: show_nat.induct)
  case (1 n)
  show ?case
  proof (cases "n < 10")
    case True
    from digit_code [OF True] show ?thesis
      by (subst show_nat.simps) (simp add: True decimal_value_def)
  next
    case False
    have m: "n mod 10 < 10" by simp
    have "decimal_value (show_nat n)
        = 10 * decimal_value (show_nat (n div 10)) + (of_char (''0123456789'' ! (n mod 10)) - 48)"
      using False by (subst show_nat.simps) (simp add: decimal_value_snoc)
    also have "\<dots> = 10 * (n div 10) + n mod 10"
      unfolding 1 [OF False] digit_code [OF m] by simp
    finally show ?thesis by simp
  qed
qed

lemma show_nat_leading: "0 < n \<Longrightarrow> hd (show_nat n) \<noteq> CHR ''0''"
proof (induction n rule: show_nat.induct)
  case (1 n)
  show ?case
  proof (cases "n < 10")
    case True
    have "hd (show_nat n) = ''0123456789'' ! n"
      using True by (subst show_nat.simps) simp
    with digit_zero [OF True] 1(2) show ?thesis by auto
  next
    case False
    then have "0 < n div 10" by simp
    from 1(1) [OF False this] have "hd (show_nat (n div 10)) \<noteq> CHR ''0''" .
    moreover have "hd (show_nat n) = hd (show_nat (n div 10))"
      using False show_nat_nonempty [of "n div 10"] by (subst show_nat.simps) simp
    ultimately show ?thesis by simp
  qed
qed

lemma show_nat_zero: "show_nat 0 = ''0''"
  by (simp add: show_nat.simps)

lemma show_nat_numeral: "decimal_numeral n (show_nat n)"
proof (cases "n = 0")
  case True
  then show ?thesis by (simp add: decimal_numeral_def show_nat_zero decimal_value_def)
next
  case False
  then have "hd (show_nat n) \<noteq> CHR ''0''" by (simp add: show_nat_leading)
  then show ?thesis
    unfolding decimal_numeral_def
    using show_nat_nonempty show_nat_digits show_nat_value by simp
qed

lemma ceil_div_positive:
  assumes "0 < a"
  shows "0 < Math_ceil_div a 1000"
proof -
  from ceil_div_bounds [of a] assms have "0 < 1000 * Math_ceil_div a 1000" by linarith
  then show ?thesis by simp
qed

subsection \<open>The status of each leaf\<close>

lemma POST_handlers:
  assumes auth: "authentic verifyWebhook req" and p: "parse (body req) = Some p"
  shows
       "((payload_type p = Some (JString ''call.session_started'')
            \<or> payload_type p = Some (JString ''call.session_ended''))
          \<and> call_custom_meetingId p = Some v \<and> falsy_js v \<longrightarrow>
           fst (POST verifyWebhook parse driver now req s)
             = Responds (Response 400 (Error ''Missing meetingId'')))
      \<and> (payload_type p = Some (JString ''call.session_participant_left'')
          \<and> call_cid_meetingId p = Some w \<and> falsy w \<longrightarrow>
           fst (POST verifyWebhook parse driver now req s)
             = Responds (Response 400 (Error ''Missing meetingId '')))
      \<and> (payload_type p = Some (JString ''call.session_started'')
          \<and> call_custom_meetingId p = Some v \<and> \<not> falsy_js v
          \<and> (where_param driver v = SqlNull
               \<or> where_param driver v = SqlText mid
                  \<and> (\<forall>m\<in>set (meetings s). \<not> startable mid m)) \<longrightarrow>
           fst (POST verifyWebhook parse driver now req s)
             = Responds (Response 404 (Error ''Meeting not found'')))
      \<and> (payload_type p = Some (JString ''call.session_started'')
          \<and> call_custom_meetingId p = Some v \<and> \<not> falsy_js v
          \<and> where_param driver v = SqlText mid
          \<and> find (startable mid) (meetings s) = Some m
          \<and> agentId m \<notin> agent_id ` set (agents s) \<longrightarrow>
           fst (POST verifyWebhook parse driver now req s)
             = Responds (Response 404 (Error ''Agent not found'')))
      \<and> (payload_type p = Some (JString ''call.session_started'')
          \<and> call_custom_meetingId p = Some v \<and> \<not> falsy_js v
          \<and> where_param driver v = SqlText mid
          \<and> find (startable mid) (meetings s) = Some m
          \<and> agentId m \<in> agent_id ` set (agents s) \<longrightarrow>
           fst (POST verifyWebhook parse driver now req s) = Responds (Response 200 StatusOk))
      \<and> (payload_type p = Some (JString ''call.session_participant_left'')
          \<and> call_cid_meetingId p = Some w \<and> \<not> falsy w \<longrightarrow>
           fst (POST verifyWebhook parse driver now req s) = Responds (Response 200 StatusOk))
      \<and> (payload_type p = Some (JString ''call.session_ended'')
          \<and> call_custom_meetingId p = Some v \<and> \<not> falsy_js v
          \<and> where_param driver v \<noteq> Unbindable \<longrightarrow>
           fst (POST verifyWebhook parse driver now req s) = Responds (Response 200 StatusOk))
      \<and> (payload_type p = Some (JString ''call.transcription_ready'')
          \<and> call_cid_meetingId p = Some w
          \<and> nested_url ''call_transcription'' p = Some (Some j)
          \<and> sql_param_of driver j \<noteq> Unbindable
          \<and> (\<exists>m\<in>set (meetings s). eq_id (meeting_id m) w) \<longrightarrow>
           fst (POST verifyWebhook parse driver now req s) = Responds (Response 200 StatusOk))
      \<and> (payload_type p = Some (JString ''call.recording_ready'')
          \<and> call_cid_meetingId p = Some w
          \<and> nested_url ''call_recording'' p = Some (Some j)
          \<and> sql_param_of driver j \<noteq> Unbindable \<longrightarrow>
           fst (POST verifyWebhook parse driver now req s) = Responds (Response 200 StatusOk))
      \<and> (payload_type p \<notin> {Some (JString ''call.session_started''),
                             Some (JString ''call.session_participant_left''),
                             Some (JString ''call.session_ended''),
                             Some (JString ''call.transcription_ready''),
                             Some (JString ''call.recording_ready'')} \<longrightarrow>
           fst (POST verifyWebhook parse driver now req s) = Responds (Response 200 StatusOk))
      \<and> ((payload_type p = Some (JString ''call.session_started'')
            \<or> payload_type p = Some (JString ''call.session_ended''))
          \<and> (call_custom_meetingId p = None
               \<or> call_custom_meetingId p = Some v \<and> \<not> falsy_js v
                  \<and> where_param driver v = Unbindable) \<longrightarrow>
           fst (POST verifyWebhook parse driver now req s) = Uncaught)
      \<and> (payload_type p = Some (JString ''call.session_participant_left'')
          \<and> call_cid_meetingId p = None \<longrightarrow>
           fst (POST verifyWebhook parse driver now req s) = Uncaught)
      \<and> ((payload_type p = Some (JString ''call.transcription_ready'')
              \<and> k = ''call_transcription''
            \<or> payload_type p = Some (JString ''call.recording_ready'')
              \<and> k = ''call_recording'')
          \<and> (call_cid_meetingId p = None \<or> nested_url k p = None
               \<or> nested_url k p = Some None
               \<or> nested_url k p = Some (Some j) \<and> sql_param_of driver j = Unbindable) \<longrightarrow>
           fst (POST verifyWebhook parse driver now req s) = Uncaught)"
    (is "?H1 \<and> ?H2 \<and> ?H3 \<and> ?H4 \<and> ?H5 \<and> ?H6 \<and> ?H7 \<and> ?H8 \<and> ?H9 \<and> ?H10 \<and> ?H11 \<and> ?H12
           \<and> ?H13")
proof -
  note pf = POST_fst [where parse = parse and req = req and driver = driver
      and now = now and s = s, OF auth p]
  have h1: ?H1
  proof (intro impI, elim conjE disjE)
    assume "payload_type p = Some (JString ''call.session_started'')"
      "call_custom_meetingId p = Some v" "falsy_js v"
    then show "fst (POST verifyWebhook parse driver now req s)
             = Responds (Response 400 (Error ''Missing meetingId''))"
      unfolding pf by (simp add: dispatch_session_started session_started_leaves(2))
  next
    assume "payload_type p = Some (JString ''call.session_ended'')"
      "call_custom_meetingId p = Some v" "falsy_js v"
    then show "fst (POST verifyWebhook parse driver now req s)
             = Responds (Response 400 (Error ''Missing meetingId''))"
      unfolding pf by (simp add: dispatch_session_ended session_ended_leaves(2))
  qed
  have h2: ?H2
    unfolding pf
    by (simp add: dispatch_session_participant_left session_participant_left_leaves(2))
  have h3: ?H3
  proof (intro impI, elim conjE disjE)
    assume "payload_type p = Some (JString ''call.session_started'')"
      "call_custom_meetingId p = Some v" "\<not> falsy_js v" "where_param driver v = SqlNull"
    then show "fst (POST verifyWebhook parse driver now req s)
             = Responds (Response 404 (Error ''Meeting not found''))"
      unfolding pf by (simp add: dispatch_session_started session_started_leaves(4))
  next
    assume k: "payload_type p = Some (JString ''call.session_started'')"
      and r: "call_custom_meetingId p = Some v" "\<not> falsy_js v"
        "where_param driver v = SqlText mid"
      and n: "\<forall>m\<in>set (meetings s). \<not> startable mid m"
    from n have "find (startable mid) (meetings s) = None" unfolding find_none .
    from start_meeting_not_found [OF this, of now]
    show "fst (POST verifyWebhook parse driver now req s)
             = Responds (Response 404 (Error ''Meeting not found''))"
      unfolding pf dispatch_session_started [OF k] session_started_text [OF r] by simp
  qed
  have h4: ?H4
  proof (intro impI, elim conjE)
    assume k: "payload_type p = Some (JString ''call.session_started'')"
      and r: "call_custom_meetingId p = Some v" "\<not> falsy_js v"
        "where_param driver v = SqlText mid"
      and m: "find (startable mid) (meetings s) = Some m"
      and a: "agentId m \<notin> agent_id ` set (agents s)"
    from start_meeting_found [OF m, of now] a
    show "fst (POST verifyWebhook parse driver now req s)
             = Responds (Response 404 (Error ''Agent not found''))"
      unfolding pf dispatch_session_started [OF k] session_started_text [OF r] by simp
  qed
  have h5: ?H5
  proof (intro impI, elim conjE)
    assume k: "payload_type p = Some (JString ''call.session_started'')"
      and r: "call_custom_meetingId p = Some v" "\<not> falsy_js v"
        "where_param driver v = SqlText mid"
      and m: "find (startable mid) (meetings s) = Some m"
      and a: "agentId m \<in> agent_id ` set (agents s)"
    from start_meeting_found [OF m, of now] a
    show "fst (POST verifyWebhook parse driver now req s) = Responds (Response 200 StatusOk)"
      unfolding pf dispatch_session_started [OF k] session_started_text [OF r] by simp
  qed
  have h6: ?H6
    unfolding pf
    by (simp add: dispatch_session_participant_left session_participant_left_leaves(3))
  have h7: ?H7
    unfolding pf by (simp add: dispatch_session_ended session_ended_leaves(4))
  have h8: ?H8
  proof (intro impI, elim conjE)
    assume k: "payload_type p = Some (JString ''call.transcription_ready'')"
      and r: "call_cid_meetingId p = Some w"
        "nested_url ''call_transcription'' p = Some (Some j)"
        "sql_param_of driver j \<noteq> Unbindable"
      and n: "\<exists>m\<in>set (meetings s). eq_id (meeting_id m) w"
    show "fst (POST verifyWebhook parse driver now req s) = Responds (Response 200 StatusOk)"
      unfolding pf dispatch_transcription_ready [OF k] transcription_ready_leaves(2) [OF r n]
      by simp
  qed
  have h9: ?H9
  proof (intro impI, elim conjE)
    assume k: "payload_type p = Some (JString ''call.recording_ready'')"
      and r: "call_cid_meetingId p = Some w"
        "nested_url ''call_recording'' p = Some (Some j)"
        "sql_param_of driver j \<noteq> Unbindable"
    show "fst (POST verifyWebhook parse driver now req s) = Responds (Response 200 StatusOk)"
      unfolding pf dispatch_recording_ready [OF k] recording_ready_bound [OF r]
      by simp
  qed
  have h10: ?H10
    unfolding pf by (simp add: dispatch_unhandled)
  have h11: ?H11
  proof (intro impI, elim conjE disjE)
    assume "payload_type p = Some (JString ''call.session_started'')"
      "call_custom_meetingId p = None"
    then show "fst (POST verifyWebhook parse driver now req s) = Uncaught"
      unfolding pf by (simp add: dispatch_session_started session_started_leaves(1))
  next
    assume "payload_type p = Some (JString ''call.session_started'')"
      "call_custom_meetingId p = Some v" "\<not> falsy_js v" "where_param driver v = Unbindable"
    then show "fst (POST verifyWebhook parse driver now req s) = Uncaught"
      unfolding pf by (simp add: dispatch_session_started session_started_leaves(3))
  next
    assume "payload_type p = Some (JString ''call.session_ended'')"
      "call_custom_meetingId p = None"
    then show "fst (POST verifyWebhook parse driver now req s) = Uncaught"
      unfolding pf by (simp add: dispatch_session_ended session_ended_leaves(1))
  next
    assume "payload_type p = Some (JString ''call.session_ended'')"
      "call_custom_meetingId p = Some v" "\<not> falsy_js v" "where_param driver v = Unbindable"
    then show "fst (POST verifyWebhook parse driver now req s) = Uncaught"
      unfolding pf by (simp add: dispatch_session_ended session_ended_leaves(3))
  qed
  have h12: ?H12
    unfolding pf
    by (simp add: dispatch_session_participant_left session_participant_left_leaves(1))
  have h13: ?H13
  proof (intro impI, elim conjE)
    assume kind: "payload_type p = Some (JString ''call.transcription_ready'')
                \<and> k = ''call_transcription''
              \<or> payload_type p = Some (JString ''call.recording_ready'')
                \<and> k = ''call_recording''"
      and t: "call_cid_meetingId p = None \<or> nested_url k p = None
                 \<or> nested_url k p = Some None
                 \<or> nested_url k p = Some (Some j) \<and> sql_param_of driver j = Unbindable"
    from kind show "fst (POST verifyWebhook parse driver now req s) = Uncaught"
    proof (elim disjE conjE)
      assume kk: "payload_type p = Some (JString ''call.transcription_ready'')"
        "k = ''call_transcription''"
      from t have "transcription_ready driver p s = (Throws, s)"
        unfolding kk(2) by (rule transcription_ready_throws)
      then show ?thesis unfolding pf dispatch_transcription_ready [OF kk(1)] by simp
    next
      assume kk: "payload_type p = Some (JString ''call.recording_ready'')"
        "k = ''call_recording''"
      from t have "recording_ready driver p s = (Throws, s)"
        unfolding kk(2) by (rule recording_ready_throws)
      then show ?thesis unfolding pf dispatch_recording_ready [OF kk(1)] by simp
    qed
  qed
  from h1 h2 h3 h4 h5 h6 h7 h8 h9 h10 h11 h12 h13 show ?thesis by (intro conjI)
qed

section \<open>Transcription-ready deliveries and the job runner\<close>

text \<open>
  C1. An authentic \<^verbatim>\<open>call.transcription_ready\<close> delivery whose meeting id (the part of
  \<^verbatim>\<open>call_cid\<close> after the first colon) is the id of a row, and whose transcript URL the
  driver binds (as a text, which every string is, or as NULL), is acknowledged, stores
  the URL in every row of that id and hands the job runner exactly one more message,
  named \<^verbatim>\<open>meetings/processing\<close>, carrying that id and the stored URL. And whatever the
  delivery, a message is handed over only by a transcription-ready delivery whose
  meeting id is the id of a row.
\<close>

theorem transcription_ready_enqueues:
  "(authentic verifyWebhook req
      \<and> parse (body req) = Some p
      \<and> payload_type p = Some (JString ''call.transcription_ready'')
      \<and> call_cid_meetingId p = Some (Some mid)
      \<and> nested_url ''call_transcription'' p = Some (Some j)
      \<and> (sql_param_of driver j = SqlText url \<and> u = Some url
           \<or> sql_param_of driver j = SqlNull \<and> u = None)
      \<and> mid \<in> meeting_id ` set (meetings s) \<longrightarrow>
    POST verifyWebhook parse driver now req s =
      (Responds (Response 200 StatusOk),
       s\<lparr>meetings := update_where (\<lambda>m. meeting_id m = mid)
                       (\<lambda>m. m\<lparr>transcriptUrl := u\<rparr>) (meetings s),
         sent := sent s @ [\<lparr>name = ''meetings/processing'', data_meetingId = mid,
                            data_transcriptUrl = u\<rparr>]\<rparr>)
    \<and> (\<forall>m'\<in>set (meetings (snd (POST verifyWebhook parse driver now req s))).
          meeting_id m' = mid \<longrightarrow> transcriptUrl m' = u))
   \<and> (sent (snd (POST verifyWebhook parse driver now req s)) \<noteq> sent s \<longrightarrow>
        (\<exists>e i. parse (body req) = Some e
           \<and> payload_type e = Some (JString ''call.transcription_ready'')
           \<and> call_cid_meetingId e = Some (Some i)
           \<and> i \<in> meeting_id ` set (meetings s)))"
proof (intro conjI impI)
  assume a: "authentic verifyWebhook req
      \<and> parse (body req) = Some p
      \<and> payload_type p = Some (JString ''call.transcription_ready'')
      \<and> call_cid_meetingId p = Some (Some mid)
      \<and> nested_url ''call_transcription'' p = Some (Some j)
      \<and> (sql_param_of driver j = SqlText url \<and> u = Some url
           \<or> sql_param_of driver j = SqlNull \<and> u = None)
      \<and> mid \<in> meeting_id ` set (meetings s)"
  then have auth: "authentic verifyWebhook req"
    and p: "parse (body req) = Some p"
    and k: "payload_type p = Some (JString ''call.transcription_ready'')"
    and i: "call_cid_meetingId p = Some (Some mid)"
    and url: "nested_url ''call_transcription'' p = Some (Some j)"
    and b: "sql_param_of driver j = SqlText url \<and> u = Some url
           \<or> sql_param_of driver j = SqlNull \<and> u = None"
    and m: "mid \<in> meeting_id ` set (meetings s)"
    by blast+
  from i url b have "transcription_ready driver p s = store_transcript (Some mid) u s"
    by (auto simp: transcription_ready_def)
  then have d: "dispatch driver now p s =
      (Continues,
       s\<lparr>meetings := update_where (\<lambda>m. meeting_id m = mid)
                       (\<lambda>m. m\<lparr>transcriptUrl := u\<rparr>) (meetings s),
         sent := sent s @ [\<lparr>name = ''meetings/processing'', data_meetingId = mid,
                            data_transcriptUrl = u\<rparr>]\<rparr>)"
    unfolding dispatch_transcription_ready [OF k] store_transcript_found [OF m] .
  show post: "POST verifyWebhook parse driver now req s =
      (Responds (Response 200 StatusOk),
       s\<lparr>meetings := update_where (\<lambda>m. meeting_id m = mid)
                       (\<lambda>m. m\<lparr>transcriptUrl := u\<rparr>) (meetings s),
         sent := sent s @ [\<lparr>name = ''meetings/processing'', data_meetingId = mid,
                            data_transcriptUrl = u\<rparr>]\<rparr>)"
    unfolding POST_authentic [where parse = parse and req = req, OF auth p] d by simp
  show "\<forall>m'\<in>set (meetings (snd (POST verifyWebhook parse driver now req s))).
          meeting_id m' = mid \<longrightarrow> transcriptUrl m' = u"
  proof (intro ballI impI)
    fix m'
    assume "m' \<in> set (meetings (snd (POST verifyWebhook parse driver now req s)))"
    then have "m' \<in> set (update_where (\<lambda>m. meeting_id m = mid)
                       (\<lambda>m. m\<lparr>transcriptUrl := u\<rparr>) (meetings s))"
      unfolding post by simp
    then obtain r0 where
      r0: "m' = (if meeting_id r0 = mid then r0\<lparr>transcriptUrl := u\<rparr> else r0)"
      unfolding update_where_mem by blast
    assume "meeting_id m' = mid"
    with r0 show "transcriptUrl m' = u"
      by (cases "meeting_id r0 = mid") simp_all
  qed
next
  assume changed: "sent (snd (POST verifyWebhook parse driver now req s)) \<noteq> sent s"
  then have "snd (POST verifyWebhook parse driver now req s) \<noteq> s" by auto
  from POST_changed [where parse = parse and req = req, OF this]
  obtain e where auth: "authentic verifyWebhook req" and e: "parse (body req) = Some e"
    by blast
  from changed have "sent (snd (dispatch driver now e s)) \<noteq> sent s"
    unfolding POST_snd [where parse = parse and req = req, OF auth e] .
  from dispatch_sent [OF this]
  have k: "payload_type e = Some (JString ''call.transcription_ready'')"
    and "sent (snd (transcription_ready driver e s)) \<noteq> sent s"
    by simp_all
  from transcription_ready_sent [OF this(2)]
  obtain i where "call_cid_meetingId e = Some (Some i)" "i \<in> meeting_id ` set (meetings s)"
    by blast
  with e k show "\<exists>e i. parse (body req) = Some e
           \<and> payload_type e = Some (JString ''call.transcription_ready'')
           \<and> call_cid_meetingId e = Some (Some i)
           \<and> i \<in> meeting_id ` set (meetings s)"
    by blast
qed

theorem transcription_ready_enqueues_witness:
  "authentic accept_all signed_request
   \<and> parse_as transcript_event (body signed_request) = Some transcript_event
   \<and> payload_type transcript_event = Some (JString ''call.transcription_ready'')
   \<and> call_cid_meetingId transcript_event = Some (Some ''m1'')
   \<and> nested_url ''call_transcription'' transcript_event
       = Some (Some (JString ''https://x/t.jsonl''))
   \<and> sql_param_of strict_driver (JString ''https://x/t.jsonl'') = SqlText ''https://x/t.jsonl''
   \<and> ''m1'' \<in> meeting_id ` set (meetings (store processing))
   \<and> POST accept_all (parse_as transcript_event) strict_driver 7 signed_request
       (store processing) =
       (Responds (Response 200 StatusOk),
        (store processing)
          \<lparr>meetings := [(meeting_m1 processing)\<lparr>transcriptUrl := Some ''https://x/t.jsonl''\<rparr>],
           sent := [\<lparr>name = ''meetings/processing'', data_meetingId = ''m1'',
                     data_transcriptUrl = Some ''https://x/t.jsonl''\<rparr>]\<rparr>)"
proof -
  have h1: "payload_type transcript_event = Some (JString ''call.transcription_ready'')"
    and h2: "call_cid_meetingId transcript_event = Some (Some ''m1'')"
    and h3: "nested_url ''call_transcription'' transcript_event
       = Some (Some (JString ''https://x/t.jsonl''))"
    by (simp_all add: transcript_event_def transcript_event_reads)
  have h4: "sql_param_of strict_driver (JString ''https://x/t.jsonl'') = SqlText ''https://x/t.jsonl''"
    by (simp add: sql_param_of_def)
  have h5: "''m1'' \<in> meeting_id ` set (meetings (store processing))"
    by (simp add: store_def meeting_m1_def)
  note h0 = authentic_signed parse_as_body [of transcript_event signed_request]
  from transcription_ready_enqueues
    [where verifyWebhook = accept_all and req = signed_request and driver = strict_driver
       and parse = "parse_as transcript_event" and p = transcript_event
       and j = "JString ''https://x/t.jsonl''" and url = "''https://x/t.jsonl''"
       and u = "Some ''https://x/t.jsonl''" and mid = "''m1''" and s = "store processing"
       and now = 7] h0 h1 h2 h3 h4 h5
  have "POST accept_all (parse_as transcript_event) strict_driver 7 signed_request
       (store processing) =
      (Responds (Response 200 StatusOk),
       (store processing)\<lparr>meetings := update_where (\<lambda>m. meeting_id m = ''m1'')
                       (\<lambda>m. m\<lparr>transcriptUrl := Some ''https://x/t.jsonl''\<rparr>) (meetings (store processing)),
         sent := sent (store processing) @ [\<lparr>name = ''meetings/processing'', data_meetingId = ''m1'',
                            data_transcriptUrl = Some ''https://x/t.jsonl''\<rparr>]\<rparr>)"
    by blast
  moreover have "update_where (\<lambda>m. meeting_id m = ''m1'')
                       (\<lambda>m. m\<lparr>transcriptUrl := Some ''https://x/t.jsonl''\<rparr>) (meetings (store processing))
      = [(meeting_m1 processing)\<lparr>transcriptUrl := Some ''https://x/t.jsonl''\<rparr>]"
    by (simp add: update_where_def store_def meeting_m1_def)
  moreover have "sent (store processing) = []" by (simp add: store_def)
  ultimately have "POST accept_all (parse_as transcript_event) strict_driver 7 signed_request
       (store processing) =
       (Responds (Response 200 StatusOk),
        (store processing)
          \<lparr>meetings := [(meeting_m1 processing)\<lparr>transcriptUrl := Some ''https://x/t.jsonl''\<rparr>],
           sent := [\<lparr>name = ''meetings/processing'', data_meetingId = ''m1'',
                     data_transcriptUrl = Some ''https://x/t.jsonl''\<rparr>]\<rparr>)"
    by simp
  with h0 h1 h2 h3 h4 h5 show ?thesis by (intro conjI)
qed

section \<open>Error paths of the webhook\<close>

text \<open>
  C2, as the claim states it, fails: a \<^verbatim>\<open>call.session_started\<close> delivery for an upcoming
  meeting whose agent row is missing is answered 404 \<^verbatim>\<open>Agent not found\<close>, yet the
  meeting has already been set to active.
\<close>

theorem agent_not_found_counterexample:
  "fst (POST accept_all (parse_as start_event) strict_driver 7 signed_request store_without_agent)
     = Responds (Response 404 (Error ''Agent not found''))
   \<and> map status (meetings store_without_agent) = [upcoming]
   \<and> map status
       (meetings (snd (POST accept_all (parse_as start_event) strict_driver 7 signed_request
                         store_without_agent)))
     = [active]"
  unfolding start_without_agent
  by (simp add: store_without_agent_def meeting_m1_def)

text \<open>
  C2, amended. An authentic, parsed delivery is answered with the acknowledgement or with
  a client error, or the handler throws and answers nothing. Whatever the outcome other
  than the acknowledgement and \<^verbatim>\<open>Agent not found\<close>, the state is as it was;
  \<^verbatim>\<open>Agent not found\<close> is returned by the session-started branch only, after the rows of
  the meeting were set to active. Branch by branch, with the state unchanged in each:
  a meeting id that reads as a falsy value is answered 400 (session-started,
  session-ended, participant-left); a session-started delivery whose id is bound as NULL
  or matches no row it may start is answered 404 \<^verbatim>\<open>Meeting not found\<close>; a
  transcription-ready delivery that updates no row is answered 400
  \<^verbatim>\<open>Meeting not found \<close>; and a delivery of a handled kind throws when the fields its
  branch reads cannot be read (\<^verbatim>\<open>call\<close> is missing or null, \<^verbatim>\<open>call_cid\<close> is not a string,
  the URL's enclosing object is missing or has no \<^verbatim>\<open>url\<close>) or when the driver refuses the
  value. A session-started delivery that finds a row to start sets the rows of the id
  to active and is acknowledged when the row's agent exists. Every other path returns
  the acknowledgement: session-ended and participant-left with a meeting id,
  transcription-ready that updates a row, recording-ready, and, with the state unchanged,
  every other kind. A client error comes from the branches named above only: a
  delivery answered with one is a session-started, session-ended or participant-left
  delivery with a falsy meeting id, a session-started delivery that finds no row to
  start or no agent for the row it starts, or a transcription-ready delivery that
  updates no row.
\<close>

theorem webhook_error_paths:
  assumes auth: "authentic verifyWebhook req" and p: "parse (body req) = Some p"
  shows "(fst (POST verifyWebhook parse driver now req s) = Responds (Response 200 StatusOk)
            \<or> fst (POST verifyWebhook parse driver now req s) = Uncaught
            \<or> (\<exists>r. fst (POST verifyWebhook parse driver now req s) = Responds r
                  \<and> client_error r))
       \<and> (fst (POST verifyWebhook parse driver now req s) \<noteq> Responds (Response 200 StatusOk)
            \<and> fst (POST verifyWebhook parse driver now req s)
                 \<noteq> Responds (Response 404 (Error ''Agent not found''))
            \<longrightarrow> snd (POST verifyWebhook parse driver now req s) = s)
       \<and> (fst (POST verifyWebhook parse driver now req s)
              = Responds (Response 404 (Error ''Agent not found''))
            \<longrightarrow> (\<exists>v mid m. payload_type p = Some (JString ''call.session_started'')
                  \<and> call_custom_meetingId p = Some v \<and> \<not> falsy_js v
                  \<and> where_param driver v = SqlText mid
                  \<and> find (startable mid) (meetings s) = Some m
                  \<and> agentId m \<notin> agent_id ` set (agents s)
                  \<and> snd (POST verifyWebhook parse driver now req s) =
                      s\<lparr>meetings := update_where (\<lambda>m. meeting_id m = mid)
                           (\<lambda>m. m\<lparr>status := active, startedAt := Some now\<rparr>) (meetings s)\<rparr>))
       \<and> ((payload_type p = Some (JString ''call.session_started'')
              \<or> payload_type p = Some (JString ''call.session_ended''))
            \<and> call_custom_meetingId p = Some v \<and> falsy_js v
            \<longrightarrow> POST verifyWebhook parse driver now req s =
                  (Responds (Response 400 (Error ''Missing meetingId'')), s))
       \<and> (payload_type p = Some (JString ''call.session_participant_left'')
            \<and> call_cid_meetingId p = Some w \<and> falsy w
            \<longrightarrow> POST verifyWebhook parse driver now req s =
                  (Responds (Response 400 (Error ''Missing meetingId '')), s))
       \<and> (payload_type p = Some (JString ''call.session_started'')
            \<and> call_custom_meetingId p = Some v \<and> \<not> falsy_js v
            \<and> (where_param driver v = SqlNull
                 \<or> where_param driver v = SqlText mid
                    \<and> (\<forall>m\<in>set (meetings s). \<not> (meeting_id m = mid
                          \<and> status m \<notin> {completed, active, cancelled, processing})))
            \<longrightarrow> POST verifyWebhook parse driver now req s =
                  (Responds (Response 404 (Error ''Meeting not found'')), s))
       \<and> (payload_type p = Some (JString ''call.session_started'')
            \<and> call_custom_meetingId p = Some v \<and> \<not> falsy_js v
            \<and> where_param driver v = SqlText mid
            \<and> find (startable mid) (meetings s) = Some m
            \<longrightarrow> POST verifyWebhook parse driver now req s =
                  (if agentId m \<in> agent_id ` set (agents s)
                   then Responds (Response 200 StatusOk)
                   else Responds (Response 404 (Error ''Agent not found'')),
                   s\<lparr>meetings := update_where (\<lambda>m. meeting_id m = mid)
                        (\<lambda>m. m\<lparr>status := active, startedAt := Some now\<rparr>) (meetings s)\<rparr>))
       \<and> (payload_type p = Some (JString ''call.transcription_ready'')
            \<and> call_cid_meetingId p = Some w
            \<and> nested_url ''call_transcription'' p = Some (Some j)
            \<and> sql_param_of driver j \<noteq> Unbindable
            \<and> (\<forall>m\<in>set (meetings s). \<not> eq_id (meeting_id m) w)
            \<longrightarrow> POST verifyWebhook parse driver now req s =
                  (Responds (Response 400 (Error ''Meeting not found '')), s))
       \<and> ((payload_type p = Some (JString ''call.session_started'')
              \<or> payload_type p = Some (JString ''call.session_ended''))
            \<and> (call_custom_meetingId p = None
                 \<or> call_custom_meetingId p = Some v \<and> \<not> falsy_js v
                    \<and> where_param driver v = Unbindable)
            \<longrightarrow> POST verifyWebhook parse driver now req s = (Uncaught, s))
       \<and> (payload_type p = Some (JString ''call.session_participant_left'')
            \<and> call_cid_meetingId p = None
            \<longrightarrow> POST verifyWebhook parse driver now req s = (Uncaught, s))
       \<and> ((payload_type p = Some (JString ''call.transcription_ready'')
                \<and> k = ''call_transcription''
              \<or> payload_type p = Some (JString ''call.recording_ready'')
                \<and> k = ''call_recording'')
            \<and> (call_cid_meetingId p = None \<or> nested_url k p = None
                 \<or> nested_url k p = Some None
                 \<or> nested_url k p = Some (Some j) \<and> sql_param_of driver j = Unbindable)
            \<longrightarrow> POST verifyWebhook parse driver now req s = (Uncaught, s))
       \<and> (payload_type p = Some (JString ''call.session_ended'')
            \<and> call_custom_meetingId p = Some v \<and> \<not> falsy_js v
            \<and> where_param driver v \<noteq> Unbindable
            \<longrightarrow> fst (POST verifyWebhook parse driver now req s)
                  = Responds (Response 200 StatusOk))
       \<and> (payload_type p = Some (JString ''call.session_participant_left'')
            \<and> call_cid_meetingId p = Some w \<and> \<not> falsy w
            \<longrightarrow> fst (POST verifyWebhook parse driver now req s)
                  = Responds (Response 200 StatusOk))
       \<and> (payload_type p = Some (JString ''call.transcription_ready'')
            \<and> call_cid_meetingId p = Some w
            \<and> nested_url ''call_transcription'' p = Some (Some j)
            \<and> sql_param_of driver j \<noteq> Unbindable
            \<and> (\<exists>m\<in>set (meetings s). eq_id (meeting_id m) w)
            \<longrightarrow> fst (POST verifyWebhook parse driver now req s)
                  = Responds (Response 200 StatusOk))
       \<and> (payload_type p = Some (JString ''call.recording_ready'')
            \<and> call_cid_meetingId p = Some w
            \<and> nested_url ''call_recording'' p = Some (Some j)
            \<and> sql_param_of driver j \<noteq> Unbindable
            \<longrightarrow> fst (POST verifyWebhook parse driver now req s)
                  = Responds (Response 200 StatusOk))
       \<and> (payload_type p \<notin> {Some (JString ''call.session_started''),
                               Some (JString ''call.session_participant_left''),
                               Some (JString ''call.session_ended''),
                               Some (JString ''call.transcription_ready''),
                               Some (JString ''call.recording_ready'')}
            \<longrightarrow> POST verifyWebhook parse driver now req s
                  = (Responds (Response 200 StatusOk), s))
       \<and> ((\<exists>r. fst (POST verifyWebhook parse driver now req s) = Responds r
                \<and> client_error r)
            \<longrightarrow> ((payload_type p = Some (JString ''call.session_started'')
                    \<or> payload_type p = Some (JString ''call.session_ended''))
                  \<and> (\<exists>v. call_custom_meetingId p = Some v \<and> falsy_js v))
               \<or> (payload_type p = Some (JString ''call.session_participant_left'')
                  \<and> (\<exists>w. call_cid_meetingId p = Some w \<and> falsy w))
               \<or> (payload_type p = Some (JString ''call.session_started'')
                  \<and> (\<exists>v. call_custom_meetingId p = Some v \<and> \<not> falsy_js v
                        \<and> (where_param driver v = SqlNull
                             \<or> (\<exists>mid. where_param driver v = SqlText mid
                                   \<and> (\<forall>m\<in>set (meetings s). \<not> startable mid m)))))
               \<or> (payload_type p = Some (JString ''call.session_started'')
                  \<and> (\<exists>v mid m. call_custom_meetingId p = Some v \<and> \<not> falsy_js v
                        \<and> where_param driver v = SqlText mid
                        \<and> find (startable mid) (meetings s) = Some m
                        \<and> agentId m \<notin> agent_id ` set (agents s)))
               \<or> (payload_type p = Some (JString ''call.transcription_ready'')
                  \<and> (\<exists>w j. call_cid_meetingId p = Some w
                        \<and> nested_url ''call_transcription'' p = Some (Some j)
                        \<and> sql_param_of driver j \<noteq> Unbindable
                        \<and> (\<forall>m\<in>set (meetings s). \<not> eq_id (meeting_id m) w))))"
    (is "?A \<and> ?B \<and> ?C \<and> ?D \<and> ?E \<and> ?F \<and> ?G \<and> ?H \<and> ?I \<and> ?J \<and> ?K \<and> ?L \<and> ?M \<and> ?N
          \<and> ?O \<and> ?P \<and> ?Q")
proof -
  note post = POST_authentic [where parse = parse and req = req and driver = driver
      and now = now and s = s, OF auth p]
  note pf = POST_fst [where parse = parse and req = req and driver = driver
      and now = now and s = s, OF auth p]
  note ps = POST_snd [where parse = parse and req = req and driver = driver
      and now = now and s = s, OF auth p]
  let ?d = "dispatch driver now p s"
  from dispatch_outcome [of driver now p s] have abc: "?A \<and> ?B \<and> ?C"
  proof (elim disjE conjE exE)
    assume "fst ?d = Continues"
    then show ?thesis unfolding pf ps by simp
  next
    assume "?d = (Throws, s)"
    then show ?thesis unfolding pf ps by simp
  next
    assume "fst ?d \<in>
         {Returns (Response 400 (Error ''Missing meetingId'')),
          Returns (Response 400 (Error ''Missing meetingId '')),
          Returns (Response 404 (Error ''Meeting not found'')),
          Returns (Response 400 (Error ''Meeting not found ''))}" "snd ?d = s"
    then show ?thesis unfolding pf ps by (auto simp: client_error_def)
  next
    fix v mid m
    assume agent: "payload_type p = Some (JString ''call.session_started'')"
        "call_custom_meetingId p = Some v" "\<not> falsy_js v"
        "where_param driver v = SqlText mid"
        "find (startable mid) (meetings s) = Some m"
        "agentId m \<notin> agent_id ` set (agents s)"
        "?d = (Returns (Response 404 (Error ''Agent not found'')),
             s\<lparr>meetings := update_where (\<lambda>m. meeting_id m = mid)
                  (\<lambda>m. m\<lparr>status := active, startedAt := Some now\<rparr>) (meetings s)\<rparr>)"
    from agent(7) have a: "?A" and b: "?B" unfolding pf ps by (simp_all add: client_error_def)
    from agent have "?C" unfolding pf ps by (intro impI exI [of _ v] exI [of _ mid] exI [of _ m]) simp
    with a b show ?thesis by (intro conjI)
  qed
  have d: ?D
  proof (intro impI, elim conjE disjE)
    assume "payload_type p = Some (JString ''call.session_started'')"
      "call_custom_meetingId p = Some v" "falsy_js v"
    then show "POST verifyWebhook parse driver now req s =
                  (Responds (Response 400 (Error ''Missing meetingId'')), s)"
      unfolding post by (simp add: dispatch_session_started session_started_leaves(2))
  next
    assume "payload_type p = Some (JString ''call.session_ended'')"
      "call_custom_meetingId p = Some v" "falsy_js v"
    then show "POST verifyWebhook parse driver now req s =
                  (Responds (Response 400 (Error ''Missing meetingId'')), s)"
      unfolding post by (simp add: dispatch_session_ended session_ended_leaves(2))
  qed
  have e: ?E
    unfolding post
    by (simp add: dispatch_session_participant_left session_participant_left_leaves(2))
  have f: ?F
  proof (intro impI, elim conjE disjE)
    assume "payload_type p = Some (JString ''call.session_started'')"
      "call_custom_meetingId p = Some v" "\<not> falsy_js v" "where_param driver v = SqlNull"
    then show "POST verifyWebhook parse driver now req s =
                  (Responds (Response 404 (Error ''Meeting not found'')), s)"
      unfolding post by (simp add: dispatch_session_started session_started_leaves(4))
  next
    assume k: "payload_type p = Some (JString ''call.session_started'')"
      and r: "call_custom_meetingId p = Some v" "\<not> falsy_js v"
        "where_param driver v = SqlText mid"
      and n: "\<forall>m\<in>set (meetings s). \<not> (meeting_id m = mid
                          \<and> status m \<notin> {completed, active, cancelled, processing})"
    from n have "find (startable mid) (meetings s) = None"
      unfolding find_none startable_def .
    from start_meeting_not_found [OF this, of now]
    show "POST verifyWebhook parse driver now req s =
                  (Responds (Response 404 (Error ''Meeting not found'')), s)"
      unfolding post dispatch_session_started [OF k] session_started_text [OF r] by simp
  qed
  have g: ?G
  proof (intro impI, elim conjE)
    assume k: "payload_type p = Some (JString ''call.session_started'')"
      and r: "call_custom_meetingId p = Some v" "\<not> falsy_js v"
        "where_param driver v = SqlText mid"
      and m: "find (startable mid) (meetings s) = Some m"
    from start_meeting_found [OF m, of now]
    show "POST verifyWebhook parse driver now req s =
                  (if agentId m \<in> agent_id ` set (agents s)
                   then Responds (Response 200 StatusOk)
                   else Responds (Response 404 (Error ''Agent not found'')),
                   s\<lparr>meetings := update_where (\<lambda>m. meeting_id m = mid)
                        (\<lambda>m. m\<lparr>status := active, startedAt := Some now\<rparr>) (meetings s)\<rparr>)"
      unfolding post dispatch_session_started [OF k] session_started_text [OF r] by simp
  qed
  have h: ?H
  proof (intro impI, elim conjE)
    assume k: "payload_type p = Some (JString ''call.transcription_ready'')"
      and r: "call_cid_meetingId p = Some w"
        "nested_url ''call_transcription'' p = Some (Some j)"
        "sql_param_of driver j \<noteq> Unbindable"
      and n: "\<forall>m\<in>set (meetings s). \<not> eq_id (meeting_id m) w"
    show "POST verifyWebhook parse driver now req s =
                  (Responds (Response 400 (Error ''Meeting not found '')), s)"
      unfolding post dispatch_transcription_ready [OF k] transcription_ready_leaves(1) [OF r n]
      by simp
  qed
  have i: ?I
  proof (intro impI, elim conjE disjE)
    assume "payload_type p = Some (JString ''call.session_started'')"
      "call_custom_meetingId p = None"
    then show "POST verifyWebhook parse driver now req s = (Uncaught, s)"
      unfolding post by (simp add: dispatch_session_started session_started_leaves(1))
  next
    assume "payload_type p = Some (JString ''call.session_started'')"
      "call_custom_meetingId p = Some v" "\<not> falsy_js v" "where_param driver v = Unbindable"
    then show "POST verifyWebhook parse driver now req s = (Uncaught, s)"
      unfolding post by (simp add: dispatch_session_started session_started_leaves(3))
  next
    assume "payload_type p = Some (JString ''call.session_ended'')"
      "call_custom_meetingId p = None"
    then show "POST verifyWebhook parse driver now req s = (Uncaught, s)"
      unfolding post by (simp add: dispatch_session_ended session_ended_leaves(1))
  next
    assume "payload_type p = Some (JString ''call.session_ended'')"
      "call_custom_meetingId p = Some v" "\<not> falsy_js v" "where_param driver v = Unbindable"
    then show "POST verifyWebhook parse driver now req s = (Uncaught, s)"
      unfolding post by (simp add: dispatch_session_ended session_ended_leaves(3))
  qed
  have j: ?J
    unfolding post
    by (simp add: dispatch_session_participant_left session_participant_left_leaves(1))
  have k: ?K
  proof (intro impI, elim conjE)
    assume kind: "payload_type p = Some (JString ''call.transcription_ready'')
                \<and> k = ''call_transcription''
              \<or> payload_type p = Some (JString ''call.recording_ready'')
                \<and> k = ''call_recording''"
      and t: "call_cid_meetingId p = None \<or> nested_url k p = None
                 \<or> nested_url k p = Some None
                 \<or> nested_url k p = Some (Some j) \<and> sql_param_of driver j = Unbindable"
    from kind show "POST verifyWebhook parse driver now req s = (Uncaught, s)"
    proof (elim disjE conjE)
      assume kk: "payload_type p = Some (JString ''call.transcription_ready'')"
        "k = ''call_transcription''"
      from t have "transcription_ready driver p s = (Throws, s)"
        unfolding kk(2) by (rule transcription_ready_throws)
      then show ?thesis unfolding post dispatch_transcription_ready [OF kk(1)] by simp
    next
      assume kk: "payload_type p = Some (JString ''call.recording_ready'')"
        "k = ''call_recording''"
      from t have "recording_ready driver p s = (Throws, s)"
        unfolding kk(2) by (rule recording_ready_throws)
      then show ?thesis unfolding post dispatch_recording_ready [OF kk(1)] by simp
    qed
  qed
  have l: ?L
    unfolding pf by (simp add: dispatch_session_ended session_ended_leaves(4))
  have m: ?M
    unfolding pf
    by (simp add: dispatch_session_participant_left session_participant_left_leaves(3))
  have n: ?N
  proof (intro impI, elim conjE)
    assume k: "payload_type p = Some (JString ''call.transcription_ready'')"
      and r: "call_cid_meetingId p = Some w"
        "nested_url ''call_transcription'' p = Some (Some j)"
        "sql_param_of driver j \<noteq> Unbindable"
      and n: "\<exists>m\<in>set (meetings s). eq_id (meeting_id m) w"
    show "fst (POST verifyWebhook parse driver now req s) = Responds (Response 200 StatusOk)"
      unfolding pf dispatch_transcription_ready [OF k] transcription_ready_leaves(2) [OF r n]
      by simp
  qed
  have o: ?O
  proof (intro impI, elim conjE)
    assume k: "payload_type p = Some (JString ''call.recording_ready'')"
      and r: "call_cid_meetingId p = Some w"
        "nested_url ''call_recording'' p = Some (Some j)"
        "sql_param_of driver j \<noteq> Unbindable"
    show "fst (POST verifyWebhook parse driver now req s) = Responds (Response 200 StatusOk)"
      unfolding pf dispatch_recording_ready [OF k] recording_ready_bound [OF r]
      by simp
  qed
  have pp: ?P
    unfolding post by (simp add: dispatch_unhandled)
  have q: ?Q
  proof (intro impI, elim exE conjE)
    fix r
    assume r: "fst (POST verifyWebhook parse driver now req s) = Responds r"
      and ce: "client_error r"
    have "fst ?d = Returns r"
    proof (cases "fst ?d")
      case (Returns r')
      with r show ?thesis unfolding pf by simp
    next
      case Continues
      with r ce show ?thesis unfolding pf by (auto simp: client_error_def)
    next
      case Throws
      with r show ?thesis unfolding pf by simp
    qed
    then show "((payload_type p = Some (JString ''call.session_started'')
                    \<or> payload_type p = Some (JString ''call.session_ended''))
                  \<and> (\<exists>v. call_custom_meetingId p = Some v \<and> falsy_js v))
               \<or> (payload_type p = Some (JString ''call.session_participant_left'')
                  \<and> (\<exists>w. call_cid_meetingId p = Some w \<and> falsy w))
               \<or> (payload_type p = Some (JString ''call.session_started'')
                  \<and> (\<exists>v. call_custom_meetingId p = Some v \<and> \<not> falsy_js v
                        \<and> (where_param driver v = SqlNull
                             \<or> (\<exists>mid. where_param driver v = SqlText mid
                                   \<and> (\<forall>m\<in>set (meetings s). \<not> startable mid m)))))
               \<or> (payload_type p = Some (JString ''call.session_started'')
                  \<and> (\<exists>v mid m. call_custom_meetingId p = Some v \<and> \<not> falsy_js v
                        \<and> where_param driver v = SqlText mid
                        \<and> find (startable mid) (meetings s) = Some m
                        \<and> agentId m \<notin> agent_id ` set (agents s)))
               \<or> (payload_type p = Some (JString ''call.transcription_ready'')
                  \<and> (\<exists>w j. call_cid_meetingId p = Some w
                        \<and> nested_url ''call_transcription'' p = Some (Some j)
                        \<and> sql_param_of driver j \<noteq> Unbindable
                        \<and> (\<forall>m\<in>set (meetings s). \<not> eq_id (meeting_id m) w)))"
      by (rule dispatch_returns)
  qed
  from abc have a: ?A and b: ?B and c: ?C by blast+
  from a b c d e f g h i j k l m n o pp q show ?thesis by (intro conjI)
qed

theorem webhook_error_paths_witness:
  "authentic accept_all signed_request
   \<and> parse_as start_event (body signed_request) = Some start_event
   \<and> payload_type start_event = Some (JString ''call.session_started'')
   \<and> call_custom_meetingId start_event = Some (Some (JString ''m1''))
   \<and> \<not> falsy_js (Some (JString ''m1''))
   \<and> where_param strict_driver (Some (JString ''m1'')) = SqlText ''m1''
   \<and> find (startable ''m1'') (meetings store_without_agent) = Some (meeting_m1 upcoming)
   \<and> POST accept_all (parse_as start_event) strict_driver 7 signed_request store_without_agent =
       (Responds (Response 404 (Error ''Agent not found'')),
        store_without_agent
          \<lparr>meetings := [(meeting_m1 upcoming)\<lparr>status := active, startedAt := Some 7\<rparr>]\<rparr>)
   \<and> parse_as bare_start_event (body signed_request) = Some bare_start_event
   \<and> payload_type bare_start_event = Some (JString ''call.session_started'')
   \<and> call_custom_meetingId bare_start_event = None
   \<and> POST accept_all (parse_as bare_start_event) strict_driver 7 signed_request (store upcoming)
       = (Uncaught, store upcoming)"
proof -
  have k: "payload_type start_event = Some (JString ''call.session_started'')"
    and i: "call_custom_meetingId start_event = Some (Some (JString ''m1''))"
    by (simp_all add: start_event_def started_payload_reads)
  have t: "\<not> falsy_js (Some (JString ''m1''))" by simp
  note w = where_param_string [of strict_driver "''m1''"]
  have f: "find (startable ''m1'') (meetings store_without_agent) = Some (meeting_m1 upcoming)"
    by (simp add: store_without_agent_def startable_def meeting_m1_def)
  note ps = parse_as_body [of start_event signed_request]
  note pb = parse_as_body [of bare_start_event signed_request]
  note g = webhook_error_paths
    [where verifyWebhook = accept_all and req = signed_request and parse = "parse_as start_event"
       and driver = strict_driver and p = start_event and now = 7 and s = store_without_agent
       and v = "Some (JString ''m1'')" and mid = "''m1''" and m = "meeting_m1 upcoming",
     OF authentic_signed ps, THEN conjunct2, THEN conjunct2, THEN conjunct2, THEN conjunct2,
     THEN conjunct2, THEN conjunct2, THEN conjunct1, rule_format, OF conjI, OF k conjI,
     OF i conjI, OF t conjI, OF w f]
  have run: "POST accept_all (parse_as start_event) strict_driver 7 signed_request
      store_without_agent =
       (Responds (Response 404 (Error ''Agent not found'')),
        store_without_agent
          \<lparr>meetings := [(meeting_m1 upcoming)\<lparr>status := active, startedAt := Some 7\<rparr>]\<rparr>)"
    unfolding g by (simp add: store_without_agent_def meeting_m1_def update_where_def)
  note th = webhook_error_paths
    [where verifyWebhook = accept_all and req = signed_request
       and parse = "parse_as bare_start_event" and driver = strict_driver
       and p = bare_start_event and now = 7 and s = "store upcoming",
     OF authentic_signed pb, THEN conjunct2, THEN conjunct2, THEN conjunct2, THEN conjunct2,
     THEN conjunct2, THEN conjunct2, THEN conjunct2, THEN conjunct2, THEN conjunct1,
     rule_format, OF conjI, OF disjI1 disjI1, OF bare_start_event_reads]
  from authentic_signed ps k i t w f run pb bare_start_event_reads th show ?thesis
    by (intro conjI)
qed

section \<open>Session-started deliveries\<close>

text \<open>
  C3. An authentic \<^verbatim>\<open>call.session_started\<close> delivery for a meeting id (a non-empty
  string, or any other truthy value the driver binds as a text) changes the state only
  when some row has that id and a status outside completed, active, cancelled and
  processing, and then sets the rows of that id to active. Whatever the first delivery
  did, the same delivery repeated right after it is answered 404 \<^verbatim>\<open>Meeting not found\<close>
  and changes nothing: the status is set to active at most once.
\<close>

theorem session_started_twice:
  assumes "authentic verifyWebhook req"
    and "parse (body req) = Some p"
    and "payload_type p = Some (JString ''call.session_started'')"
    and "call_custom_meetingId p = Some v"
    and "\<not> falsy_js v"
    and "where_param driver v = SqlText mid"
  shows "(snd (POST verifyWebhook parse driver t1 req s) \<noteq> s \<longrightarrow>
            (\<exists>m\<in>set (meetings s). meeting_id m = mid
                \<and> status m \<notin> {completed, active, cancelled, processing}))
       \<and> ((\<exists>m\<in>set (meetings s). meeting_id m = mid
                \<and> status m \<notin> {completed, active, cancelled, processing}) \<longrightarrow>
            snd (POST verifyWebhook parse driver t1 req s) =
              s\<lparr>meetings := update_where (\<lambda>m. meeting_id m = mid)
                   (\<lambda>m. m\<lparr>status := active, startedAt := Some t1\<rparr>) (meetings s)\<rparr>)
       \<and> POST verifyWebhook parse driver t2 req (snd (POST verifyWebhook parse driver t1 req s)) =
            (Responds (Response 404 (Error ''Meeting not found'')),
             snd (POST verifyWebhook parse driver t1 req s))"
proof -
  let ?s1 = "snd (POST verifyWebhook parse driver t1 req s)"
  have ex: "(\<exists>m\<in>set (meetings s). meeting_id m = mid
                \<and> status m \<notin> {completed, active, cancelled, processing})
            \<longleftrightarrow> (\<exists>m\<in>set (meetings s). startable mid m)"
    by (simp add: startable_def)
  have d: "dispatch driver t p x = start_meeting t (Some mid) x" for t x
    unfolding dispatch_session_started [OF assms(3)]
    by (rule session_started_text [OF assms(4,5,6)])
  have s1: "?s1 = (if \<exists>m\<in>set (meetings s). startable mid m
      then s\<lparr>meetings := update_where (\<lambda>m. meeting_id m = mid)
             (\<lambda>m. m\<lparr>status := active, startedAt := Some t1\<rparr>) (meetings s)\<rparr>
      else s)"
    unfolding POST_snd [where parse = parse and req = req, OF assms(1,2)] d
    by (rule start_meeting_snd)
  have none: "\<forall>m\<in>set (meetings ?s1). \<not> startable mid m"
  proof (cases "\<exists>m\<in>set (meetings s). startable mid m")
    case True
    with s1 have "meetings ?s1 = update_where (\<lambda>m. meeting_id m = mid)
             (\<lambda>m. m\<lparr>status := active, startedAt := Some t1\<rparr>) (meetings s)"
      by simp
    then show ?thesis using started_not_startable by metis
  next
    case False
    with s1 show ?thesis by simp
  qed
  then have "find (startable mid) (meetings ?s1) = None" unfolding find_none .
  from start_meeting_not_found [OF this, of t2]
  have second: "POST verifyWebhook parse driver t2 req ?s1 =
      (Responds (Response 404 (Error ''Meeting not found'')), ?s1)"
    unfolding POST_authentic [where parse = parse and req = req and s = ?s1, OF assms(1,2)] d
    by simp
  from s1 ex second show ?thesis by auto
qed

theorem session_started_twice_witness:
  "authentic accept_all signed_request
   \<and> parse_as start_event (body signed_request) = Some start_event
   \<and> payload_type start_event = Some (JString ''call.session_started'')
   \<and> call_custom_meetingId start_event = Some (Some (JString ''m1''))
   \<and> \<not> falsy_js (Some (JString ''m1''))
   \<and> where_param strict_driver (Some (JString ''m1'')) = SqlText ''m1''
   \<and> POST accept_all (parse_as start_event) strict_driver 7 signed_request (store upcoming) =
       (Responds (Response 200 StatusOk),
        (store upcoming)\<lparr>meetings := [(meeting_m1 upcoming)\<lparr>status := active, startedAt := Some 7\<rparr>]\<rparr>)
   \<and> POST accept_all (parse_as start_event) strict_driver 9 signed_request
         (snd (POST accept_all (parse_as start_event) strict_driver 7 signed_request
                 (store upcoming))) =
       (Responds (Response 404 (Error ''Meeting not found'')),
        (store upcoming)\<lparr>meetings := [(meeting_m1 upcoming)\<lparr>status := active, startedAt := Some 7\<rparr>]\<rparr>)"
proof -
  have k: "payload_type start_event = Some (JString ''call.session_started'')"
    and i: "call_custom_meetingId start_event = Some (Some (JString ''m1''))"
    by (simp_all add: start_event_def started_payload_reads)
  have t: "\<not> falsy_js (Some (JString ''m1''))" by simp
  note w = where_param_string [of strict_driver "''m1''"]
  note p = parse_as_body [of start_event signed_request]
  note first = start_event_run [of 7]
  from session_started_twice
    [where verifyWebhook = accept_all and req = signed_request and parse = "parse_as start_event"
       and driver = strict_driver and ?t1.0 = 7 and ?t2.0 = 9 and s = "store upcoming",
     OF authentic_signed p k i t w]
  have "POST accept_all (parse_as start_event) strict_driver 9 signed_request
         (snd (POST accept_all (parse_as start_event) strict_driver 7 signed_request
                 (store upcoming))) =
       (Responds (Response 404 (Error ''Meeting not found'')),
        snd (POST accept_all (parse_as start_event) strict_driver 7 signed_request
                 (store upcoming)))"
    by blast
  then have "POST accept_all (parse_as start_event) strict_driver 9 signed_request
         (snd (POST accept_all (parse_as start_event) strict_driver 7 signed_request
                 (store upcoming))) =
       (Responds (Response 404 (Error ''Meeting not found'')),
        (store upcoming)\<lparr>meetings := [(meeting_m1 upcoming)\<lparr>status := active, startedAt := Some 7\<rparr>]\<rparr>)"
    unfolding first snd_conv .
  with authentic_signed p k i t w first show ?thesis by (intro conjI)
qed

section \<open>What the pipeline persists\<close>

text \<open>
  C4, as the claim states it, fails: when the generation call returns without text, the
  run succeeds, stores the placeholder \<^verbatim>\<open>Summary generation failed\<close> as the summary and
  marks the meeting completed.
\<close>

theorem placeholder_summary_counterexample:
  "generate_empty
      (summary_request (stringify_sample (add_speakers (store processing) sample_transcript)))
     = Inr None
   \<and> meetingsProcessing fetch_sample parse_sample stringify_sample generate_empty job_m1
       (store processing) =
       (None,
        (store processing)
          \<lparr>meetings := [(meeting_m1 processing)
             \<lparr>summary := Some ''Summary generation failed'', status := completed\<rparr>]\<rparr>)"
  unfolding empty_run save_summary_store by (simp add: generate_empty_def)

text \<open>
  C4, amended. A run that succeeds has fetched and parsed the transcript, its
  generation call has returned without throwing, and it has written one non-empty
  summary to the rows of the meeting and set them to completed: the generated text when
  there is one, the literal placeholder \<^verbatim>\<open>Summary generation failed\<close> when the call
  returned no or empty text. A run that fails leaves the state as it was; when the
  generation call throws, the run fails with
  \<^verbatim>\<open>Failed to generate summary with Gemini\<close>, so neither the summary nor the status is
  written.
\<close>

theorem summary_persisted:
  "(fst (meetingsProcessing fetch_text JSONL_parse JSON_stringify generateContent event s) = None
      \<longrightarrow> (\<exists>response_text transcript result_text txt.
             fetch_text (data_transcriptUrl event) = Some response_text
           \<and> JSONL_parse response_text = Some transcript
           \<and> generateContent (summary_request (JSON_stringify (add_speakers s transcript)))
               = Inr result_text
           \<and> (result_text = Some txt
                \<or> (result_text = None \<or> result_text = Some [])
                    \<and> txt = ''Summary generation failed'')
           \<and> txt \<noteq> []
           \<and> snd (meetingsProcessing fetch_text JSONL_parse JSON_stringify generateContent event s)
               = save_summary (data_meetingId event) txt s))
   \<and> (fst (meetingsProcessing fetch_text JSONL_parse JSON_stringify generateContent event s) \<noteq> None
      \<longrightarrow> snd (meetingsProcessing fetch_text JSONL_parse JSON_stringify generateContent event s) = s)
   \<and> (fetch_text (data_transcriptUrl event) = Some raw
        \<and> JSONL_parse raw = Some items
        \<and> generateContent (summary_request (JSON_stringify (add_speakers s items))) = Inl e
      \<longrightarrow> meetingsProcessing fetch_text JSONL_parse JSON_stringify generateContent event s
            = (Some (GenerateSummaryFailed ''Failed to generate summary with Gemini''), s))
   \<and> (\<forall>m'\<in>set (meetings (save_summary mid summary_text s)).
         meeting_id m' = mid \<longrightarrow> summary m' = Some summary_text \<and> status m' = completed)"
    (is "?A \<and> ?B \<and> ?C \<and> ?D")
proof -
  let ?run = "meetingsProcessing fetch_text JSONL_parse JSON_stringify generateContent event s"
  have a: ?A
  proof
    assume ok: "fst ?run = None"
    then obtain response_text where f: "fetch_text (data_transcriptUrl event) = Some response_text"
      by (cases "fetch_text (data_transcriptUrl event)") (simp_all add: meetingsProcessing_def)
    with ok obtain transcript where p: "JSONL_parse response_text = Some transcript"
      by (cases "JSONL_parse response_text") (simp_all add: meetingsProcessing_def)
    let ?q = "summary_request (JSON_stringify (add_speakers s transcript))"
    from ok f p obtain result_text where g: "generateContent ?q = Inr result_text"
      by (cases "generateContent ?q") (simp_all add: meetingsProcessing_def Let_def summarize_cases)
    let ?txt = "or_else result_text ''Summary generation failed''"
    from f p g have run: "snd ?run = save_summary (data_meetingId event) ?txt s"
      by (simp add: meetingsProcessing_def Let_def summarize_cases)
    have ne: "?txt \<noteq> []" by (rule or_else_nonempty) simp
    from or_else_cases [of result_text "''Summary generation failed''"]
    have "result_text = Some ?txt
          \<or> (result_text = None \<or> result_text = Some []) \<and> ?txt = ''Summary generation failed''"
      by blast
    with f p g run ne
    show "\<exists>response_text transcript result_text txt.
             fetch_text (data_transcriptUrl event) = Some response_text
           \<and> JSONL_parse response_text = Some transcript
           \<and> generateContent (summary_request (JSON_stringify (add_speakers s transcript)))
               = Inr result_text
           \<and> (result_text = Some txt
                \<or> (result_text = None \<or> result_text = Some [])
                    \<and> txt = ''Summary generation failed'')
           \<and> txt \<noteq> []
           \<and> snd ?run = save_summary (data_meetingId event) txt s"
      by blast
  qed
  have b: ?B
    by (simp add: meetingsProcessing_def Let_def split: option.splits sum.splits)
  have c: ?C
    by (simp add: meetingsProcessing_def Let_def summarize_cases)
  have d: ?D
    using save_summary_rows by blast
  from a b c d show ?thesis by blast
qed

theorem summary_persisted_witness:
  "fetch_sample (data_transcriptUrl job_m1) = Some ''three lines''
   \<and> parse_sample ''three lines'' = Some sample_transcript
   \<and> generate_throws
       (summary_request (stringify_sample (add_speakers (store processing) sample_transcript)))
       = Inl (ErrorObject ''Error'' ''503 overloaded'')
   \<and> meetingsProcessing fetch_sample parse_sample stringify_sample generate_throws job_m1
       (store processing)
       = (Some (GenerateSummaryFailed ''Failed to generate summary with Gemini''), store processing)"
proof -
  have h: "fetch_sample (data_transcriptUrl job_m1) = Some ''three lines''
   \<and> parse_sample ''three lines'' = Some sample_transcript
   \<and> generate_throws
       (summary_request (stringify_sample (add_speakers (store processing) sample_transcript)))
       = Inl (ErrorObject ''Error'' ''503 overloaded'')"
    by (simp add: fetch_sample_def parse_sample_def generate_throws_def)
  with summary_persisted
    [where fetch_text = fetch_sample and JSONL_parse = parse_sample
       and JSON_stringify = stringify_sample and generateContent = generate_throws
       and event = job_m1 and s = "store processing" and raw = "''three lines''"
       and items = sample_transcript and e = "ErrorObject ''Error'' ''503 overloaded''"]
  show ?thesis by blast
qed

section \<open>Direction of status changes\<close>

text \<open>
  C5, as the claim states it, fails: the pipeline run for a cancelled meeting ends with
  the meeting completed, which takes it out of a terminal status.
\<close>

theorem cancelled_to_completed_counterexample:
  "map status (meetings (store cancelled)) = [cancelled]
   \<and> map status (meetings (snd (meetingsProcessing fetch_sample parse_sample stringify_sample
         generate_text job_m1 (store cancelled)))) = [completed]
   \<and> \<not> forward cancelled completed"
  unfolding sample_run save_summary_store
  by (simp add: store_def meeting_m1_def forward_def)

text \<open>
  C5, amended. On a store whose meeting ids are unique, every webhook delivery leaves
  each row's status where it was or moves it forward along the path
  \<open>upcoming \<rightarrow> active \<rightarrow> processing \<rightarrow> completed\<close>, and never out of completed or cancelled. The
  pipeline's persist step, alone or at the end of a run that succeeds, sets the status of
  every row with the id named by the job to completed, whatever it was: forward along
  the path or unchanged for a row on the path, and from cancelled to completed for a
  cancelled one. It leaves every other row exactly as it was, and a run that fails
  leaves the whole state as it was.
\<close>

theorem status_moves:
  "(distinct (map meeting_id (meetings s)) \<longrightarrow>
      list_all2 (\<lambda>m m'. forward (status m) (status m')) (meetings s)
        (meetings (snd (POST verifyWebhook parse driver now req s))))
   \<and> list_all2 (\<lambda>m m'. if meeting_id m = mid
                   then status m' = completed
                        \<and> (forward (status m) (status m') \<or> status m = cancelled)
                   else m' = m)
        (meetings s) (meetings (save_summary mid said s))
   \<and> (fst (meetingsProcessing fetch_text JSONL_parse JSON_stringify generateContent event s)
          = None \<longrightarrow>
        list_all2 (\<lambda>m m'. if meeting_id m = data_meetingId event
                     then status m' = completed
                          \<and> (forward (status m) (status m') \<or> status m = cancelled)
                     else m' = m)
          (meetings s)
          (meetings (snd (meetingsProcessing fetch_text JSONL_parse JSON_stringify
                            generateContent event s))))
   \<and> (fst (meetingsProcessing fetch_text JSONL_parse JSON_stringify generateContent event s)
          \<noteq> None \<longrightarrow>
        snd (meetingsProcessing fetch_text JSONL_parse JSON_stringify generateContent event s)
          = s)"
proof (intro conjI impI)
  assume d: "distinct (map meeting_id (meetings s))"
  show "list_all2 (\<lambda>m m'. forward (status m) (status m')) (meetings s)
        (meetings (snd (POST verifyWebhook parse driver now req s)))"
    by (rule POST_forward [OF d])
next
  show "list_all2 (\<lambda>m m'. if meeting_id m = mid
                   then status m' = completed
                        \<and> (forward (status m) (status m') \<or> status m = cancelled)
                   else m' = m)
        (meetings s) (meetings (save_summary mid said s))"
    by (rule save_summary_completes)
next
  assume "fst (meetingsProcessing fetch_text JSONL_parse JSON_stringify generateContent event s)
          = None"
  with meetingsProcessing_run
    [of fetch_text JSONL_parse JSON_stringify generateContent event s]
  obtain t where
    t: "snd (meetingsProcessing fetch_text JSONL_parse JSON_stringify generateContent event s)
          = save_summary (data_meetingId event) t s"
    by blast
  show "list_all2 (\<lambda>m m'. if meeting_id m = data_meetingId event
                     then status m' = completed
                          \<and> (forward (status m) (status m') \<or> status m = cancelled)
                     else m' = m)
          (meetings s)
          (meetings (snd (meetingsProcessing fetch_text JSONL_parse JSON_stringify
                            generateContent event s)))"
    unfolding t by (rule save_summary_completes)
next
  assume "fst (meetingsProcessing fetch_text JSONL_parse JSON_stringify generateContent event s)
          \<noteq> None"
  with meetingsProcessing_run
    [of fetch_text JSONL_parse JSON_stringify generateContent event s]
  show "snd (meetingsProcessing fetch_text JSONL_parse JSON_stringify generateContent event s)
          = s"
    by blast
qed

theorem status_moves_witness:
  "distinct (map meeting_id (meetings (store upcoming)))
   \<and> list_all2 (\<lambda>m m'. forward (status m) (status m')) (meetings (store upcoming))
       (meetings (snd (POST accept_all (parse_as start_event) strict_driver 7 signed_request
                         (store upcoming))))
   \<and> map status
       (meetings (snd (POST accept_all (parse_as start_event) strict_driver 7 signed_request
                         (store upcoming))))
       = [active]
   \<and> fst (meetingsProcessing fetch_sample parse_sample stringify_sample generate_text job_m1
            (store cancelled)) = None
   \<and> list_all2 (\<lambda>m m'. if meeting_id m = data_meetingId job_m1
                   then status m' = completed
                        \<and> (forward (status m) (status m') \<or> status m = cancelled)
                   else m' = m)
       (meetings (store cancelled))
       (meetings (snd (meetingsProcessing fetch_sample parse_sample stringify_sample
                         generate_text job_m1 (store cancelled))))
   \<and> map meeting_id (meetings (store cancelled)) = [data_meetingId job_m1]
   \<and> map status
       (meetings (snd (meetingsProcessing fetch_sample parse_sample stringify_sample
                         generate_text job_m1 (store cancelled))))
       = [completed]"
proof -
  have d: "distinct (map meeting_id (meetings (store upcoming)))"
    by (simp add: store_def)
  note w = status_moves
    [where s = "store upcoming" and verifyWebhook = accept_all and parse = "parse_as start_event"
       and driver = strict_driver and now = 7 and req = signed_request,
     THEN conjunct1, rule_format, OF d]
  have a: "map status
       (meetings (snd (POST accept_all (parse_as start_event) strict_driver 7 signed_request
                         (store upcoming))))
       = [active]"
    unfolding start_event_run by simp
  have n: "fst (meetingsProcessing fetch_sample parse_sample stringify_sample generate_text
      job_m1 (store cancelled)) = None"
    unfolding sample_run by simp
  note r = status_moves
    [where s = "store cancelled" and fetch_text = fetch_sample and JSONL_parse = parse_sample
       and JSON_stringify = stringify_sample and generateContent = generate_text
       and event = job_m1,
     THEN conjunct2, THEN conjunct2, THEN conjunct1, rule_format, OF n]
  have i: "map meeting_id (meetings (store cancelled)) = [data_meetingId job_m1]"
    by (simp add: store_def meeting_m1_def job_m1_def)
  have c: "map status
       (meetings (snd (meetingsProcessing fetch_sample parse_sample stringify_sample
                         generate_text job_m1 (store cancelled))))
       = [completed]"
    unfolding sample_run save_summary_store by simp
  from d w a n r i c show ?thesis by (intro conjI)
qed

section \<open>Signature gate\<close>

text \<open>
  C6. A request whose \<^verbatim>\<open>x-signature\<close> or \<^verbatim>\<open>x-api-key\<close> header is absent (or empty) is
  answered 400, and a request with both headers whose signature fails verification is
  answered 401; in both cases the state is returned as it was (no row changed, no job
  sent, no call ended), whatever the parser would make of the body.
\<close>

theorem signature_gate:
  "(falsy (x_signature req) \<or> falsy (x_api_key req) \<longrightarrow>
      POST verifyWebhook parse driver now req s
        = (Responds (Response 400 (Error ''Missing signature or API key'')), s))
   \<and> (x_signature req = Some sg \<and> sg \<noteq> [] \<and> \<not> falsy (x_api_key req)
        \<and> \<not> verifyWebhook (body req) sg \<longrightarrow>
      POST verifyWebhook parse driver now req s
        = (Responds (Response 401 (Error ''Invalid signature'')), s))"
  by (simp add: POST_def falsy_def)

theorem signature_gate_witness:
  "falsy (x_signature unsigned_request)
   \<and> POST reject_all (parse_as transcript_event) strict_driver 7 unsigned_request
       (store processing)
       = (Responds (Response 400 (Error ''Missing signature or API key'')), store processing)
   \<and> x_signature signed_request = Some ''sig'' \<and> \<not> falsy (x_api_key signed_request)
   \<and> \<not> reject_all (body signed_request) ''sig''
   \<and> POST reject_all (parse_as transcript_event) strict_driver 7 signed_request
       (store processing)
       = (Responds (Response 401 (Error ''Invalid signature'')), store processing)"
  using signature_gate
      [where req = unsigned_request and verifyWebhook = reject_all and driver = strict_driver
         and parse = "parse_as transcript_event" and now = 7 and s = "store processing"]
    signature_gate
      [where req = signed_request and verifyWebhook = reject_all and sg = "''sig''"
         and driver = strict_driver
         and parse = "parse_as transcript_event" and now = 7 and s = "store processing"]
  by (simp add: falsy_def unsigned_request_def signed_request_def reject_all_def)

section \<open>Speaker names\<close>

text \<open>
  C7. For every transcript and every pair of lookup results, the final map of step
  \<^verbatim>\<open>add-speakers\<close> returns one annotated item per transcript item, in order, each
  holding the item and a name: the name of a user whose id is the item's
  \<^verbatim>\<open>speaker_id\<close> when there is one, else the name of such an agent when there is one,
  else the literal \<^verbatim>\<open>Unknown\<close>. The step as a whole is this map applied to the users
  and agents whose ids occur in the transcript; it has no failing branch.
\<close>

theorem speakers_annotated:
  "length (annotate_all userSpeakers agentSpeakers transcript) = length transcript
   \<and> (\<forall>i<length transcript.
        item (annotate_all userSpeakers agentSpeakers transcript ! i) = transcript ! i
      \<and> (speaker_id (transcript ! i) \<in> user_id ` set userSpeakers \<longrightarrow>
           (\<exists>u\<in>set userSpeakers. user_id u = speaker_id (transcript ! i)
              \<and> user_name_of_item (annotate_all userSpeakers agentSpeakers transcript ! i)
                  = user_name u))
      \<and> (speaker_id (transcript ! i) \<notin> user_id ` set userSpeakers
            \<and> speaker_id (transcript ! i) \<in> agent_id ` set agentSpeakers \<longrightarrow>
           (\<exists>a\<in>set agentSpeakers. agent_id a = speaker_id (transcript ! i)
              \<and> user_name_of_item (annotate_all userSpeakers agentSpeakers transcript ! i)
                  = agent_name a))
      \<and> (speaker_id (transcript ! i) \<notin> user_id ` set userSpeakers
            \<and> speaker_id (transcript ! i) \<notin> agent_id ` set agentSpeakers \<longrightarrow>
           user_name_of_item (annotate_all userSpeakers agentSpeakers transcript ! i)
             = ''Unknown''))
   \<and> add_speakers s transcript =
       annotate_all
         (filter (\<lambda>u. user_id u \<in> speaker_id ` set transcript) (users s))
         (filter (\<lambda>a. agent_id a \<in> speaker_id ` set transcript) (agents s))
         transcript"
proof (intro conjI allI impI)
  show "length (annotate_all userSpeakers agentSpeakers transcript) = length transcript"
    by (simp add: annotate_all_def)
next
  fix i assume i: "i < length transcript"
  then have nth: "annotate_all userSpeakers agentSpeakers transcript ! i
      = annotate (map UserSpeaker userSpeakers @ map AgentSpeaker agentSpeakers) (transcript ! i)"
    by (simp add: annotate_all_def)
  note a = annotate_name [of userSpeakers agentSpeakers "transcript ! i"]
  from a show "item (annotate_all userSpeakers agentSpeakers transcript ! i) = transcript ! i"
    unfolding nth by blast
  {
    assume "speaker_id (transcript ! i) \<in> user_id ` set userSpeakers"
    with a show "\<exists>u\<in>set userSpeakers. user_id u = speaker_id (transcript ! i)
              \<and> user_name_of_item (annotate_all userSpeakers agentSpeakers transcript ! i)
                  = user_name u"
      unfolding nth by blast
  }
  {
    assume "speaker_id (transcript ! i) \<notin> user_id ` set userSpeakers
            \<and> speaker_id (transcript ! i) \<in> agent_id ` set agentSpeakers"
    with a show "\<exists>a\<in>set agentSpeakers. agent_id a = speaker_id (transcript ! i)
              \<and> user_name_of_item (annotate_all userSpeakers agentSpeakers transcript ! i)
                  = agent_name a"
      unfolding nth by blast
  }
  {
    assume "speaker_id (transcript ! i) \<notin> user_id ` set userSpeakers
            \<and> speaker_id (transcript ! i) \<notin> agent_id ` set agentSpeakers"
    with a show "user_name_of_item (annotate_all userSpeakers agentSpeakers transcript ! i)
             = ''Unknown''"
      unfolding nth by blast
  }
next
  show "add_speakers s transcript =
       annotate_all
         (filter (\<lambda>u. user_id u \<in> speaker_id ` set transcript) (users s))
         (filter (\<lambda>a. agent_id a \<in> speaker_id ` set transcript) (agents s))
         transcript"
    by (simp add: add_speakers_def select_where_def inArray_def set_new_Set)
qed

theorem speakers_annotated_witness:
  "map user_name_of_item (annotate_all [user_u1] [agent_a1] sample_transcript)
     = [''Sam'', ''Ada'', ''Unknown'']
   \<and> (0::nat) < length sample_transcript
   \<and> speaker_id (sample_transcript ! 0) \<in> user_id ` set [user_u1]
   \<and> (\<exists>u\<in>set [user_u1]. user_id u = speaker_id (sample_transcript ! 0)
        \<and> user_name_of_item (annotate_all [user_u1] [agent_a1] sample_transcript ! 0)
            = user_name u)"
proof -
  have l: "(0::nat) < length sample_transcript"
    and m: "speaker_id (sample_transcript ! 0) \<in> user_id ` set [user_u1]"
    by (simp_all add: sample_transcript_def user_u1_def)
  have names: "map user_name_of_item (annotate_all [user_u1] [agent_a1] sample_transcript)
     = [''Sam'', ''Ada'', ''Unknown'']"
    by (simp add: annotate_all_def annotate_def sample_transcript_def user_u1_def agent_a1_def)
  from speakers_annotated
    [where userSpeakers = "[user_u1]" and agentSpeakers = "[agent_a1]"
       and transcript = sample_transcript] l m
  have "\<exists>u\<in>set [user_u1]. user_id u = speaker_id (sample_transcript ! 0)
        \<and> user_name_of_item (annotate_all [user_u1] [agent_a1] sample_transcript ! 0)
            = user_name u"
    by blast
  with l m names show ?thesis by blast
qed

section \<open>Status codes of the webhook\<close>

text \<open>
  C8, as the claim states it, fails: a \<^verbatim>\<open>call.session_ended\<close> delivery that names a
  meeting of which the store has no row is acknowledged with 200, not answered 404.
\<close>

theorem unknown_meeting_acknowledged_counterexample:
  "meeting_id ` set (meetings (store active)) = {''m1''}
   \<and> call_custom_meetingId unknown_end_event = Some (Some (JString ''m2''))
   \<and> POST accept_all (parse_as unknown_end_event) strict_driver 7 signed_request (store active)
       = (Responds (Response 200 StatusOk), store active)"
proof (intro conjI)
  show "meeting_id ` set (meetings (store active)) = {''m1''}"
    by (simp add: store_def meeting_m1_def)
  show "call_custom_meetingId unknown_end_event = Some (Some (JString ''m2''))"
    by (simp add: unknown_end_event_def ended_payload_reads)
  show "POST accept_all (parse_as unknown_end_event) strict_driver 7 signed_request (store active)
       = (Responds (Response 200 StatusOk), store active)"
    by (rule unknown_end_run)
qed

text \<open>
  C8, amended. The endpoint answers 400 when a header is missing, the body does not
  parse, or the meeting id of a session-started, session-ended or participant-left
  delivery reads as a falsy value; 401 when the signature does not verify; 404 when the
  session-started branch finds no row it may start (or its id is bound as NULL), or no
  agent for the row it starts; and 200 with the acknowledgement for a session-started
  delivery that finds both, a participant-left or session-ended delivery with a
  meeting id (whether or not a row has it), a transcription-ready delivery that updates
  a row, a recording-ready delivery and every other kind. A delivery of a handled kind
  gets no response from the handler, which throws, when the fields its branch reads
  cannot be read or the driver refuses the value. The status of a transcription-ready
  delivery that updates no row is not part of this statement.
\<close>

theorem response_code_map:
  "(falsy (x_signature req) \<or> falsy (x_api_key req) \<longrightarrow>
      fst (POST verifyWebhook parse driver now req s)
        = Responds (Response 400 (Error ''Missing signature or API key'')))
   \<and> (x_signature req = Some sg \<and> sg \<noteq> [] \<and> \<not> falsy (x_api_key req)
        \<and> \<not> verifyWebhook (body req) sg \<longrightarrow>
      fst (POST verifyWebhook parse driver now req s)
        = Responds (Response 401 (Error ''Invalid signature'')))
   \<and> (authentic verifyWebhook req \<and> parse (body req) = None \<longrightarrow>
      fst (POST verifyWebhook parse driver now req s)
        = Responds (Response 400 (Error ''Invalid JSON '')))
   \<and> (authentic verifyWebhook req \<and> parse (body req) = Some p \<longrightarrow>
        ((payload_type p = Some (JString ''call.session_started'')
            \<or> payload_type p = Some (JString ''call.session_ended''))
          \<and> call_custom_meetingId p = Some v \<and> falsy_js v \<longrightarrow>
           fst (POST verifyWebhook parse driver now req s)
             = Responds (Response 400 (Error ''Missing meetingId'')))
      \<and> (payload_type p = Some (JString ''call.session_participant_left'')
          \<and> call_cid_meetingId p = Some w \<and> falsy w \<longrightarrow>
           fst (POST verifyWebhook parse driver now req s)
             = Responds (Response 400 (Error ''Missing meetingId '')))
      \<and> (payload_type p = Some (JString ''call.session_started'')
          \<and> call_custom_meetingId p = Some v \<and> \<not> falsy_js v
          \<and> (where_param driver v = SqlNull
               \<or> where_param driver v = SqlText mid
                  \<and> (\<forall>m\<in>set (meetings s). \<not> startable mid m)) \<longrightarrow>
           fst (POST verifyWebhook parse driver now req s)
             = Responds (Response 404 (Error ''Meeting not found'')))
      \<and> (payload_type p = Some (JString ''call.session_started'')
          \<and> call_custom_meetingId p = Some v \<and> \<not> falsy_js v
          \<and> where_param driver v = SqlText mid
          \<and> find (startable mid) (meetings s) = Some m
          \<and> agentId m \<notin> agent_id ` set (agents s) \<longrightarrow>
           fst (POST verifyWebhook parse driver now req s)
             = Responds (Response 404 (Error ''Agent not found'')))
      \<and> (payload_type p = Some (JString ''call.session_started'')
          \<and> call_custom_meetingId p = Some v \<and> \<not> falsy_js v
          \<and> where_param driver v = SqlText mid
          \<and> find (startable mid) (meetings s) = Some m
          \<and> agentId m \<in> agent_id ` set (agents s) \<longrightarrow>
           fst (POST verifyWebhook parse driver now req s) = Responds (Response 200 StatusOk))
      \<and> (payload_type p = Some (JString ''call.session_participant_left'')
          \<and> call_cid_meetingId p = Some w \<and> \<not> falsy w \<longrightarrow>
           fst (POST verifyWebhook parse driver now req s) = Responds (Response 200 StatusOk))
      \<and> (payload_type p = Some (JString ''call.session_ended'')
          \<and> call_custom_meetingId p = Some v \<and> \<not> falsy_js v
          \<and> where_param driver v \<noteq> Unbindable \<longrightarrow>
           fst (POST verifyWebhook parse driver now req s) = Responds (Response 200 StatusOk))
      \<and> (payload_type p = Some (JString ''call.transcription_ready'')
          \<and> call_cid_meetingId p = Some w
          \<and> nested_url ''call_transcription'' p = Some (Some j)
          \<and> sql_param_of driver j \<noteq> Unbindable
          \<and> (\<exists>m\<in>set (meetings s). eq_id (meeting_id m) w) \<longrightarrow>
           fst (POST verifyWebhook parse driver now req s) = Responds (Response 200 StatusOk))
      \<and> (payload_type p = Some (JString ''call.recording_ready'')
          \<and> call_cid_meetingId p = Some w
          \<and> nested_url ''call_recording'' p = Some (Some j)
          \<and> sql_param_of driver j \<noteq> Unbindable \<longrightarrow>
           fst (POST verifyWebhook parse driver now req s) = Responds (Response 200 StatusOk))
      \<and> (payload_type p \<notin> {Some (JString ''call.session_started''),
                             Some (JString ''call.session_participant_left''),
                             Some (JString ''call.session_ended''),
                             Some (JString ''call.transcription_ready''),
                             Some (JString ''call.recording_ready'')} \<longrightarrow>
           fst (POST verifyWebhook parse driver now req s) = Responds (Response 200 StatusOk))
      \<and> ((payload_type p = Some (JString ''call.session_started'')
            \<or> payload_type p = Some (JString ''call.session_ended''))
          \<and> (call_custom_meetingId p = None
               \<or> call_custom_meetingId p = Some v \<and> \<not> falsy_js v
                  \<and> where_param driver v = Unbindable) \<longrightarrow>
           fst (POST verifyWebhook parse driver now req s) = Uncaught)
      \<and> (payload_type p = Some (JString ''call.session_participant_left'')
          \<and> call_cid_meetingId p = None \<longrightarrow>
           fst (POST verifyWebhook parse driver now req s) = Uncaught)
      \<and> ((payload_type p = Some (JString ''call.transcription_ready'')
              \<and> k = ''call_transcription''
            \<or> payload_type p = Some (JString ''call.recording_ready'')
              \<and> k = ''call_recording'')
          \<and> (call_cid_meetingId p = None \<or> nested_url k p = None
               \<or> nested_url k p = Some None
               \<or> nested_url k p = Some (Some j) \<and> sql_param_of driver j = Unbindable) \<longrightarrow>
           fst (POST verifyWebhook parse driver now req s) = Uncaught))"
    (is "?G1 \<and> ?G2 \<and> ?G3 \<and> (?A \<longrightarrow> ?H1 \<and> ?H2 \<and> ?H3 \<and> ?H4 \<and> ?H5 \<and> ?H6 \<and> ?H7 \<and> ?H8
           \<and> ?H9 \<and> ?H10 \<and> ?H11 \<and> ?H12 \<and> ?H13)")
proof -
  have g1: ?G1 by (simp add: POST_def)
  have g2: ?G2 by (simp add: POST_def falsy_def)
  have g3: ?G3
  proof
    assume a: "authentic verifyWebhook req \<and> parse (body req) = None"
    then obtain sg' where "x_signature req = Some sg'" "sg' \<noteq> []" "\<not> falsy (x_api_key req)"
      "verifyWebhook (body req) sg'"
      by (cases "x_signature req") (simp_all add: authentic_def)
    with a show "fst (POST verifyWebhook parse driver now req s)
        = Responds (Response 400 (Error ''Invalid JSON ''))"
      by (simp add: POST_def falsy_def)
  qed
  have h: "?A \<longrightarrow> ?H1 \<and> ?H2 \<and> ?H3 \<and> ?H4 \<and> ?H5 \<and> ?H6 \<and> ?H7 \<and> ?H8 \<and> ?H9 \<and> ?H10 \<and> ?H11
      \<and> ?H12 \<and> ?H13"
  proof
    assume ?A
    then have auth: "authentic verifyWebhook req" and p: "parse (body req) = Some p" by simp_all
    show "?H1 \<and> ?H2 \<and> ?H3 \<and> ?H4 \<and> ?H5 \<and> ?H6 \<and> ?H7 \<and> ?H8 \<and> ?H9 \<and> ?H10 \<and> ?H11 \<and> ?H12
        \<and> ?H13"
      by (rule POST_handlers [where parse = parse and req = req, OF auth p])
  qed
  from g1 g2 g3 h show ?thesis by (intro conjI)
qed

theorem response_code_map_witness:
  "authentic accept_all signed_request
   \<and> parse_as unknown_end_event (body signed_request) = Some unknown_end_event
   \<and> payload_type unknown_end_event = Some (JString ''call.session_ended'')
   \<and> call_custom_meetingId unknown_end_event = Some (Some (JString ''m2''))
   \<and> \<not> falsy_js (Some (JString ''m2''))
   \<and> where_param strict_driver (Some (JString ''m2'')) \<noteq> Unbindable
   \<and> fst (POST accept_all (parse_as unknown_end_event) strict_driver 7 signed_request
           (store active))
       = Responds (Response 200 StatusOk)
   \<and> parse_as bare_start_event (body signed_request) = Some bare_start_event
   \<and> payload_type bare_start_event = Some (JString ''call.session_started'')
   \<and> call_custom_meetingId bare_start_event = None
   \<and> fst (POST accept_all (parse_as bare_start_event) strict_driver 7 signed_request
           (store upcoming))
       = Uncaught"
proof -
  have k: "payload_type unknown_end_event = Some (JString ''call.session_ended'')"
    and i: "call_custom_meetingId unknown_end_event = Some (Some (JString ''m2''))"
    by (simp_all add: unknown_end_event_def ended_payload_reads)
  have t: "\<not> falsy_js (Some (JString ''m2''))" by simp
  have w: "where_param strict_driver (Some (JString ''m2'')) \<noteq> Unbindable"
    by (simp add: where_param_string)
  note pe = parse_as_body [of unknown_end_event signed_request]
  note pb = parse_as_body [of bare_start_event signed_request]
  note e = response_code_map
    [where verifyWebhook = accept_all and req = signed_request
       and parse = "parse_as unknown_end_event" and driver = strict_driver
       and p = unknown_end_event and v = "Some (JString ''m2'')" and now = 7
       and s = "store active",
     THEN conjunct2, THEN conjunct2, THEN conjunct2, rule_format, OF conjI,
     OF authentic_signed pe, THEN conjunct2, THEN conjunct2, THEN conjunct2, THEN conjunct2,
     THEN conjunct2, THEN conjunct2, THEN conjunct1, rule_format, OF conjI, OF k conjI,
     OF i conjI, OF t w]
  note b = response_code_map
    [where verifyWebhook = accept_all and req = signed_request
       and parse = "parse_as bare_start_event" and driver = strict_driver
       and p = bare_start_event and now = 7 and s = "store upcoming",
     THEN conjunct2, THEN conjunct2, THEN conjunct2, rule_format, OF conjI,
     OF authentic_signed pb, THEN conjunct2, THEN conjunct2, THEN conjunct2, THEN conjunct2,
     THEN conjunct2, THEN conjunct2, THEN conjunct2, THEN conjunct2, THEN conjunct2,
     THEN conjunct2, THEN conjunct1, rule_format, OF conjI, OF disjI1 disjI1,
     OF bare_start_event_reads]
  from authentic_signed pe k i t w e pb bare_start_event_reads b show ?thesis
    by (intro conjI)
qed

text \<open>
  The case left out above, evaluated: a transcription-ready delivery for an unknown
  meeting is answered 400 with the body \<^verbatim>\<open>Meeting not found \<close>, where the session-started
  branch answers an unknown meeting with 404.
\<close>

lemma transcription_ready_unknown_meeting:
  "POST accept_all (parse_as unknown_transcript_event) strict_driver 7 signed_request
       (store processing)
     = (Responds (Response 400 (Error ''Meeting not found '')), store processing)
   \<and> POST accept_all (parse_as unknown_start_event) strict_driver 7 signed_request
       (store processing)
     = (Responds (Response 404 (Error ''Meeting not found'')), store processing)"
proof
  have n: "\<forall>m\<in>set (meetings (store processing)). \<not> eq_id (meeting_id m) (Some ''m2'')"
    by (simp add: store_def meeting_m1_def eq_id_def)
  have c: "call_cid_meetingId unknown_transcript_event = Some (Some ''m2'')"
    by (simp add: unknown_transcript_event_def transcript_event_reads)
  have u: "nested_url ''call_transcription'' unknown_transcript_event
      = Some (Some (JString ''https://x/t.jsonl''))"
    by (simp add: unknown_transcript_event_def transcript_event_reads)
  have b: "sql_param_of strict_driver (JString ''https://x/t.jsonl'') \<noteq> Unbindable"
    by (simp add: sql_param_of_def)
  have k: "payload_type unknown_transcript_event = Some (JString ''call.transcription_ready'')"
    by (simp add: unknown_transcript_event_def transcript_event_reads)
  show "POST accept_all (parse_as unknown_transcript_event) strict_driver 7 signed_request
       (store processing)
     = (Responds (Response 400 (Error ''Meeting not found '')), store processing)"
    unfolding POST_authentic [where parse = "parse_as unknown_transcript_event"
        and req = signed_request, OF authentic_signed parse_as_body]
      dispatch_transcription_ready [OF k] transcription_ready_leaves(1) [OF c u b n]
    by simp
  have f: "find (startable ''m2'') (meetings (store processing)) = None"
    by (simp add: store_def meeting_m1_def startable_def)
  have ks: "payload_type unknown_start_event = Some (JString ''call.session_started'')"
    and r: "call_custom_meetingId unknown_start_event = Some (Some (JString ''m2''))"
    by (simp_all add: unknown_start_event_def started_payload_reads)
  have t: "\<not> falsy_js (Some (JString ''m2''))" by simp
  show "POST accept_all (parse_as unknown_start_event) strict_driver 7 signed_request
       (store processing)
     = (Responds (Response 404 (Error ''Meeting not found'')), store processing)"
    unfolding POST_authentic [where parse = "parse_as unknown_start_event"
        and req = signed_request, OF authentic_signed parse_as_body]
      dispatch_session_started [OF ks]
      session_started_text [OF r t where_param_string]
      start_meeting_not_found [OF f]
    by simp
qed

section \<open>Rate limit of the voice overlay\<close>

text \<open>
  C9. When \<^verbatim>\<open>processWithFreeAI\<close> is called less than 3000 milliseconds after the last
  forwarded request, it only replaces the displayed text by
  \<^verbatim>\<open>Please wait N seconds...\<close>: nothing is posted to the endpoint and the time of the
  last request stays. The text shows the decimal numeral of the number \<open>N\<close> that is the
  remaining wait in seconds rounded up, \<open>1000 (N - 1) < remaining \<le> 1000 N\<close> with the
  remaining wait 3000 less the milliseconds elapsed; one second after a forwarded
  request the text is \<^verbatim>\<open>Please wait 2 seconds...\<close>.
\<close>

theorem rate_limit_drops:
  assumes "now - lastRequestTime st < 3000"
  shows "(\<exists>N digits.
            1000 * (int N - 1) < 3000 - (now - lastRequestTime st)
          \<and> 3000 - (now - lastRequestTime st) \<le> 1000 * int N
          \<and> decimal_numeral N digits
          \<and> processWithFreeAI fetch_speech speechSynthesis now said st
              = st\<lparr>aiResponse := ''Please wait '' @ digits @ '' seconds...''\<rparr>)
       \<and> requests (processWithFreeAI fetch_speech speechSynthesis now said st) = requests st
       \<and> lastRequestTime (processWithFreeAI fetch_speech speechSynthesis now said st)
           = lastRequestTime st
       \<and> (now - lastRequestTime st = 1000 \<longrightarrow>
            processWithFreeAI fetch_speech speechSynthesis now said st
              = st\<lparr>aiResponse := ''Please wait 2 seconds...''\<rparr>)"
proof -
  let ?rem = "3000 - (now - lastRequestTime st)"
  let ?n = "Math_ceil_div ?rem 1000"
  from assms have run: "processWithFreeAI fetch_speech speechSynthesis now said st
      = st\<lparr>aiResponse := ''Please wait '' @ show_int ?n @ '' seconds...''\<rparr>"
    by (simp add: processWithFreeAI_def Let_def MIN_REQUEST_INTERVAL_def)
  from assms have "0 < ?rem" by simp
  from ceil_div_positive [OF this] have pos: "0 < ?n" .
  then have shown: "show_int ?n = show_nat (nat ?n)" by (simp add: show_int_def)
  from pos have cast: "int (nat ?n) = ?n" by simp
  note b = ceil_div_bounds [of ?rem]
  have c0: "\<exists>N digits.
            1000 * (int N - 1) < ?rem \<and> ?rem \<le> 1000 * int N
          \<and> decimal_numeral N digits
          \<and> processWithFreeAI fetch_speech speechSynthesis now said st
              = st\<lparr>aiResponse := ''Please wait '' @ digits @ '' seconds...''\<rparr>"
  proof (intro exI conjI)
    show "1000 * (int (nat ?n) - 1) < ?rem" unfolding cast by (rule b [THEN conjunct1])
    show "?rem \<le> 1000 * int (nat ?n)" unfolding cast by (rule b [THEN conjunct2])
    show "decimal_numeral (nat ?n) (show_nat (nat ?n))" by (rule show_nat_numeral)
    show "processWithFreeAI fetch_speech speechSynthesis now said st
              = st\<lparr>aiResponse := ''Please wait '' @ show_nat (nat ?n) @ '' seconds...''\<rparr>"
      unfolding run shown ..
  qed
  have c1: "requests (processWithFreeAI fetch_speech speechSynthesis now said st) = requests st"
    unfolding run by simp
  have c2: "lastRequestTime (processWithFreeAI fetch_speech speechSynthesis now said st)
      = lastRequestTime st"
    unfolding run by simp
  have c3: "now - lastRequestTime st = 1000 \<longrightarrow>
      processWithFreeAI fetch_speech speechSynthesis now said st
        = st\<lparr>aiResponse := ''Please wait 2 seconds...''\<rparr>"
  proof
    assume k: "now - lastRequestTime st = 1000"
    then have "?n = 2" by (simp add: Math_ceil_div_def)
    then have "''Please wait '' @ show_int ?n @ '' seconds...'' = ''Please wait 2 seconds...''"
      by (simp add: show_int_two)
    then show "processWithFreeAI fetch_speech speechSynthesis now said st
        = st\<lparr>aiResponse := ''Please wait 2 seconds...''\<rparr>"
      unfolding run by simp
  qed
  from c0 c1 c2 c3 show ?thesis by (intro conjI)
qed

theorem rate_limit_drops_witness:
  "6000 - lastRequestTime overlay_after_request < 3000
   \<and> 6000 - lastRequestTime overlay_after_request = 1000
   \<and> processWithFreeAI fetch_speech_sample True 6000 ''what is the time'' overlay_after_request
       = overlay_after_request\<lparr>aiResponse := ''Please wait 2 seconds...''\<rparr>
   \<and> decimal_numeral 2 ''2''
   \<and> 1000 * (int 2 - 1) < 3000 - (6000 - lastRequestTime overlay_after_request)
   \<and> 3000 - (6000 - lastRequestTime overlay_after_request) \<le> 1000 * int 2"
proof -
  have h: "6000 - lastRequestTime overlay_after_request < 3000"
    and k: "6000 - lastRequestTime overlay_after_request = 1000"
    by (simp_all add: overlay_after_request_def)
  note t = rate_limit_drops
    [where now = 6000 and st = overlay_after_request and fetch_speech = fetch_speech_sample
       and speechSynthesis = True and said = "''what is the time''", OF h]
  note msg = t [THEN conjunct2, THEN conjunct2, THEN conjunct2, THEN mp, OF k]
  have d: "decimal_numeral 2 ''2''" by (simp add: decimal_numeral_def decimal_value_def)
  have b1: "1000 * (int 2 - 1) < 3000 - (6000 - lastRequestTime overlay_after_request)"
    and b2: "3000 - (6000 - lastRequestTime overlay_after_request) \<le> 1000 * int 2"
    unfolding k by simp_all
  from h k msg d b1 b2 show ?thesis by (intro conjI)
qed

section \<open>Reply of the voice endpoint\<close>

text \<open>
  C10. With the API key configured, a request whose text is not empty and whose
  generation call returns without throwing is answered 200 with \<^verbatim>\<open>success: true\<close> and
  a non-empty \<^verbatim>\<open>response\<close>: the generated text when it is not empty, and the literal
  \<^verbatim>\<open>Sorry, I couldn't process that.\<close> when the call returned no or empty text.
\<close>

theorem speech_reply:
  assumes "\<not> falsy GEMINI_API_KEY" and "txt \<noteq> []"
    and "generateContent (speech_request txt) = Inr result_text"
  shows "\<exists>reply. speech_POST GEMINI_API_KEY generateContent (Inr (Some txt))
             = SpeechResponse 200 (ReplyBody reply True)
           \<and> reply \<noteq> []
           \<and> (result_text = None \<or> result_text = Some []
                \<longrightarrow> reply = ''Sorry, I couldn't process that.'')
           \<and> (\<forall>t. result_text = Some t \<and> t \<noteq> [] \<longrightarrow> reply = t)"
proof -
  let ?reply = "or_else result_text ''Sorry, I couldn't process that.''"
  from assms have "speech_POST GEMINI_API_KEY generateContent (Inr (Some txt))
             = SpeechResponse 200 (ReplyBody ?reply True)"
    by (simp add: speech_POST_def)
  moreover have "?reply \<noteq> []" by (cases result_text) (simp_all add: or_else_def)
  moreover have "result_text = None \<or> result_text = Some []
                \<longrightarrow> ?reply = ''Sorry, I couldn't process that.''"
    by (auto simp: or_else_def)
  moreover have "\<forall>t. result_text = Some t \<and> t \<noteq> [] \<longrightarrow> ?reply = t"
    by (simp add: or_else_def)
  ultimately show ?thesis by blast
qed

theorem speech_reply_witness:
  "\<not> falsy (Some ''key'') \<and> ''how are you'' \<noteq> []
   \<and> generate_empty (speech_request ''how are you'') = Inr None
   \<and> speech_POST (Some ''key'') generate_empty (Inr (Some ''how are you''))
       = SpeechResponse 200 (ReplyBody ''Sorry, I couldn't process that.'' True)"
proof -
  have h: "\<not> falsy (Some ''key'')" "''how are you'' \<noteq> []"
    "generate_empty (speech_request ''how are you'') = Inr None"
    by (simp_all add: falsy_def generate_empty_def)
  from speech_reply [where generateContent = generate_empty, OF h]
  obtain reply where "speech_POST (Some ''key'') generate_empty (Inr (Some ''how are you''))
             = SpeechResponse 200 (ReplyBody reply True)"
    "reply = ''Sorry, I couldn't process that.''"
    by blast
  with h show ?thesis by simp
qed

end
